(* ===== verification/Lab_Prelude.thy ===== *)
theory Lab_Prelude
  imports Main "HOL-Library.Word"
begin

text \<open>
  Shared vocabulary of the development: bytes and machine integers, the error type of
  \<^verbatim>\<open>src/src/error.rs\<close>, the result type with the sequencing that Rust writes as \<^verbatim>\<open>?\<close>,
  big-endian integer encodings, the checked and saturating integer operations of the
  standard library that the program uses, and the generic list and word lemmas the
  components share.
\<close>

section \<open>Types and results\<close>

type_synonym byte = "8 word"
type_synonym bytes = "byte list"
type_synonym u64 = "64 word"

text \<open>The collections that carry the component proofs: unfolding of results and of database
  programs, and the closure rules of the transaction contract.\<close>

named_theorems result_simps
named_theorems sql_simps
named_theorems sql_intros

datatype lab_error =
    MissingSession
  | SessionAlreadyExists
  | ExpectedPreKey
  | PeerVerificationFailed
  | Crypto
  | Encoding
  | InvalidPayload
  | WrongConversation
  | MessageIdMismatch
  | DuplicateMessage
  | Unauthorized
  | RequestExpired
  | InvalidExpiry
  | MailboxNotFound
  | MailboxConflict
  | MessageConflict
  | MessageGone
  | MessageNotFound
  | Storage

type_synonym 'a result = "lab_error + 'a"

text \<open>\<open>and_then r f\<close> is \<^verbatim>\<open>let x = r?; f(x)\<close>, \<open>ensure b e\<close> is \<^verbatim>\<open>if !b { return Err(e) }\<close>, and
  \<open>ok_or\<close> and \<open>map_err\<close> are the library methods of the same names.\<close>

definition and_then :: "'a result \<Rightarrow> ('a \<Rightarrow> 'b result) \<Rightarrow> 'b result" where
  "and_then r f = (case r of Inl e \<Rightarrow> Inl e | Inr x \<Rightarrow> f x)"

definition ensure :: "bool \<Rightarrow> lab_error \<Rightarrow> unit result" where
  "ensure b e = (if b then Inr () else Inl e)"

definition ok_or :: "'a option \<Rightarrow> lab_error \<Rightarrow> 'a result" where
  "ok_or x e = (case x of None \<Rightarrow> Inl e | Some v \<Rightarrow> Inr v)"

section \<open>Integers\<close>

text \<open>\<^verbatim>\<open>u64::saturating_add\<close>, \<^verbatim>\<open>u64::checked_add\<close>, and the conversions between \<^verbatim>\<open>u64\<close>
  and the \<^verbatim>\<open>i64\<close> columns of the databases. An \<^verbatim>\<open>i64\<close> is an \<^typ>\<open>int\<close>; the conversions carry
  the range check.\<close>

definition u64_saturating_add :: "u64 \<Rightarrow> u64 \<Rightarrow> u64" where
  "u64_saturating_add a b = (if unat a + unat b < 2 ^ 64 then a + b else - 1)"

definition u64_checked_add :: "u64 \<Rightarrow> u64 \<Rightarrow> u64 option" where
  "u64_checked_add a b = (if unat a + unat b < 2 ^ 64 then Some (a + b) else None)"

definition i64_try_from :: "u64 \<Rightarrow> int option" where
  "i64_try_from v = (if uint v < 2 ^ 63 then Some (uint v) else None)"

definition u64_try_from :: "int \<Rightarrow> u64 option" where
  "u64_try_from i = (if 0 \<le> i then Some (word_of_int i) else None)"

text \<open>A \<^verbatim>\<open>SystemTime\<close> is a number of nanoseconds, negative before the epoch.
  \<open>unix_seconds\<close> is \<^verbatim>\<open>duration_since(UNIX_EPOCH)\<close> followed by \<^verbatim>\<open>as_secs\<close>.\<close>

type_synonym system_time = int

definition unix_seconds :: "system_time \<Rightarrow> u64 option" where
  "unix_seconds t = (if t < 0 then None else Some (word_of_int (t div 10 ^ 9)))"

lemma unix_seconds_bounded:
  assumes "0 \<le> t" and "t div 10 ^ 9 < 2 ^ 63"
  obtains s where "unix_seconds t = Some s" "uint s = t div 10 ^ 9"
proof -
  have "0 \<le> t div 10 ^ 9"
    using assms(1) by simp
  then have "uint (word_of_int (t div 10 ^ 9) :: u64) = t div 10 ^ 9"
    using assms(2) by (intro uint_word_of_int_eq [THEN trans]) (simp add: take_bit_int_eq_self)
  then show thesis
    using that assms(1) by (simp add: unix_seconds_def)
qed

section \<open>Big-endian byte strings\<close>

text \<open>\<open>be_bytes n v\<close> is the big-endian encoding of \<open>v\<close> in \<open>n\<close> bytes, the truncation to a
  byte being the one of \<^verbatim>\<open>to_be_bytes\<close>; \<open>be_value\<close> reads such a string back.\<close>

fun be_bytes :: "nat \<Rightarrow> nat \<Rightarrow> bytes" where
  "be_bytes 0 v = []"
| "be_bytes (Suc n) v = be_bytes n (v div 256) @ [word_of_nat (v mod 256)]"

definition be_value :: "bytes \<Rightarrow> nat" where
  "be_value bs = foldl (\<lambda>acc b. acc * 256 + unat b) 0 bs"

definition u64_to_be_bytes :: "u64 \<Rightarrow> bytes" where
  "u64_to_be_bytes w = be_bytes 8 (unat w)"

definition i64_to_be_bytes :: "int \<Rightarrow> bytes" where
  "i64_to_be_bytes i = be_bytes 8 (unat (word_of_int i :: u64))"

text \<open>Byte-string literals \<^verbatim>\<open>b"..."\<close>.\<close>

definition ascii :: "string \<Rightarrow> bytes" where
  "ascii s = map of_char s"

section \<open>Generic lemmas\<close>

lemma and_then_Inl [simp, result_simps]: "and_then (Inl e) f = Inl e"
  by (simp add: and_then_def)

lemma and_then_Inr [simp, result_simps]: "and_then (Inr x) f = f x"
  by (simp add: and_then_def)

lemma and_then_eq_Inr_iff [result_simps]:
  "and_then r f = Inr y \<longleftrightarrow> (\<exists>x. r = Inr x \<and> f x = Inr y)"
  by (cases r) auto

lemma and_then_eq_Inl_iff:
  "and_then r f = Inl e \<longleftrightarrow> r = Inl e \<or> (\<exists>x. r = Inr x \<and> f x = Inl e)"
  by (cases r) auto

lemma ensure_eq_Inr_iff [simp, result_simps]: "ensure b e = Inr u \<longleftrightarrow> b"
  by (simp add: ensure_def)

lemma ensure_True [simp]: "ensure True e = Inr ()"
  by (simp add: ensure_def)

lemma ensure_False [simp]: "ensure False e = Inl e"
  by (simp add: ensure_def)

lemma ok_or_Some [simp, result_simps]: "ok_or (Some x) e = Inr x"
  by (simp add: ok_or_def)

lemma ok_or_None [simp, result_simps]: "ok_or None e = Inl e"
  by (simp add: ok_or_def)

lemma ok_or_eq_Inr_iff [result_simps]: "ok_or x e = Inr v \<longleftrightarrow> x = Some v"
  by (cases x) auto

lemma and_then_assoc: "and_then (and_then r f) g = and_then r (\<lambda>x. and_then (f x) g)"
  by (cases r) simp_all

lemma and_then_option:
  "and_then (case v of None \<Rightarrow> a | Some x \<Rightarrow> g x) f =
     (case v of None \<Rightarrow> and_then a f | Some x \<Rightarrow> and_then (g x) f)"
  by (cases v) simp_all

lemma and_then_ensure: "and_then (ensure b e) f = (if b then f () else Inl e)"
  by (simp add: ensure_def)

lemma and_then_ok_or: "and_then (ok_or v e) f = (case v of None \<Rightarrow> Inl e | Some x \<Rightarrow> f x)"
  by (cases v) simp_all

lemma unat_u64_less: "unat (w :: u64) < 2 ^ 64"
  using unsigned_less [of w, where 'a = nat] by simp

lemma unat_saturating_add:
  "unat (u64_saturating_add a b) = min (unat a + unat b) (2 ^ 64 - 1)"
proof (cases "unat a + unat b < 2 ^ 64")
  case True
  then show ?thesis
    by (simp add: u64_saturating_add_def unat_word_ariths)
next
  case False
  moreover have "unat (- 1 :: u64) = 2 ^ 64 - 1"
    by (simp add: unsigned_minus_1_eq_mask mask_eq_exp_minus_1)
  ultimately show ?thesis
    by (simp add: u64_saturating_add_def)
qed

lemma uint_saturating_add:
  "uint (u64_saturating_add a b) = min (uint a + uint b) (2 ^ 64 - 1)"
proof -
  have "int (unat (u64_saturating_add a b)) = min (int (unat a) + int (unat b)) (2 ^ 64 - 1)"
    unfolding unat_saturating_add by (simp add: of_nat_min of_nat_diff)
  then show ?thesis by simp
qed

lemma saturating_add_ge: "a \<le> u64_saturating_add a b"
proof -
  show ?thesis
    using unat_u64_less [of a] by (simp add: word_le_nat_alt unat_saturating_add)
qed

lemma checked_add_Some_iff:
  "u64_checked_add a b = Some c \<longleftrightarrow> unat a + unat b < 2 ^ 64 \<and> c = a + b"
  by (auto simp: u64_checked_add_def)

lemma checked_add_SomeD:
  "u64_checked_add a b = Some c \<Longrightarrow> unat c = unat a + unat b"
  by (auto simp: u64_checked_add_def unat_word_ariths split: if_splits)

lemma i64_try_from_Some_iff:
  "i64_try_from v = Some i \<longleftrightarrow> uint v < 2 ^ 63 \<and> i = uint v"
  by (auto simp: i64_try_from_def)

lemma i64_try_from_SomeD: "i64_try_from v = Some i \<Longrightarrow> i = uint v"
  by (simp add: i64_try_from_Some_iff)

lemma u64_i64_roundtrip: "i64_try_from v = Some i \<Longrightarrow> u64_try_from i = Some v"
  by (auto simp: i64_try_from_def u64_try_from_def split: if_splits)

lemma length_be_bytes [simp]: "length (be_bytes n v) = n"
  by (induction n arbitrary: v) simp_all

lemma be_value_snoc [simp]: "be_value (bs @ [b]) = be_value bs * 256 + unat b"
  by (simp add: be_value_def)

lemma be_value_be_bytes: "be_value (be_bytes n v) = v mod 256 ^ n"
proof (induction n arbitrary: v)
  case 0
  then show ?case by (simp add: be_value_def)
next
  case (Suc n)
  have "unat (word_of_nat (v mod 256) :: byte) = v mod 256"
    by (simp add: unat_of_nat)
  then have "be_value (be_bytes (Suc n) v) = (v div 256) mod 256 ^ n * 256 + v mod 256"
    using Suc.IH [of "v div 256"] by simp
  also have "\<dots> = v mod 256 ^ Suc n"
    by (simp add: mod_mult2_eq)
  finally show ?case .
qed

lemma be_bytes_inject:
  assumes "v < 256 ^ n" and "w < 256 ^ n" and "be_bytes n v = be_bytes n w"
  shows "v = w"
proof -
  have "v mod 256 ^ n = w mod 256 ^ n"
    unfolding be_value_be_bytes [symmetric] by (simp only: assms(3))
  then show ?thesis
    using assms(1,2) by simp
qed

lemma u64_to_be_bytes_inject [simp]: "u64_to_be_bytes v = u64_to_be_bytes w \<longleftrightarrow> v = w"
proof
  assume eq: "u64_to_be_bytes v = u64_to_be_bytes w"
  have "unat x < 256 ^ 8" for x :: u64
    using unat_u64_less [of x] by simp
  then have "unat v = unat w"
    using eq be_bytes_inject [of "unat v" 8 "unat w"] by (simp add: u64_to_be_bytes_def)
  then show "v = w" by (simp add: word_unat_eq_iff)
qed simp

lemma length_u64_to_be_bytes [simp]: "length (u64_to_be_bytes v) = 8"
  by (simp add: u64_to_be_bytes_def)

lemma length_i64_to_be_bytes [simp]: "length (i64_to_be_bytes i) = 8"
  by (simp add: i64_to_be_bytes_def)

lemma length_ascii [simp]: "length (ascii s) = length s"
  by (simp add: ascii_def)

end
