(* ===== verification/Lab_Types.thy ===== *)
theory Lab_Types
  imports Lab_Prelude
begin

text \<open>
  The plain data of the program: the opaque identifiers of \<^verbatim>\<open>src/src/ids.rs\<close>, the packet and
  message types of \<^verbatim>\<open>src/src/client.rs\<close>, the stored envelope of \<^verbatim>\<open>src/src/relay.rs\<close> and the
  verified envelope of \<^verbatim>\<open>src/src/capability.rs\<close>. The Rust modules refer to each other's
  types, so the types stand together here and the operations in one theory per module.
\<close>

section \<open>Opaque identifiers\<close>

text \<open>Each expansion of the macro \<^verbatim>\<open>opaque_id!\<close> is a newtype over a fixed-size array. The
  array length is a type in Rust; here it is the predicate \<open>\<dots>_ok\<close>. \<open>\<dots>_random\<close> takes
  the effect of \<^verbatim>\<open>OsRng.fill_bytes\<close> on a buffer of the given size as its argument.\<close>

datatype queue_id = QueueId (queue_id_bytes: bytes)
datatype message_id = MessageId (message_id_bytes: bytes)
datatype conversation_id = ConversationId (conversation_id_bytes: bytes)
datatype nonce = Nonce (nonce_bytes: bytes)

definition queue_id_ok :: "queue_id \<Rightarrow> bool" where
  "queue_id_ok q \<longleftrightarrow> length (queue_id_bytes q) = 32"

definition message_id_ok :: "message_id \<Rightarrow> bool" where
  "message_id_ok m \<longleftrightarrow> length (message_id_bytes m) = 16"

definition nonce_ok :: "nonce \<Rightarrow> bool" where
  "nonce_ok n \<longleftrightarrow> length (nonce_bytes n) = 16"

definition queue_id_random :: "(nat \<Rightarrow> bytes) \<Rightarrow> queue_id" where
  "queue_id_random fill_bytes = QueueId (fill_bytes 32)"

definition message_id_random :: "(nat \<Rightarrow> bytes) \<Rightarrow> message_id" where
  "message_id_random fill_bytes = MessageId (fill_bytes 16)"

definition conversation_id_random :: "(nat \<Rightarrow> bytes) \<Rightarrow> conversation_id" where
  "conversation_id_random fill_bytes = ConversationId (fill_bytes 16)"

definition nonce_random :: "(nat \<Rightarrow> bytes) \<Rightarrow> nonce" where
  "nonce_random fill_bytes = Nonce (fill_bytes 16)"

definition queue_id_from_slice :: "bytes \<Rightarrow> queue_id option" where
  "queue_id_from_slice v = (if length v = 32 then Some (QueueId v) else None)"

definition message_id_from_slice :: "bytes \<Rightarrow> message_id option" where
  "message_id_from_slice v = (if length v = 16 then Some (MessageId v) else None)"

section \<open>Packets, messages and envelopes\<close>

datatype encrypted_packet = EncryptedPacket (packet_bytes: bytes)

record plain_message =
  pm_version :: byte
  pm_conversation_id :: conversation_id
  pm_message_id :: message_id
  pm_sent_at :: u64
  pm_body :: string

record 'sig stored_envelope =
  se_queue_id :: queue_id
  se_message_id :: message_id
  se_packet :: encrypted_packet
  se_expires_at :: u64
  se_sender_signature :: 'sig

record verified_envelope =
  ve_queue_id :: queue_id
  ve_message_id :: message_id
  ve_packet :: encrypted_packet
  ve_expires_at :: u64

record opened_message =
  om_message :: plain_message
  om_envelope :: verified_envelope

section \<open>Facts\<close>

lemma queue_id_from_slice_bytes [simp]:
  "queue_id_ok q \<Longrightarrow> queue_id_from_slice (queue_id_bytes q) = Some q"
  by (cases q) (simp add: queue_id_ok_def queue_id_from_slice_def)

lemma message_id_from_slice_bytes [simp]:
  "message_id_ok m \<Longrightarrow> message_id_from_slice (message_id_bytes m) = Some m"
  by (cases m) (simp add: message_id_ok_def message_id_from_slice_def)

lemma message_id_from_slice_Some_iff:
  "message_id_from_slice v = Some m \<longleftrightarrow> message_id_ok m \<and> message_id_bytes m = v"
  by (cases m) (auto simp: message_id_ok_def message_id_from_slice_def)

lemma queue_id_bytes_inject [simp]: "queue_id_bytes p = queue_id_bytes q \<longleftrightarrow> p = q"
  by (cases p; cases q) simp

lemma message_id_bytes_inject [simp]: "message_id_bytes p = message_id_bytes q \<longleftrightarrow> p = q"
  by (cases p; cases q) simp

lemma nonce_bytes_inject [simp]: "nonce_bytes p = nonce_bytes q \<longleftrightarrow> p = q"
  by (cases p; cases q) simp

lemma packet_bytes_inject [simp]: "packet_bytes p = packet_bytes q \<longleftrightarrow> p = q"
  by (cases p; cases q) simp

end
