(* ===== verification/Framing.thy ===== *)
theory Framing
  imports Lab_Prelude
begin

text \<open>
  Length-prefixed framing. The program encodes signed commands
  (\<^verbatim>\<open>append_part\<close> of \<^verbatim>\<open>src/src/capability.rs\<close>) and the associated data of the state envelope
  (\<^verbatim>\<open>append_part\<close> of \<^verbatim>\<open>src/src/persistence/envelope.rs\<close>) as a sequence of parts, each
  after its length in a fixed number of bytes. The locale states what such a length
  encoding has to promise and proves, once, that a framed sequence determines its parts.
\<close>

section \<open>The interface\<close>

locale length_prefix =
  fixes width :: nat
    and encode_length :: "nat \<Rightarrow> bytes"
    and limit :: nat
  assumes width_pos: "0 < width"
    and encode_length_width: "length (encode_length n) = width"
    and encode_length_inject:
      "m < limit \<Longrightarrow> n < limit \<Longrightarrow> encode_length m = encode_length n \<Longrightarrow> m = n"
begin

definition frame :: "bytes \<Rightarrow> bytes" where
  "frame p = encode_length (length p) @ p"

definition frames :: "bytes list \<Rightarrow> bytes" where
  "frames ps = concat (map frame ps)"

lemma frames_Nil [simp]: "frames [] = []"
  by (simp add: frames_def)

lemma frames_Cons: "frames (p # ps) = frame p @ frames ps"
  by (simp add: frames_def)

lemma frames_snoc: "frames (ps @ [p]) = frames ps @ frame p"
  by (simp add: frames_def)

lemma frame_prefix_inject:
  assumes "length p < limit" and "length q < limit" and "frame p @ r = frame q @ s"
  shows "p = q \<and> r = s"
proof -
  have "encode_length (length p) = encode_length (length q) \<and> p @ r = q @ s"
    using assms(3) by (simp add: frame_def append_eq_append_conv encode_length_width)
  moreover from this have "length p = length q"
    using encode_length_inject assms(1,2) by blast
  ultimately show ?thesis by simp
qed

lemma frame_not_empty: "frame p \<noteq> []"
  using encode_length_width [of "length p"] width_pos by (auto simp: frame_def)

theorem frames_inject:
  "(\<forall>p\<in>set ps. length p < limit) \<Longrightarrow> (\<forall>q\<in>set qs. length q < limit) \<Longrightarrow>
     frames ps = frames qs \<Longrightarrow> ps = qs"
proof (induction ps arbitrary: qs)
  case Nil
  then show ?case
    by (cases qs) (simp_all add: frames_Cons frame_not_empty)
next
  case (Cons p ps)
  from Cons.prems(3) have "qs \<noteq> []"
    by (auto simp: frames_Cons frame_not_empty)
  then obtain q qs' where qs: "qs = q # qs'"
    by (cases qs) simp_all
  with Cons.prems have "p = q \<and> frames ps = frames qs'"
    by (intro frame_prefix_inject) (simp_all add: frames_Cons)
  with Cons.IH [of qs'] Cons.prems(1,2) qs show ?case
    by simp
qed

lemma length_frames: "length (frames ps) = width * length ps + sum_list (map length ps)"
  by (induction ps) (simp_all add: frames_Cons frame_def encode_length_width)

end

section \<open>The two length encodings of the program\<close>

text \<open>\<open>u64_length n\<close> is \<^verbatim>\<open>u64::try_from(n).unwrap_or(u64::MAX)\<close>.\<close>

definition u64_length :: "nat \<Rightarrow> u64" where
  "u64_length n = (if n < 2 ^ 64 then word_of_nat n else - 1)"

lemma unat_u64_length: "n < 2 ^ 64 \<Longrightarrow> unat (u64_length n) = n"
  by (simp add: u64_length_def unat_of_nat)

interpretation u64_frame: length_prefix 8 "\<lambda>n. u64_to_be_bytes (u64_length n)" "2 ^ 64"
proof unfold_locales
  show "m = n" if "m < 2 ^ 64" "n < 2 ^ 64"
    and eq: "u64_to_be_bytes (u64_length m) = u64_to_be_bytes (u64_length n)" for m n :: nat
  proof -
    from eq have "unat (u64_length m) = unat (u64_length n)"
      by (simp only: u64_to_be_bytes_inject)
    then show ?thesis
      by (simp only: unat_u64_length [OF that(1)] unat_u64_length [OF that(2)])
  qed
qed simp_all

interpretation u32_frame: length_prefix 4 "be_bytes 4" "2 ^ 32"
proof unfold_locales
  show "m = n" if "m < 2 ^ 32" "n < 2 ^ 32" "be_bytes 4 m = be_bytes 4 n" for m n :: nat
  proof (rule be_bytes_inject [of m 4 n])
    have "(2 :: nat) ^ 32 = 256 ^ 4" by simp
    then show "m < 256 ^ 4" and "n < 256 ^ 4"
      using that(1,2) by (simp_all only:)
  qed (rule that(3))
qed simp_all

end
