(* ===== verification/Capability.thy ===== *)
theory Capability
  imports Lab_Types Framing
begin

text \<open>
  The capabilities of \<^verbatim>\<open>src/src/capability.rs\<close>: the canonical encoding of a signed command,
  the five request types with the bytes their signatures cover, the operations of a mailbox
  owner and of the send, receive and manage capabilities, and the check of a fetched
  envelope. Ed25519 and SHA-256 are third-party code and enter as the record
  \<open>crypto\<close>; what the program relies on is the predicate \<open>crypto_laws\<close>.
\<close>

section \<open>Third-party cryptography\<close>

text \<open>\<open>sha256\<close> is \<^verbatim>\<open>Sha256::digest\<close>; \<open>public_key\<close> and \<open>sign\<close> are methods of
  \<^verbatim>\<open>Ed25519Keypair\<close>; \<open>pk_bytes\<close>, \<open>pk_from_slice\<close> and \<open>verify\<close> of
  \<^verbatim>\<open>Ed25519PublicKey\<close> (\<open>verify\<close> says whether the library returned \<^verbatim>\<open>Ok\<close>); \<open>sig_bytes\<close> and
  \<open>sig_from_slice\<close> of \<^verbatim>\<open>Ed25519Signature\<close>.\<close>

record ('kp, 'pk, 'sig) crypto =
  sha256 :: "bytes \<Rightarrow> bytes"
  public_key :: "'kp \<Rightarrow> 'pk"
  sign :: "'kp \<Rightarrow> bytes \<Rightarrow> 'sig"
  pk_bytes :: "'pk \<Rightarrow> bytes"
  pk_from_slice :: "bytes \<Rightarrow> 'pk option"
  verify :: "'pk \<Rightarrow> bytes \<Rightarrow> 'sig \<Rightarrow> bool"
  sig_bytes :: "'sig \<Rightarrow> bytes"
  sig_from_slice :: "bytes \<Rightarrow> 'sig option"

text \<open>The documented behaviour of the libraries: digests of 32 bytes, keys of 32 and
  signatures of 64 bytes that survive a round trip through their byte form, and signatures
  that verify under the matching public key.\<close>

definition crypto_laws :: "('kp, 'pk, 'sig) crypto \<Rightarrow> bool" where
  "crypto_laws C \<longleftrightarrow>
     (\<forall>bs. length (sha256 C bs) = 32) \<and>
     (\<forall>k m. verify C (public_key C k) m (sign C k m)) \<and>
     (\<forall>p. length (pk_bytes C p) = 32 \<and> pk_from_slice C (pk_bytes C p) = Some p) \<and>
     (\<forall>s. length (sig_bytes C s) = 64 \<and> sig_from_slice C (sig_bytes C s) = Some s)"

section \<open>Canonical encoding\<close>

definition PROTOCOL_DOMAIN :: bytes where
  "PROTOCOL_DOMAIN = ascii ''secure-messenger-lab/phase0/v1''"

definition ACTION_REGISTER :: bytes where "ACTION_REGISTER = ascii ''register''"
definition ACTION_SEND :: bytes where "ACTION_SEND = ascii ''send''"
definition ACTION_FETCH :: bytes where "ACTION_FETCH = ascii ''fetch''"
definition ACTION_ACK :: bytes where "ACTION_ACK = ascii ''ack''"
definition ACTION_DELETE :: bytes where "ACTION_DELETE = ascii ''delete-mailbox''"

definition append_part :: "bytes \<Rightarrow> bytes \<Rightarrow> bytes" where
  "append_part target part = target @ u64_to_be_bytes (u64_length (length part)) @ part"

definition canonical :: "bytes \<Rightarrow> bytes list \<Rightarrow> bytes" where
  "canonical action parts =
     (let encoded = append_part (append_part [] PROTOCOL_DOMAIN) action
      in foldl append_part encoded parts)"

definition digest :: "('kp, 'pk, 'sig) crypto \<Rightarrow> bytes \<Rightarrow> bytes" where
  "digest C bs = sha256 C bs"

definition packet_digest :: "('kp, 'pk, 'sig) crypto \<Rightarrow> encrypted_packet \<Rightarrow> bytes" where
  "packet_digest C p = digest C (packet_bytes p)"

section \<open>Requests and the bytes their signatures cover\<close>

record ('pk, 'sig) mailbox_registration =
  reg_queue_id :: queue_id
  reg_send_key :: 'pk
  reg_receive_key :: 'pk
  reg_manage_key :: 'pk
  reg_nonce :: nonce
  reg_valid_until :: u64
  reg_signature :: 'sig

record 'sig send_request =
  snd_queue_id :: queue_id
  snd_message_id :: message_id
  snd_packet :: encrypted_packet
  snd_expires_at :: u64
  snd_signature :: 'sig

record 'sig fetch_request =
  ftc_queue_id :: queue_id
  ftc_nonce :: nonce
  ftc_valid_until :: u64
  ftc_signature :: 'sig

record 'sig ack_request =
  ack_queue_id :: queue_id
  ack_message_id :: message_id
  ack_packet_hash :: bytes
  ack_valid_until :: u64
  ack_signature :: 'sig

record 'sig delete_mailbox_request =
  del_queue_id :: queue_id
  del_nonce :: nonce
  del_valid_until :: u64
  del_signature :: 'sig

definition registration_signing_bytes ::
    "('kp, 'pk, 'sig) crypto \<Rightarrow> ('pk, 'sig) mailbox_registration \<Rightarrow> bytes" where
  "registration_signing_bytes C r =
     canonical ACTION_REGISTER
       [queue_id_bytes (reg_queue_id r), pk_bytes C (reg_send_key r),
        pk_bytes C (reg_receive_key r), pk_bytes C (reg_manage_key r),
        nonce_bytes (reg_nonce r), u64_to_be_bytes (reg_valid_until r)]"

definition send_signing_bytes ::
    "('kp, 'pk, 'sig) crypto \<Rightarrow> queue_id \<Rightarrow> message_id \<Rightarrow> encrypted_packet \<Rightarrow> u64 \<Rightarrow> bytes" where
  "send_signing_bytes C q m p e =
     canonical ACTION_SEND
       [queue_id_bytes q, message_id_bytes m, packet_digest C p, u64_to_be_bytes e]"

definition send_request_signing_bytes ::
    "('kp, 'pk, 'sig) crypto \<Rightarrow> 'sig send_request \<Rightarrow> bytes" where
  "send_request_signing_bytes C r =
     send_signing_bytes C (snd_queue_id r) (snd_message_id r) (snd_packet r) (snd_expires_at r)"

definition fetch_signing_bytes :: "'sig fetch_request \<Rightarrow> bytes" where
  "fetch_signing_bytes r =
     canonical ACTION_FETCH
       [queue_id_bytes (ftc_queue_id r), nonce_bytes (ftc_nonce r),
        u64_to_be_bytes (ftc_valid_until r)]"

definition ack_signing_bytes :: "'sig ack_request \<Rightarrow> bytes" where
  "ack_signing_bytes r =
     canonical ACTION_ACK
       [queue_id_bytes (ack_queue_id r), message_id_bytes (ack_message_id r),
        ack_packet_hash r, u64_to_be_bytes (ack_valid_until r)]"

definition delete_signing_bytes :: "'sig delete_mailbox_request \<Rightarrow> bytes" where
  "delete_signing_bytes r =
     canonical ACTION_DELETE
       [queue_id_bytes (del_queue_id r), nonce_bytes (del_nonce r),
        u64_to_be_bytes (del_valid_until r)]"

section \<open>The owner and the three capabilities\<close>

record 'kp mailbox_owner =
  mo_queue_id :: queue_id
  mo_send :: 'kp
  mo_receive :: 'kp
  mo_manage :: 'kp

record 'kp send_capability =
  sc_queue_id :: queue_id
  sc_signing_key :: 'kp

record ('kp, 'pk) receive_capability =
  rc_queue_id :: queue_id
  rc_signing_key :: 'kp
  rc_send_verification_key :: 'pk

record 'kp manage_capability =
  mc_queue_id :: queue_id
  mc_signing_key :: 'kp

text \<open>Fresh randomness is an argument: the three key pairs of \<^verbatim>\<open>Ed25519Keypair::new\<close> and the
  buffer contents behind \<^verbatim>\<open>QueueId::random\<close> and \<^verbatim>\<open>Nonce::random\<close>.\<close>

definition mailbox_owner_new :: "(nat \<Rightarrow> bytes) \<Rightarrow> 'kp \<Rightarrow> 'kp \<Rightarrow> 'kp \<Rightarrow> 'kp mailbox_owner" where
  "mailbox_owner_new fill_bytes s r m =
     \<lparr>mo_queue_id = queue_id_random fill_bytes, mo_send = s, mo_receive = r, mo_manage = m\<rparr>"

definition registration ::
    "('kp, 'pk, 'sig) crypto \<Rightarrow> (nat \<Rightarrow> bytes) \<Rightarrow> 'kp mailbox_owner \<Rightarrow> u64 \<Rightarrow>
     ('pk, 'sig) mailbox_registration" where
  "registration C fill_bytes o' valid_until =
     (let n = nonce_random fill_bytes;
          send_key = public_key C (mo_send o');
          receive_key = public_key C (mo_receive o');
          manage_key = public_key C (mo_manage o');
          signing_bytes = canonical ACTION_REGISTER
            [queue_id_bytes (mo_queue_id o'), pk_bytes C send_key, pk_bytes C receive_key,
             pk_bytes C manage_key, nonce_bytes n, u64_to_be_bytes valid_until]
      in \<lparr>reg_queue_id = mo_queue_id o', reg_send_key = send_key, reg_receive_key = receive_key,
          reg_manage_key = manage_key, reg_nonce = n, reg_valid_until = valid_until,
          reg_signature = sign C (mo_manage o') signing_bytes\<rparr>)"

definition sender_capability :: "'kp mailbox_owner \<Rightarrow> 'kp send_capability" where
  "sender_capability o' = \<lparr>sc_queue_id = mo_queue_id o', sc_signing_key = mo_send o'\<rparr>"

definition receiver_capability ::
    "('kp, 'pk, 'sig) crypto \<Rightarrow> 'kp mailbox_owner \<Rightarrow> ('kp, 'pk) receive_capability" where
  "receiver_capability C o' =
     \<lparr>rc_queue_id = mo_queue_id o', rc_signing_key = mo_receive o',
      rc_send_verification_key = public_key C (mo_send o')\<rparr>"

definition manager_capability :: "'kp mailbox_owner \<Rightarrow> 'kp manage_capability" where
  "manager_capability o' = \<lparr>mc_queue_id = mo_queue_id o', mc_signing_key = mo_manage o'\<rparr>"

definition authorize ::
    "('kp, 'pk, 'sig) crypto \<Rightarrow> 'kp send_capability \<Rightarrow> message_id \<Rightarrow> encrypted_packet \<Rightarrow> u64 \<Rightarrow>
     'sig send_request" where
  "authorize C cap m p expires_at =
     (let signing_bytes = canonical ACTION_SEND
            [queue_id_bytes (sc_queue_id cap), message_id_bytes m, packet_digest C p,
             u64_to_be_bytes expires_at]
      in \<lparr>snd_queue_id = sc_queue_id cap, snd_message_id = m, snd_packet = p,
          snd_expires_at = expires_at, snd_signature = sign C (sc_signing_key cap) signing_bytes\<rparr>)"

definition authorize_fetch ::
    "('kp, 'pk, 'sig) crypto \<Rightarrow> (nat \<Rightarrow> bytes) \<Rightarrow> ('kp, 'pk) receive_capability \<Rightarrow> u64 \<Rightarrow>
     'sig fetch_request" where
  "authorize_fetch C fill_bytes cap valid_until =
     (let n = nonce_random fill_bytes;
          signing_bytes = canonical ACTION_FETCH
            [queue_id_bytes (rc_queue_id cap), nonce_bytes n, u64_to_be_bytes valid_until]
      in \<lparr>ftc_queue_id = rc_queue_id cap, ftc_nonce = n, ftc_valid_until = valid_until,
          ftc_signature = sign C (rc_signing_key cap) signing_bytes\<rparr>)"

definition verify_envelope ::
    "('kp, 'pk, 'sig) crypto \<Rightarrow> ('kp, 'pk) receive_capability \<Rightarrow> 'sig stored_envelope \<Rightarrow> u64 \<Rightarrow>
     verified_envelope result" where
  "verify_envelope C cap env now =
     (if se_queue_id env \<noteq> rc_queue_id cap \<or> se_expires_at env \<le> now then Inl Unauthorized
      else and_then
        (ensure (verify C (rc_send_verification_key cap)
            (send_signing_bytes C (se_queue_id env) (se_message_id env) (se_packet env)
               (se_expires_at env))
            (se_sender_signature env)) Unauthorized)
        (\<lambda>_. Inr \<lparr>ve_queue_id = se_queue_id env, ve_message_id = se_message_id env,
                  ve_packet = se_packet env, ve_expires_at = se_expires_at env\<rparr>))"

definition authorize_ack ::
    "('kp, 'pk, 'sig) crypto \<Rightarrow> ('kp, 'pk) receive_capability \<Rightarrow> opened_message \<Rightarrow> u64 \<Rightarrow>
     'sig ack_request" where
  "authorize_ack C cap opened valid_until =
     (let envelope = om_envelope opened;
          packet_hash = packet_digest C (ve_packet envelope);
          signing_bytes = canonical ACTION_ACK
            [queue_id_bytes (rc_queue_id cap), message_id_bytes (ve_message_id envelope),
             packet_hash, u64_to_be_bytes valid_until]
      in \<lparr>ack_queue_id = rc_queue_id cap, ack_message_id = ve_message_id envelope,
          ack_packet_hash = packet_hash, ack_valid_until = valid_until,
          ack_signature = sign C (rc_signing_key cap) signing_bytes\<rparr>)"

definition authorize_delete ::
    "('kp, 'pk, 'sig) crypto \<Rightarrow> (nat \<Rightarrow> bytes) \<Rightarrow> 'kp manage_capability \<Rightarrow> u64 \<Rightarrow>
     'sig delete_mailbox_request" where
  "authorize_delete C fill_bytes cap valid_until =
     (let n = nonce_random fill_bytes;
          signing_bytes = canonical ACTION_DELETE
            [queue_id_bytes (mc_queue_id cap), nonce_bytes n, u64_to_be_bytes valid_until]
      in \<lparr>del_queue_id = mc_queue_id cap, del_nonce = n, del_valid_until = valid_until,
          del_signature = sign C (mc_signing_key cap) signing_bytes\<rparr>)"

section \<open>Commands and what they sign\<close>

text \<open>The five signed commands as one type, the bytes each one signs, and the signed content:
  every field the signature covers, a packet being covered through its digest.\<close>

datatype ('pk, 'sig) command =
    CRegister "('pk, 'sig) mailbox_registration"
  | CSend "'sig send_request"
  | CFetch "'sig fetch_request"
  | CAck "'sig ack_request"
  | CDelete "'sig delete_mailbox_request"

datatype 'pk signed_content =
    SignedRegister queue_id 'pk 'pk 'pk nonce u64
  | SignedSend queue_id message_id bytes u64
  | SignedFetch queue_id nonce u64
  | SignedAck queue_id message_id bytes u64
  | SignedDelete queue_id nonce u64

fun command_signing_bytes :: "('kp, 'pk, 'sig) crypto \<Rightarrow> ('pk, 'sig) command \<Rightarrow> bytes" where
  "command_signing_bytes C (CRegister r) = registration_signing_bytes C r"
| "command_signing_bytes C (CSend r) = send_request_signing_bytes C r"
| "command_signing_bytes C (CFetch r) = fetch_signing_bytes r"
| "command_signing_bytes C (CAck r) = ack_signing_bytes r"
| "command_signing_bytes C (CDelete r) = delete_signing_bytes r"

fun signed_content_of :: "('kp, 'pk, 'sig) crypto \<Rightarrow> ('pk, 'sig) command \<Rightarrow> 'pk signed_content" where
  "signed_content_of C (CRegister r) =
     SignedRegister (reg_queue_id r) (reg_send_key r) (reg_receive_key r) (reg_manage_key r)
       (reg_nonce r) (reg_valid_until r)"
| "signed_content_of C (CSend r) =
     SignedSend (snd_queue_id r) (snd_message_id r) (packet_digest C (snd_packet r))
       (snd_expires_at r)"
| "signed_content_of C (CFetch r) =
     SignedFetch (ftc_queue_id r) (ftc_nonce r) (ftc_valid_until r)"
| "signed_content_of C (CAck r) =
     SignedAck (ack_queue_id r) (ack_message_id r) (ack_packet_hash r) (ack_valid_until r)"
| "signed_content_of C (CDelete r) =
     SignedDelete (del_queue_id r) (del_nonce r) (del_valid_until r)"

text \<open>The array lengths that the Rust types of the fields carry.\<close>

fun command_ok :: "('pk, 'sig) command \<Rightarrow> bool" where
  "command_ok (CRegister r) \<longleftrightarrow> queue_id_ok (reg_queue_id r) \<and> nonce_ok (reg_nonce r)"
| "command_ok (CSend r) \<longleftrightarrow> queue_id_ok (snd_queue_id r) \<and> message_id_ok (snd_message_id r)"
| "command_ok (CFetch r) \<longleftrightarrow> queue_id_ok (ftc_queue_id r) \<and> nonce_ok (ftc_nonce r)"
| "command_ok (CAck r) \<longleftrightarrow>
     queue_id_ok (ack_queue_id r) \<and> message_id_ok (ack_message_id r) \<and>
     length (ack_packet_hash r) = 32"
| "command_ok (CDelete r) \<longleftrightarrow> queue_id_ok (del_queue_id r) \<and> nonce_ok (del_nonce r)"

text \<open>The envelope that a stored send request becomes.\<close>

definition envelope_of_request :: "'sig send_request \<Rightarrow> 'sig stored_envelope" where
  "envelope_of_request r =
     \<lparr>se_queue_id = snd_queue_id r, se_message_id = snd_message_id r, se_packet = snd_packet r,
      se_expires_at = snd_expires_at r, se_sender_signature = snd_signature r\<rparr>"

text \<open>A concrete, computable instance of the cryptography for closed examples: keys and
  signatures are single bytes in fixed-size paddings and a signature is a keyed checksum.\<close>

definition checksum :: "bytes \<Rightarrow> byte" where
  "checksum bs = foldl (\<lambda>acc b. 3 * acc + b + 1) 0 bs"

definition example_crypto :: "(byte, byte, byte) crypto" where
  "example_crypto =
     \<lparr>sha256 = (\<lambda>bs. replicate 31 0 @ [checksum bs]),
      public_key = (\<lambda>k. k),
      sign = (\<lambda>k m. k + checksum m),
      pk_bytes = (\<lambda>p. replicate 31 0 @ [p]),
      pk_from_slice = (\<lambda>bs. if length bs = 32 then Some (last bs) else None),
      verify = (\<lambda>p m s. s = p + checksum m),
      sig_bytes = (\<lambda>s. replicate 63 0 @ [s]),
      sig_from_slice = (\<lambda>bs. if length bs = 64 then Some (last bs) else None)\<rparr>"

section \<open>Lemmas\<close>

lemma crypto_laws_example: "crypto_laws example_crypto"
  by (simp add: crypto_laws_def example_crypto_def)

lemma crypto_laws_digest_length: "crypto_laws C \<Longrightarrow> length (digest C bs) = 32"
  by (simp add: crypto_laws_def digest_def)

lemma crypto_laws_packet_digest_length: "crypto_laws C \<Longrightarrow> length (packet_digest C p) = 32"
  by (simp add: packet_digest_def crypto_laws_digest_length)

lemma crypto_laws_verify: "crypto_laws C \<Longrightarrow> verify C (public_key C k) m (sign C k m)"
  by (simp add: crypto_laws_def)

lemma crypto_laws_pk:
  "crypto_laws C \<Longrightarrow> length (pk_bytes C p) = 32 \<and> pk_from_slice C (pk_bytes C p) = Some p"
  by (simp add: crypto_laws_def)

lemma crypto_laws_sig:
  "crypto_laws C \<Longrightarrow> length (sig_bytes C s) = 64 \<and> sig_from_slice C (sig_bytes C s) = Some s"
  by (simp add: crypto_laws_def)

lemma crypto_laws_pk_inject: "crypto_laws C \<Longrightarrow> pk_bytes C p = pk_bytes C q \<longleftrightarrow> p = q"
  by (metis crypto_laws_pk option.inject)

lemma append_part_frame: "append_part target part = target @ u64_frame.frame part"
  by (simp add: append_part_def u64_frame.frame_def)

lemma foldl_append_part: "foldl append_part target parts = target @ u64_frame.frames parts"
  by (induction parts arbitrary: target) (simp_all add: append_part_frame u64_frame.frames_Cons)

lemma canonical_frames:
  "canonical action parts = u64_frame.frames (PROTOCOL_DOMAIN # action # parts)"
  by (simp add: canonical_def foldl_append_part append_part_frame u64_frame.frames_Cons)

lemmas action_defs =
  ACTION_REGISTER_def ACTION_SEND_def ACTION_FETCH_def ACTION_ACK_def ACTION_DELETE_def

lemma action_lengths [simp]:
  "length ACTION_REGISTER = 8" "length ACTION_SEND = 4" "length ACTION_FETCH = 5"
  "length ACTION_ACK = 3" "length ACTION_DELETE = 14" "length PROTOCOL_DOMAIN = 30"
  by (simp_all add: action_defs PROTOCOL_DOMAIN_def)

lemma canonical_eq_iff:
  assumes "\<forall>p\<in>set (a # ps). length p < 2 ^ 64" and "\<forall>q\<in>set (b # qs). length q < 2 ^ 64"
  shows "canonical a ps = canonical b qs \<longleftrightarrow> a = b \<and> ps = qs"
proof
  assume "canonical a ps = canonical b qs"
  then have "u64_frame.frames (PROTOCOL_DOMAIN # a # ps) =
      u64_frame.frames (PROTOCOL_DOMAIN # b # qs)"
    by (simp only: canonical_frames)
  then have "PROTOCOL_DOMAIN # a # ps = PROTOCOL_DOMAIN # b # qs"
    by (rule u64_frame.frames_inject [rotated 2]) (use assms in simp_all)
  then show "a = b \<and> ps = qs" by simp
qed simp

lemma action_neq [simp]:
  "ACTION_REGISTER \<noteq> ACTION_SEND" "ACTION_REGISTER \<noteq> ACTION_FETCH"
  "ACTION_REGISTER \<noteq> ACTION_ACK" "ACTION_REGISTER \<noteq> ACTION_DELETE"
  "ACTION_SEND \<noteq> ACTION_REGISTER" "ACTION_SEND \<noteq> ACTION_FETCH"
  "ACTION_SEND \<noteq> ACTION_ACK" "ACTION_SEND \<noteq> ACTION_DELETE"
  "ACTION_FETCH \<noteq> ACTION_REGISTER" "ACTION_FETCH \<noteq> ACTION_SEND"
  "ACTION_FETCH \<noteq> ACTION_ACK" "ACTION_FETCH \<noteq> ACTION_DELETE"
  "ACTION_ACK \<noteq> ACTION_REGISTER" "ACTION_ACK \<noteq> ACTION_SEND"
  "ACTION_ACK \<noteq> ACTION_FETCH" "ACTION_ACK \<noteq> ACTION_DELETE"
  "ACTION_DELETE \<noteq> ACTION_REGISTER" "ACTION_DELETE \<noteq> ACTION_SEND"
  "ACTION_DELETE \<noteq> ACTION_FETCH" "ACTION_DELETE \<noteq> ACTION_ACK"
  by (auto dest: arg_cong [where f = length])

lemmas signing_bytes_defs =
  registration_signing_bytes_def send_request_signing_bytes_def send_signing_bytes_def
  fetch_signing_bytes_def ack_signing_bytes_def delete_signing_bytes_def

lemmas id_ok_defs = queue_id_ok_def message_id_ok_def nonce_ok_def

text \<open>What a capability signs is what the matching request type says it signed.\<close>

lemma registration_signs:
  "reg_signature (registration C f o' t) =
     sign C (mo_manage o') (registration_signing_bytes C (registration C f o' t))"
  by (simp add: registration_def registration_signing_bytes_def Let_def)

lemma authorize_signs:
  "snd_signature (authorize C cap m p e) =
     sign C (sc_signing_key cap) (send_request_signing_bytes C (authorize C cap m p e))"
  by (simp add: authorize_def send_request_signing_bytes_def send_signing_bytes_def Let_def)

lemma authorize_fetch_signs:
  "ftc_signature (authorize_fetch C f cap t) =
     sign C (rc_signing_key cap) (fetch_signing_bytes (authorize_fetch C f cap t))"
  by (simp add: authorize_fetch_def fetch_signing_bytes_def Let_def)

lemma authorize_ack_signs:
  "ack_signature (authorize_ack C cap om t) =
     sign C (rc_signing_key cap) (ack_signing_bytes (authorize_ack C cap om t))"
  by (simp add: authorize_ack_def ack_signing_bytes_def Let_def)

lemma authorize_delete_signs:
  "del_signature (authorize_delete C f cap t) =
     sign C (mc_signing_key cap) (delete_signing_bytes (authorize_delete C f cap t))"
  by (simp add: authorize_delete_def delete_signing_bytes_def Let_def)

lemma signing_bytes_eq_iff:
  assumes "crypto_laws C" and "command_ok c" and "command_ok d"
  shows "command_signing_bytes C c = command_signing_bytes C d \<longleftrightarrow>
    signed_content_of C c = signed_content_of C d"
  using assms
  by (cases c; cases d)
    (simp_all add: signing_bytes_defs id_ok_defs canonical_eq_iff crypto_laws_pk
      crypto_laws_pk_inject crypto_laws_packet_digest_length)

lemma send_signing_bytes_eq_iff:
  assumes "crypto_laws C" and "queue_id_ok q" and "message_id_ok m"
    and "queue_id_ok q'" and "message_id_ok m'"
  shows "send_signing_bytes C q m p e = send_signing_bytes C q' m' p' e' \<longleftrightarrow>
    q = q' \<and> m = m' \<and> packet_digest C p = packet_digest C p' \<and> e = e'"
  using assms
  by (simp add: send_signing_bytes_def id_ok_defs canonical_eq_iff
      crypto_laws_packet_digest_length)

section \<open>Properties\<close>

text \<open>C6. A signed byte string determines the whole command: two well-formed commands have the
  same signing bytes exactly when they are commands of the same kind that agree on every
  field under the signature (queue, keys, nonce or message identifier, packet digest, time
  bound). So a signature made for one kind of command, mailbox, message or deadline is never
  a signature over the bytes of another.\<close>

theorem signing_bytes_determine_command:
  assumes "crypto_laws C" and "command_ok c" and "command_ok d"
  shows "command_signing_bytes C c = command_signing_bytes C d \<longleftrightarrow>
    signed_content_of C c = signed_content_of C d"
  using assms by (rule signing_bytes_eq_iff)

theorem signing_bytes_determine_command_witness:
  "command_signing_bytes example_crypto
      (CFetch (authorize_fetch example_crypto (\<lambda>n. replicate n 7)
        \<lparr>rc_queue_id = QueueId (replicate 32 1), rc_signing_key = 5,
         rc_send_verification_key = 6\<rparr> 60)) \<noteq>
   command_signing_bytes example_crypto
      (CDelete (authorize_delete example_crypto (\<lambda>n. replicate n 7)
        \<lparr>mc_queue_id = QueueId (replicate 32 1), mc_signing_key = 5\<rparr> 60))"
  by (subst signing_bytes_determine_command [OF crypto_laws_example])
    (simp_all add: authorize_fetch_def authorize_delete_def nonce_random_def id_ok_defs Let_def)

text \<open>The receiving side accepts what the sending side authorised: an envelope that holds a
  request signed with the send capability of a mailbox passes \<^verbatim>\<open>verify_envelope\<close> of the same
  mailbox's receive capability at every time before its expiry, unchanged, and at or after
  its expiry it is refused with \<open>Unauthorized\<close>.\<close>

lemma verify_envelope_of_authorized:
  assumes "crypto_laws C"
  shows "verify_envelope C (receiver_capability C owner)
      (envelope_of_request (authorize C (sender_capability owner) m p e)) now =
    (if now < e
     then Inr \<lparr>ve_queue_id = mo_queue_id owner, ve_message_id = m, ve_packet = p,
               ve_expires_at = e\<rparr>
     else Inl Unauthorized)"
  using assms
  by (simp add: verify_envelope_def envelope_of_request_def authorize_def sender_capability_def
      receiver_capability_def send_signing_bytes_def crypto_laws_verify Let_def not_less)

theorem verify_envelope_of_authorized_witness:
  "verify_envelope example_crypto
     (receiver_capability example_crypto (mailbox_owner_new (\<lambda>n. replicate n 1) 5 6 7))
     (envelope_of_request (authorize example_crypto
        (sender_capability (mailbox_owner_new (\<lambda>n. replicate n 1) 5 6 7))
        (MessageId (replicate 16 2)) (EncryptedPacket [3, 4]) 100)) 99 =
   Inr \<lparr>ve_queue_id = QueueId (replicate 32 1), ve_message_id = MessageId (replicate 16 2),
        ve_packet = EncryptedPacket [3, 4], ve_expires_at = 100\<rparr>"
  using verify_envelope_of_authorized [OF crypto_laws_example,
      of "mailbox_owner_new (\<lambda>n. replicate n 1) 5 6 7" "MessageId (replicate 16 2)"
         "EncryptedPacket [3, 4]" 100 99]
  by (simp add: mailbox_owner_new_def queue_id_random_def)

text \<open>C24. A relay cannot change an envelope: if the signature it presents is not a forgery (when it
  verifies under the mailbox's send key, the verified bytes are those of a request issued
  with the send capability), then an envelope that \<^verbatim>\<open>verify_envelope\<close> accepts carries the
  queue, message identifier, packet digest and expiry of one issued request, and that
  request has not expired.\<close>

theorem verify_envelope_authentic:
  assumes laws: "crypto_laws C"
    and not_forged: "verify C (rc_send_verification_key cap)
        (send_signing_bytes C (se_queue_id env) (se_message_id env) (se_packet env)
          (se_expires_at env)) (se_sender_signature env) \<Longrightarrow>
      \<exists>r\<in>issued. send_signing_bytes C (se_queue_id env) (se_message_id env) (se_packet env)
        (se_expires_at env) = send_request_signing_bytes C r"
    and issued_ok:
      "\<And>r. r \<in> issued \<Longrightarrow> queue_id_ok (snd_queue_id r) \<and> message_id_ok (snd_message_id r)"
    and ids: "queue_id_ok (se_queue_id env)" "message_id_ok (se_message_id env)"
    and accepted: "verify_envelope C cap env now = Inr v"
  shows "\<exists>r\<in>issued. snd_queue_id r = rc_queue_id cap \<and> ve_queue_id v = snd_queue_id r \<and>
    ve_message_id v = snd_message_id r \<and> ve_expires_at v = snd_expires_at r \<and>
    packet_digest C (ve_packet v) = packet_digest C (snd_packet r) \<and> now < snd_expires_at r"
proof -
  from accepted have v: "se_queue_id env = rc_queue_id cap" "now < se_expires_at env"
      "v = \<lparr>ve_queue_id = se_queue_id env, ve_message_id = se_message_id env,
            ve_packet = se_packet env, ve_expires_at = se_expires_at env\<rparr>"
    and "verify C (rc_send_verification_key cap)
      (send_signing_bytes C (se_queue_id env) (se_message_id env) (se_packet env)
        (se_expires_at env)) (se_sender_signature env)"
    by (auto simp: verify_envelope_def and_then_eq_Inr_iff not_le split: if_splits)
  then obtain r where r: "r \<in> issued"
    and "send_signing_bytes C (se_queue_id env) (se_message_id env) (se_packet env)
      (se_expires_at env) = send_request_signing_bytes C r"
    using not_forged by blast
  then have "se_queue_id env = snd_queue_id r \<and> se_message_id env = snd_message_id r \<and>
      packet_digest C (se_packet env) = packet_digest C (snd_packet r) \<and>
      se_expires_at env = snd_expires_at r"
    using send_signing_bytes_eq_iff [OF laws ids] issued_ok [OF r]
    by (simp add: send_request_signing_bytes_def)
  with r v show ?thesis by auto
qed

theorem verify_envelope_authentic_witness:
  "\<exists>r\<in>{authorize example_crypto \<lparr>sc_queue_id = QueueId (replicate 32 1), sc_signing_key = 5\<rparr>
         (MessageId (replicate 16 2)) (EncryptedPacket [3, 4]) 100}.
     snd_queue_id r = QueueId (replicate 32 1) \<and> QueueId (replicate 32 1) = snd_queue_id r \<and>
     MessageId (replicate 16 2) = snd_message_id r \<and> 100 = snd_expires_at r \<and>
     packet_digest example_crypto (EncryptedPacket [3, 4]) =
       packet_digest example_crypto (snd_packet r) \<and> 99 < snd_expires_at r"
  using verify_envelope_authentic [OF crypto_laws_example,
      of "\<lparr>rc_queue_id = QueueId (replicate 32 1), rc_signing_key = 6,
           rc_send_verification_key = 5\<rparr>"
         "envelope_of_request (authorize example_crypto
            \<lparr>sc_queue_id = QueueId (replicate 32 1), sc_signing_key = 5\<rparr>
            (MessageId (replicate 16 2)) (EncryptedPacket [3, 4]) 100)"
         "{authorize example_crypto
            \<lparr>sc_queue_id = QueueId (replicate 32 1), sc_signing_key = 5\<rparr>
            (MessageId (replicate 16 2)) (EncryptedPacket [3, 4]) 100}"
         99
         "\<lparr>ve_queue_id = QueueId (replicate 32 1), ve_message_id = MessageId (replicate 16 2),
           ve_packet = EncryptedPacket [3, 4], ve_expires_at = 100\<rparr>"]
  by (simp add: envelope_of_request_def authorize_def verify_envelope_def id_ok_defs Let_def
      send_request_signing_bytes_def send_signing_bytes_def example_crypto_def)

end
