(* ===== verification/Sql_Transaction.thy ===== *)
theory Sql_Transaction
  imports Lab_Prelude
begin

text \<open>
  Programs over a database connection. Both stores of the crate run their statements inside
  a \<^verbatim>\<open>rusqlite\<close> transaction that is rolled back when it is dropped without a commit. A
  connection holds the committed image, the image the open transaction works on, and the
  outcomes of the calls still to be made: any call into the database may fail, and then the
  program sees \<open>Storage\<close> (\<^verbatim>\<open>impl From<rusqlite::Error> for LabError\<close>). A call that fails may
  have had no effect, or it may have taken effect and only its answer was lost; for a commit
  this is the uncertain write that the code's comments speak of. A statement's own
  effect is a function on the image. Immediate transactions exclude other writers, so a
  program that begins one, works and commits is one step of the database.

  The locale \<open>transactional\<close> is the contract every store operation meets: an error leaves
  the committed image as it was, unless the answer of the commit was lost, and then the image
  is the one the operation commits without failures; and a call that fails shows as
  \<open>Storage\<close> and nothing else.
\<close>

section \<open>Connections and programs\<close>

datatype call_outcome = Call_ok | Call_fails | Call_unknown

record 'db conn =
  durable :: 'db
  working :: 'db
  calls :: "call_outcome list"

type_synonym ('s, 'a) prog = "'s \<Rightarrow> 'a result \<times> 's"

definition ret :: "'a \<Rightarrow> ('s, 'a) prog" where
  "ret x = (\<lambda>s. (Inr x, s))"

definition throw :: "lab_error \<Rightarrow> ('s, 'a) prog" where
  "throw e = (\<lambda>s. (Inl e, s))"

text \<open>\<open>attempt m f\<close> is \<^verbatim>\<open>let x = m?; f(x)\<close> for a program \<open>m\<close>.\<close>

definition attempt :: "('s, 'a) prog \<Rightarrow> ('a \<Rightarrow> ('s, 'b) prog) \<Rightarrow> ('s, 'b) prog" where
  "attempt m f = (\<lambda>s. case m s of (Inl e, s') \<Rightarrow> (Inl e, s') | (Inr x, s') \<Rightarrow> f x s')"

definition pure_result :: "'a result \<Rightarrow> ('s, 'a) prog" where
  "pure_result r = (\<lambda>s. (r, s))"

definition modify_state :: "('s \<Rightarrow> 's) \<Rightarrow> ('s, unit) prog" where
  "modify_state f = (\<lambda>s. (Inr (), f s))"

text \<open>One call into the database; an empty list of outcomes means that every further call
  succeeds.\<close>

definition db_call ::
    "(('db, 'z) conn_scheme \<Rightarrow> 'a result \<times> ('db, 'z) conn_scheme) \<Rightarrow>
     (('db, 'z) conn_scheme, 'a) prog" where
  "db_call f = (\<lambda>s. case calls s of
       [] \<Rightarrow> f s
     | Call_ok # cs \<Rightarrow> f (s\<lparr>calls := cs\<rparr>)
     | Call_fails # cs \<Rightarrow> (Inl Storage, s\<lparr>calls := cs\<rparr>)
     | Call_unknown # cs \<Rightarrow> (Inl Storage, snd (f (s\<lparr>calls := cs\<rparr>))))"

text \<open>Beginning an immediate transaction, a statement inside it, a query inside it, a query
  in autocommit mode, and the commit. A statement whose effect is \<open>Inl e\<close> (a violated
  constraint) fails without changing the image.\<close>

definition begin_immediate :: "(('db, 'z) conn_scheme, unit) prog" where
  "begin_immediate = db_call (\<lambda>s. (Inr (), s\<lparr>working := durable s\<rparr>))"

definition execute :: "('db \<Rightarrow> ('a \<times> 'db) result) \<Rightarrow> (('db, 'z) conn_scheme, 'a) prog" where
  "execute f = db_call (\<lambda>s. case f (working s) of
       Inl e \<Rightarrow> (Inl e, s)
     | Inr (x, db) \<Rightarrow> (Inr x, s\<lparr>working := db\<rparr>))"

definition query :: "('db \<Rightarrow> 'a) \<Rightarrow> (('db, 'z) conn_scheme, 'a) prog" where
  "query f = db_call (\<lambda>s. (Inr (f (working s)), s))"

definition query_committed :: "('db \<Rightarrow> 'a) \<Rightarrow> (('db, 'z) conn_scheme, 'a) prog" where
  "query_committed f = db_call (\<lambda>s. (Inr (f (durable s)), s))"

definition commit :: "(('db, 'z) conn_scheme, unit) prog" where
  "commit = db_call (\<lambda>s. (Inr (), s\<lparr>durable := working s\<rparr>))"

text \<open>A deferred transaction reads the image committed when it begins. A batch of \<^verbatim>\<open>PRAGMA\<close>
  settings and the opening of the file are calls that may fail and leave the image as it
  is. \<open>autocommit m\<close> runs the queries of \<open>m\<close> outside a transaction, on the committed image.\<close>

definition begin_deferred :: "(('db, 'z) conn_scheme, unit) prog" where
  "begin_deferred = db_call (\<lambda>s. (Inr (), s\<lparr>working := durable s\<rparr>))"

definition run_settings :: "(('db, 'z) conn_scheme, unit) prog" where
  "run_settings = db_call (\<lambda>s. (Inr (), s))"

definition autocommit :: "(('db, 'z) conn_scheme, 'a) prog \<Rightarrow> (('db, 'z) conn_scheme, 'a) prog" where
  "autocommit m = (\<lambda>s. m (s\<lparr>working := durable s\<rparr>))"

section \<open>The contract\<close>

text \<open>\<open>certain\<close>: no answer of a later call is lost. \<open>quiet\<close>: the committed image and the owner's
  own fields never change, and outcomes are only consumed. \<open>atomic\<close>: they do not change when the program fails and no answer
  is lost. \<open>infallible\<close>: the program cannot fail and leaves the committed image alone.
  \<open>tolerant\<close>: a run with failing calls either reports \<open>Storage\<close> or is the run without them.
  \<open>settled\<close>: a run that fails leaves the owner's fields alone, and the committed image is the old
  one or that of the successful run without failing calls.\<close>

definition certain :: "('db, 'z) conn_scheme \<Rightarrow> bool" where
  "certain s \<longleftrightarrow> Call_unknown \<notin> set (calls s)"

definition same_store :: "('db, 'z) conn_scheme \<Rightarrow> ('db, 'z) conn_scheme \<Rightarrow> bool" where
  "same_store s t \<longleftrightarrow> durable t = durable s \<and> conn.more t = conn.more s"

definition quiet :: "(('db, 'z) conn_scheme, 'a) prog \<Rightarrow> bool" where
  "quiet m \<longleftrightarrow> (\<forall>s. same_store s (snd (m s)) \<and> set (calls (snd (m s))) \<subseteq> set (calls s))"

definition atomic :: "(('db, 'z) conn_scheme, 'a) prog \<Rightarrow> bool" where
  "atomic m \<longleftrightarrow> (\<forall>s e. certain s \<longrightarrow> fst (m s) = Inl e \<longrightarrow> same_store s (snd (m s)))"

definition infallible :: "(('db, 'z) conn_scheme, 'a) prog \<Rightarrow> bool" where
  "infallible m \<longleftrightarrow> (\<forall>s. (\<exists>x. fst (m s) = Inr x) \<and> durable (snd (m s)) = durable s)"

definition tolerant :: "(('db, 'z) conn_scheme, 'a) prog \<Rightarrow> bool" where
  "tolerant m \<longleftrightarrow> (\<forall>s. fst (m s) = Inl Storage \<or>
     m (s\<lparr>calls := []\<rparr>) = (fst (m s), (snd (m s))\<lparr>calls := []\<rparr>))"

definition settled :: "(('db, 'z) conn_scheme, 'a) prog \<Rightarrow> bool" where
  "settled m \<longleftrightarrow> (\<forall>s e s'. m s = (Inl e, s') \<longrightarrow> conn.more s' = conn.more s \<and>
     (durable s' = durable s \<or>
      (\<exists>x s1. m (s\<lparr>calls := []\<rparr>) = (Inr x, s1) \<and> durable s1 = durable s')))"

text \<open>The committed image that a process leaves which dies in its call number \<open>k + 1\<close>, when \<open>k\<close> calls
  have been answered: \<open>took_effect\<close> says whether the call in progress was carried out by then. What the
  process would have done later, it does not do. A process that is killed between two calls is the
  case without effect, \<open>dies_after\<close>.\<close>

definition dies_during ::
    "nat \<Rightarrow> bool \<Rightarrow> (('db, 'z) conn_scheme, 'a) prog \<Rightarrow> ('db, 'z) conn_scheme \<Rightarrow> 'db" where
  "dies_during k took_effect m s =
     durable (snd (m (s\<lparr>calls := replicate k Call_ok @ [if took_effect then Call_unknown else Call_fails]\<rparr>)))"

definition dies_after :: "nat \<Rightarrow> (('db, 'z) conn_scheme, 'a) prog \<Rightarrow> ('db, 'z) conn_scheme \<Rightarrow> 'db" where
  "dies_after k = dies_during k False"

text \<open>What holds of every operation that only reports faults, and of one that is a transaction
  besides.\<close>

locale fault_tolerant =
  fixes operation :: "('db, 'z) conn_scheme \<Rightarrow> 'a result \<times> ('db, 'z) conn_scheme"
  assumes operation_tolerant: "tolerant operation"
begin

lemma result_without_faults:
  assumes "operation s = (r, s')" and "r \<noteq> Inl Storage"
  shows "operation (s\<lparr>calls := []\<rparr>) = (r, s'\<lparr>calls := []\<rparr>)"
  using operation_tolerant assms unfolding tolerant_def by (metis fst_conv snd_conv)

lemma success_without_faults:
  "operation s = (Inr x, s') \<Longrightarrow> operation (s\<lparr>calls := []\<rparr>) = (Inr x, s'\<lparr>calls := []\<rparr>)"
  by (rule result_without_faults) simp_all

lemma calls_stay_empty:
  assumes "operation s = (Inr x, s')" and "calls s = []"
  shows "calls s' = []"
proof -
  have "s\<lparr>calls := []\<rparr> = s"
    using assms(2) by (cases s) simp
  then have "s' = s'\<lparr>calls := []\<rparr>"
    using success_without_faults [OF assms(1)] assms(1) by simp
  then show ?thesis
    by (metis conn.select_convs(3) conn.surjective conn.update_convs(3))
qed

end

locale transactional = fault_tolerant operation
  for operation :: "('db, 'z) conn_scheme \<Rightarrow> 'a result \<times> ('db, 'z) conn_scheme" +
  assumes operation_atomic: "atomic operation"
    and operation_settled: "settled operation"
begin

lemma error_old_or_done:
  assumes "operation s = (Inl e, s')"
  shows "conn.more s' = conn.more s \<and> (durable s' = durable s \<or>
    (\<exists>x s1. operation (s\<lparr>calls := []\<rparr>) = (Inr x, s1) \<and> durable s1 = durable s'))"
  using operation_settled assms unfolding settled_def by blast

text \<open>An error other than \<open>Storage\<close>, or any error when no answer was lost, means that nothing
  changed.\<close>

lemma error_keeps_store:
  assumes "operation s = (Inl e, s')" and "e \<noteq> Storage \<or> certain s"
  shows "durable s' = durable s \<and> conn.more s' = conn.more s"
proof (cases "certain s")
  case True
  then show ?thesis
    using operation_atomic assms(1) unfolding atomic_def same_store_def by (metis fst_conv snd_conv)
next
  case False
  then have "operation (s\<lparr>calls := []\<rparr>) = (Inl e, s'\<lparr>calls := []\<rparr>)"
    using assms result_without_faults by blast
  then show ?thesis
    using error_old_or_done [OF assms(1)] by simp
qed

text \<open>A process that dies anywhere leaves the old image or the complete one.\<close>

lemma death_old_or_done:
  "dies_during k took_effect operation s = durable s \<or>
   (\<exists>x s1. operation (s\<lparr>calls := []\<rparr>) = (Inr x, s1) \<and> dies_during k took_effect operation s = durable s1)"
proof -
  let ?t = "s\<lparr>calls := replicate k Call_ok @ [if took_effect then Call_unknown else Call_fails]\<rparr>"
  obtain r s' where run: "operation ?t = (r, s')" by fastforce
  show ?thesis
  proof (cases r)
    case (Inl e)
    then show ?thesis
      using error_old_or_done [of ?t e s'] run by (auto simp: dies_during_def)
  next
    case (Inr x)
    then show ?thesis
      using success_without_faults [of ?t x s'] run by (auto simp: dies_during_def)
  qed
qed

lemma old_or_faultless:
  "conn.more (snd (operation s)) = conn.more s \<and> durable (snd (operation s)) = durable s \<or>
   durable (snd (operation s)) = durable (snd (operation (s\<lparr>calls := []\<rparr>))) \<and>
   (fst (operation s) = Inl Storage \<and> conn.more (snd (operation s)) = conn.more s \<or>
    fst (operation s) = fst (operation (s\<lparr>calls := []\<rparr>)) \<and>
    conn.more (snd (operation s)) = conn.more (snd (operation (s\<lparr>calls := []\<rparr>))))"
proof (cases "operation s" rule: prod.exhaust)
  case (Pair r s')
  show ?thesis
  proof (cases "r = Inl Storage")
    case True
    then show ?thesis
      using error_old_or_done [of s Storage s'] Pair by auto
  next
    case False
    then show ?thesis
      using result_without_faults [OF Pair False] Pair by simp
  qed
qed

end

section \<open>Evaluation and closure rules\<close>

lemma attempt_ret [sql_simps]: "attempt (ret x) f s = f x s"
  by (simp add: attempt_def ret_def)

lemma attempt_throw [sql_simps]: "attempt (throw e) f s = (Inl e, s)"
  by (simp add: attempt_def throw_def)

lemma attempt_pure [sql_simps]:
  "attempt (pure_result r) f s = (case r of Inl e \<Rightarrow> (Inl e, s) | Inr x \<Rightarrow> f x s)"
  by (simp add: attempt_def pure_result_def)

lemma attempt_modify [sql_simps]: "attempt (modify_state g) f s = f () (g s)"
  by (simp add: attempt_def modify_state_def)

lemma attempt_begin [sql_simps]:
  "calls s = [] \<Longrightarrow> attempt begin_immediate f s = f () (s\<lparr>working := durable s\<rparr>)"
  by (simp add: attempt_def begin_immediate_def db_call_def)

lemma attempt_execute [sql_simps]:
  "calls s = [] \<Longrightarrow> attempt (execute g) f s =
     (case g (working s) of Inl e \<Rightarrow> (Inl e, s) | Inr (x, db) \<Rightarrow> f x (s\<lparr>working := db\<rparr>))"
  by (simp add: attempt_def execute_def db_call_def split: sum.split prod.split)

lemma attempt_query [sql_simps]:
  "calls s = [] \<Longrightarrow> attempt (query g) f s = f (g (working s)) s"
  by (simp add: attempt_def query_def db_call_def)

lemma attempt_query_committed [sql_simps]:
  "calls s = [] \<Longrightarrow> attempt (query_committed g) f s = f (g (durable s)) s"
  by (simp add: attempt_def query_committed_def db_call_def)

lemma attempt_commit [sql_simps]:
  "calls s = [] \<Longrightarrow> attempt commit f s = f () (s\<lparr>durable := working s\<rparr>)"
  by (simp add: attempt_def commit_def db_call_def)

lemma attempt_begin_deferred [sql_simps]:
  "calls s = [] \<Longrightarrow> attempt begin_deferred f s = f () (s\<lparr>working := durable s\<rparr>)"
  by (simp add: attempt_def begin_deferred_def db_call_def)

lemma attempt_run_settings [sql_simps]: "calls s = [] \<Longrightarrow> attempt run_settings f s = f () s"
  by (simp add: attempt_def run_settings_def db_call_def)

lemma run_settings_apply [sql_simps]: "calls s = [] \<Longrightarrow> run_settings s = (Inr (), s)"
  by (simp add: run_settings_def db_call_def)

lemma ret_apply [sql_simps]: "ret x s = (Inr x, s)"
  by (simp add: ret_def)

lemma throw_apply [sql_simps]: "throw e s = (Inl e, s)"
  by (simp add: throw_def)

lemma attempt_assoc [sql_simps]:
  "attempt (attempt m f) g s = attempt m (\<lambda>x. attempt (f x) g) s"
  by (simp add: attempt_def split: prod.split sum.split)

lemma same_store_refl [simp]: "same_store s s"
  by (simp add: same_store_def)

lemma same_store_trans: "same_store s t \<Longrightarrow> same_store t u \<Longrightarrow> same_store s u"
  by (simp add: same_store_def)

lemma attempt_Inl: "fst (m s) = Inl e \<Longrightarrow> attempt m f s = (Inl e, snd (m s))"
  by (cases "m s") (simp add: attempt_def)

lemma attempt_Inr: "fst (m s) = Inr x \<Longrightarrow> attempt m f s = f x (snd (m s))"
  by (cases "m s") (simp add: attempt_def)

lemma quietD:
  assumes "quiet m"
  shows "same_store s (snd (m s))" and "set (calls (snd (m s))) \<subseteq> set (calls s)"
    and "certain s \<Longrightarrow> certain (snd (m s))"
  using assms by (auto simp: quiet_def certain_def)

lemma quiet_attempt [sql_intros]:
  assumes "quiet m" and "\<And>x. quiet (f x)"
  shows "quiet (attempt m f)"
  unfolding quiet_def
proof
  fix s
  show "same_store s (snd (attempt m f s)) \<and> set (calls (snd (attempt m f s))) \<subseteq> set (calls s)"
  proof (cases "fst (m s)")
    case (Inl e)
    then show ?thesis
      using quietD [OF assms(1)] by (simp add: attempt_Inl)
  next
    case (Inr x)
    then show ?thesis
      using quietD [OF assms(1), of s] quietD [OF assms(2) [of x], of "snd (m s)"]
      by (auto simp: attempt_Inr intro: same_store_trans)
  qed
qed

lemma quiet_basic [sql_intros]:
  "quiet (ret x)" "quiet (throw e)" "quiet (pure_result r)" "quiet begin_immediate"
  "quiet (execute g)" "quiet (query h)" "quiet (query_committed h)"
  by (auto simp: quiet_def ret_def throw_def pure_result_def begin_immediate_def execute_def
      query_def query_committed_def db_call_def same_store_def
      split: list.split call_outcome.split sum.split prod.split)

lemma quiet_settings [sql_intros]: "quiet begin_deferred" "quiet run_settings"
  by (auto simp: quiet_def begin_deferred_def run_settings_def db_call_def same_store_def
      split: list.split call_outcome.split)

lemma quiet_autocommit [sql_intros]:
  assumes "quiet m"
  shows "quiet (autocommit m)"
  unfolding quiet_def autocommit_def
proof
  fix s :: "('a, 'b) conn_scheme"
  show "same_store s (snd (m (s\<lparr>working := durable s\<rparr>))) \<and>
      set (calls (snd (m (s\<lparr>working := durable s\<rparr>)))) \<subseteq> set (calls s)"
    using quietD [OF assms, of "s\<lparr>working := durable s\<rparr>"] by (simp add: same_store_def)
qed

lemma quiet_if [sql_intros]: "quiet m \<Longrightarrow> quiet n \<Longrightarrow> quiet (if b then m else n)"
  by simp

lemma quiet_option [sql_intros]:
  "quiet m \<Longrightarrow> (\<And>x. quiet (f x)) \<Longrightarrow> quiet (case v of None \<Rightarrow> m | Some x \<Rightarrow> f x)"
  by (cases v) simp_all

lemma atomic_quiet: "quiet m \<Longrightarrow> atomic m"
  by (simp add: quiet_def atomic_def)

lemma atomic_attempt:
  assumes "quiet m" and "\<And>x. atomic (f x)"
  shows "atomic (attempt m f)"
  unfolding atomic_def
proof (intro allI impI)
  fix s e
  assume c: "certain s" and e: "fst (attempt m f s) = Inl e"
  note q = quietD(1) [OF assms(1), of s]
  show "same_store s (snd (attempt m f s))"
  proof (cases "fst (m s)")
    case (Inl a)
    then show ?thesis
      using q by (simp add: attempt_Inl)
  next
    case (Inr x)
    moreover from this have "same_store (snd (m s)) (snd (f x (snd (m s))))"
      using e assms(2) [of x] quietD(3) [OF assms(1) c] by (simp add: attempt_Inr atomic_def)
    ultimately show ?thesis
      using same_store_trans [OF q] by (simp add: attempt_Inr)
  qed
qed

lemma atomic_commit_then:
  assumes "\<And>x. infallible (f x)"
  shows "atomic (attempt commit f)"
proof -
  have "fst (f x s) \<noteq> Inl e" for x s e
    using assms [of x] unfolding infallible_def by (metis Inl_Inr_False)
  then show ?thesis
    by (auto simp: atomic_def attempt_def commit_def db_call_def same_store_def certain_def
        split: list.splits call_outcome.splits)
qed

lemma atomic_basic: "atomic (ret x)" "atomic (throw e)" "atomic (pure_result r)"
  by (simp_all add: atomic_quiet quiet_basic)

lemma atomic_if: "atomic m \<Longrightarrow> atomic n \<Longrightarrow> atomic (if b then m else n)"
  by simp

lemma atomic_option:
  "atomic m \<Longrightarrow> (\<And>x. atomic (f x)) \<Longrightarrow> atomic (case v of None \<Rightarrow> m | Some x \<Rightarrow> f x)"
  by (cases v) simp_all

lemma infallible_ret [sql_intros]: "infallible (ret x)"
  by (simp add: infallible_def ret_def)

lemma infallible_modify: "(\<And>s. durable (g s) = durable s) \<Longrightarrow> infallible (modify_state g)"
  by (simp add: infallible_def modify_state_def)

lemma infallible_attempt [sql_intros]:
  assumes "infallible m" and "\<And>x. infallible (f x)"
  shows "infallible (attempt m f)"
  unfolding infallible_def
proof
  fix s
  obtain x where x: "fst (m s) = Inr x" "durable (snd (m s)) = durable s"
    using assms(1) by (auto simp: infallible_def)
  then have "attempt m f s = f x (snd (m s))"
    by (intro attempt_Inr)
  then show "(\<exists>y. fst (attempt m f s) = Inr y) \<and> durable (snd (attempt m f s)) = durable s"
    using assms(2) [of x] x(2) by (simp add: infallible_def)
qed

lemma infallible_if [sql_intros]: "infallible m \<Longrightarrow> infallible n \<Longrightarrow> infallible (if b then m else n)"
  by simp

lemma tolerant_attempt:
  fixes m :: "(('db, 'z) conn_scheme, 'a) prog"
  assumes m: "tolerant m" and f: "\<And>x. tolerant (f x)"
  shows "tolerant (attempt m f)"
  unfolding tolerant_def
proof
  fix s :: "('db, 'z) conn_scheme"
  let ?t = "s\<lparr>calls := []\<rparr>"
  obtain r s1 where ms: "m s = (r, s1)" by fastforce
  have "r = Inl Storage \<or> m ?t = (r, s1\<lparr>calls := []\<rparr>)"
    using m ms unfolding tolerant_def by (metis fst_conv snd_conv)
  then consider "r = Inl Storage" | e where "r = Inl e" "m ?t = (Inl e, s1\<lparr>calls := []\<rparr>)"
    | x where "r = Inr x" "m ?t = (Inr x, s1\<lparr>calls := []\<rparr>)"
    by (cases r) auto
  then show "fst (attempt m f s) = Inl Storage \<or>
      attempt m f ?t = (fst (attempt m f s), (snd (attempt m f s))\<lparr>calls := []\<rparr>)"
  proof cases
    case 3
    then show ?thesis
      using f [of x] ms by (simp add: attempt_def tolerant_def)
  qed (simp_all add: attempt_def ms)
qed

lemma tolerant_basic:
  "tolerant (ret x)" "tolerant (throw e)" "tolerant (pure_result r)" "tolerant begin_immediate"
  "tolerant (execute g)" "tolerant (query h)" "tolerant (query_committed h)" "tolerant commit"
  by (auto simp: tolerant_def ret_def throw_def pure_result_def begin_immediate_def execute_def
      query_def query_committed_def commit_def db_call_def
      split: list.split call_outcome.split sum.split prod.split)

lemma tolerant_settings: "tolerant begin_deferred" "tolerant run_settings"
  by (auto simp: tolerant_def begin_deferred_def run_settings_def db_call_def
      split: list.split call_outcome.split)

lemma tolerant_autocommit:
  assumes "tolerant m"
  shows "tolerant (autocommit m)"
  unfolding tolerant_def autocommit_def
proof
  fix s :: "('a, 'b) conn_scheme"
  let ?t = "s\<lparr>working := durable s\<rparr>"
  have "(s\<lparr>calls := []\<rparr>)\<lparr>working := durable (s\<lparr>calls := []\<rparr>)\<rparr> = ?t\<lparr>calls := []\<rparr>"
    by simp
  moreover have "fst (m ?t) = Inl Storage \<or> m (?t\<lparr>calls := []\<rparr>) = (fst (m ?t), (snd (m ?t))\<lparr>calls := []\<rparr>)"
    using assms unfolding tolerant_def by blast
  ultimately show "fst (m ?t) = Inl Storage \<or>
      m ((s\<lparr>calls := []\<rparr>)\<lparr>working := durable (s\<lparr>calls := []\<rparr>)\<rparr>) =
        (fst (m ?t), (snd (m ?t))\<lparr>calls := []\<rparr>)"
    by (simp only:)
qed

lemma tolerant_modify:
  "(\<And>s. g (s\<lparr>calls := []\<rparr>) = (g s)\<lparr>calls := []\<rparr>) \<Longrightarrow> tolerant (modify_state g)"
  by (simp add: tolerant_def modify_state_def)

lemma tolerant_if: "tolerant m \<Longrightarrow> tolerant n \<Longrightarrow> tolerant (if b then m else n)"
  by simp

lemma tolerant_option:
  "tolerant m \<Longrightarrow> (\<And>x. tolerant (f x)) \<Longrightarrow> tolerant (case v of None \<Rightarrow> m | Some x \<Rightarrow> f x)"
  by (cases v) simp_all

lemma settled_quiet: "quiet m \<Longrightarrow> settled m"
  unfolding settled_def quiet_def same_store_def by (metis snd_conv)

lemma settled_attempt:
  fixes m :: "(('db, 'z) conn_scheme, 'a) prog"
  assumes q: "quiet m" and t: "tolerant m" and f: "\<And>x. settled (f x)"
  shows "settled (attempt m f)"
  unfolding settled_def
proof (intro allI impI)
  fix s :: "('db, 'z) conn_scheme" and e s'
  assume run: "attempt m f s = (Inl e, s')"
  show "conn.more s' = conn.more s \<and> (durable s' = durable s \<or>
      (\<exists>x s1. attempt m f (s\<lparr>calls := []\<rparr>) = (Inr x, s1) \<and> durable s1 = durable s'))"
  proof (cases "fst (m s)")
    case (Inl a)
    then have "s' = snd (m s)"
      using run by (simp add: attempt_Inl)
    then show ?thesis
      using quietD(1) [OF q, of s] by (simp add: same_store_def)
  next
    case (Inr x)
    let ?s1 = "snd (m s)"
    have s1: "durable ?s1 = durable s" "conn.more ?s1 = conn.more s"
      using quietD(1) [OF q, of s] by (simp_all add: same_store_def)
    have faultless: "m (s\<lparr>calls := []\<rparr>) = (Inr x, ?s1\<lparr>calls := []\<rparr>)"
      using t Inr unfolding tolerant_def by (metis Inl_Inr_False)
    have "f x ?s1 = (Inl e, s')"
      using run Inr by (simp add: attempt_Inr)
    then have "conn.more s' = conn.more ?s1 \<and> (durable s' = durable ?s1 \<or>
        (\<exists>y s2. f x (?s1\<lparr>calls := []\<rparr>) = (Inr y, s2) \<and> durable s2 = durable s'))"
      using f [of x] unfolding settled_def by blast
    then show ?thesis
      using s1 faultless by (simp add: attempt_def)
  qed
qed

lemma settled_commit_then:
  fixes f :: "unit \<Rightarrow> (('db, 'z) conn_scheme, 'a) prog"
  assumes "\<And>x. infallible (f x)"
  shows "settled (attempt commit f)"
  unfolding settled_def
proof (intro allI impI)
  fix s :: "('db, 'z) conn_scheme" and e s'
  assume run: "attempt commit f s = (Inl e, s')"
  have f: "fst (f x t) \<noteq> Inl a" "durable (snd (f x t)) = durable t" for x a t
    using assms [of x] unfolding infallible_def by (metis Inl_Inr_False)+
  then have no: "f x t \<noteq> (Inl a, t')" for x a t t'
    by (metis fst_conv)
  let ?t = "s\<lparr>calls := [], durable := working s\<rparr>"
  obtain y t1 where y: "f () ?t = (Inr y, t1)"
    using f(1) [of "()" ?t] by (cases "f () ?t"; cases "fst (f () ?t)") auto
  then have "attempt commit f (s\<lparr>calls := []\<rparr>) = (Inr y, t1)" "durable t1 = working s"
    using f(2) [of "()" ?t] by (simp_all add: attempt_def commit_def db_call_def)
  moreover have "conn.more s' = conn.more s \<and> (durable s' = durable s \<or> durable s' = working s)"
    using run by (auto simp: no attempt_def commit_def db_call_def split: list.splits call_outcome.splits)
  ultimately show "conn.more s' = conn.more s \<and> (durable s' = durable s \<or>
      (\<exists>x s1. attempt commit f (s\<lparr>calls := []\<rparr>) = (Inr x, s1) \<and> durable s1 = durable s'))"
    by auto
qed

lemma settled_basic: "settled (ret x)" "settled (throw e)" "settled (pure_result r)"
  by (simp_all add: settled_quiet quiet_basic)

lemma settled_if: "settled m \<Longrightarrow> settled n \<Longrightarrow> settled (if b then m else n)"
  by simp

lemma settled_option:
  "settled m \<Longrightarrow> (\<And>x. settled (f x)) \<Longrightarrow> settled (case v of None \<Rightarrow> m | Some x \<Rightarrow> f x)"
  by (cases v) simp_all

text \<open>A deferred transaction that only reads leaves the committed image alone although it ends
  with a commit.\<close>

definition read_only :: "(('db, 'z) conn_scheme, 'a) prog \<Rightarrow> bool" where
  "read_only m \<longleftrightarrow> quiet m \<and> (\<forall>s. working (snd (m s)) = working s)"

lemma read_only_attempt:
  assumes "read_only m" and "\<And>x. read_only (f x)"
  shows "read_only (attempt m f)"
proof -
  have "working (snd (attempt m f s)) = working s" for s
    using assms(1) assms(2) by (cases "fst (m s)") (simp_all add: read_only_def attempt_Inl attempt_Inr)
  then show ?thesis
    using assms by (simp add: read_only_def quiet_attempt)
qed

lemma read_only_basic:
  "read_only (ret x)" "read_only (throw e)" "read_only (pure_result r)" "read_only (query h)"
  by (simp_all add: read_only_def quiet_basic)
    (auto simp: ret_def throw_def pure_result_def query_def db_call_def split: list.split call_outcome.split)

lemma read_only_if: "read_only m \<Longrightarrow> read_only n \<Longrightarrow> read_only (if b then m else n)"
  by simp

lemmas read_only_rules = read_only_attempt read_only_basic read_only_if

lemma quiet_read_transaction:
  fixes m :: "(('db, 'z) conn_scheme, 'a) prog"
  assumes "read_only m" and "\<And>x. quiet (f x)"
  shows "quiet (attempt begin_deferred (\<lambda>_. attempt m (\<lambda>x. attempt commit (\<lambda>_. f x))))"
  unfolding quiet_def
proof
  fix s :: "('db, 'z) conn_scheme"
  let ?after = "\<lambda>t. same_store s t \<and> set (calls t) \<subseteq> set (calls s)"
  obtain r s1 where b: "begin_deferred s = (r, s1)" by fastforce
  have s1: "?after s1" and w: "r = Inr () \<Longrightarrow> working s1 = durable s1"
    using b by (auto simp: begin_deferred_def db_call_def same_store_def
        split: list.splits call_outcome.splits)
  obtain q s2 where m: "m s1 = (q, s2)" by fastforce
  have s2: "same_store s1 s2" "set (calls s2) \<subseteq> set (calls s1)" "working s2 = working s1"
    using assms(1) m quietD [of m s1] unfolding read_only_def by (auto dest: spec [of _ s1])
  obtain p s3 where c: "commit s2 = (p, s3)" by fastforce
  have s3: "same_store s2 s3 \<and> set (calls s3) \<subseteq> set (calls s2)" if "working s2 = durable s2"
    using c that by (auto simp: commit_def db_call_def same_store_def
        split: list.splits call_outcome.splits)
  have f: "same_store t (snd (f x t)) \<and> set (calls (snd (f x t))) \<subseteq> set (calls t)" for x t
    using quietD [OF assms(2)] by blast
  show "?after (snd (attempt begin_deferred (\<lambda>_. attempt m (\<lambda>x. attempt commit (\<lambda>_. f x))) s))"
  proof (cases r)
    case (Inl e)
    then show ?thesis
      using b s1 by (simp add: attempt_def)
  next
    case (Inr u)
    then have "?after s2" "?after s3"
      using s1 s2 s3 w by (auto simp: same_store_def)
    then show ?thesis
      using b m c Inr f [where t = s3]
      by (cases q; cases p) (auto simp: attempt_def intro: same_store_trans)
  qed
qed

text \<open>The rules by which the stores' operations are shown to meet the contract.\<close>

lemmas atomic_rules =
  atomic_commit_then atomic_attempt atomic_basic atomic_if atomic_option sql_intros

lemmas tolerant_rules =
  tolerant_attempt tolerant_basic tolerant_settings tolerant_autocommit tolerant_if tolerant_option

lemmas settled_rules =
  settled_commit_then settled_attempt settled_basic settled_if settled_option tolerant_rules sql_intros

end
