(* ===== verification/Sql_Table.thy ===== *)
theory Sql_Table
  imports Lab_Prelude
begin

text \<open>
  Tables as lists of rows in rowid order, and the statement forms the relay uses on them:
  insertion under a primary key and the check constraints, \<^verbatim>\<open>INSERT OR IGNORE\<close>, upsert and
  \<^verbatim>\<open>DELETE ... WHERE\<close> with its count of changed rows. The locale \<open>expiring_table\<close> is
  the contract of a table whose rows carry a deadline and are removed by a sweep; every
  replay defence of the relay rests on it.
\<close>

section \<open>Statements\<close>

definition has_key :: "('r \<Rightarrow> 'k) \<Rightarrow> 'k \<Rightarrow> 'r list \<Rightarrow> bool" where
  "has_key key k rows \<longleftrightarrow> list_ex (\<lambda>r. key r = k) rows"

definition insert_row :: "('r \<Rightarrow> 'k) \<Rightarrow> ('r \<Rightarrow> bool) \<Rightarrow> 'r \<Rightarrow> 'r list \<Rightarrow> 'r list result" where
  "insert_row key check r rows =
     (if check r \<and> \<not> has_key key (key r) rows then Inr (rows @ [r]) else Inl Storage)"

definition insert_or_ignore :: "('r \<Rightarrow> 'k) \<Rightarrow> ('r \<Rightarrow> bool) \<Rightarrow> 'r \<Rightarrow> 'r list \<Rightarrow> nat \<times> 'r list" where
  "insert_or_ignore key check r rows =
     (if check r \<and> \<not> has_key key (key r) rows then (1, rows @ [r]) else (0, rows))"

definition upsert_row ::
    "('r \<Rightarrow> 'k) \<Rightarrow> ('r \<Rightarrow> bool) \<Rightarrow> ('r \<Rightarrow> 'r \<Rightarrow> 'r) \<Rightarrow> 'r \<Rightarrow> 'r list \<Rightarrow> 'r list result" where
  "upsert_row key check update r rows =
     (if \<not> check r then Inl Storage
      else if has_key key (key r) rows
      then Inr (map (\<lambda>x. if key x = key r then update x r else x) rows)
      else Inr (rows @ [r]))"

definition delete_where :: "('r \<Rightarrow> bool) \<Rightarrow> 'r list \<Rightarrow> nat \<times> 'r list" where
  "delete_where P rows = (length (filter P rows), filter (\<lambda>r. \<not> P r) rows)"

definition update_where ::
    "('r \<Rightarrow> bool) \<Rightarrow> ('r \<Rightarrow> bool) \<Rightarrow> ('r \<Rightarrow> 'r) \<Rightarrow> 'r list \<Rightarrow> (nat \<times> 'r list) result" where
  "update_where check P update rows =
     (if list_ex (\<lambda>r. P r \<and> \<not> check (update r)) rows then Inl Storage
      else Inr (length (filter P rows), map (\<lambda>r. if P r then update r else r) rows))"

section \<open>Primary keys\<close>

definition unique_key :: "('r \<Rightarrow> 'k) \<Rightarrow> 'r list \<Rightarrow> bool" where
  "unique_key key rows \<longleftrightarrow> distinct (map key rows)"

lemma has_key_iff: "has_key key k rows \<longleftrightarrow> (\<exists>r\<in>set rows. key r = k)"
  by (auto simp: has_key_def list_ex_iff)

lemma has_key_append [simp]:
  "has_key key k (rows @ more) \<longleftrightarrow> has_key key k rows \<or> has_key key k more"
  by (auto simp: has_key_iff)

lemma has_key_single [simp]: "has_key key k [r] \<longleftrightarrow> key r = k"
  by (simp add: has_key_iff)

lemma insert_row_Inr_iff:
  "insert_row key check r rows = Inr rows' \<longleftrightarrow>
     check r \<and> \<not> has_key key (key r) rows \<and> rows' = rows @ [r]"
  by (auto simp: insert_row_def)

lemma unique_key_filter: "unique_key key rows \<Longrightarrow> unique_key key (filter P rows)"
  by (simp add: unique_key_def distinct_map_filter)

lemma unique_key_snoc:
  "unique_key key rows \<Longrightarrow> \<not> has_key key (key r) rows \<Longrightarrow> unique_key key (rows @ [r])"
  by (auto simp: unique_key_def has_key_iff)

lemma unique_key_insert_or_ignore:
  "unique_key key rows \<Longrightarrow> unique_key key (snd (insert_or_ignore key check r rows))"
  by (simp add: insert_or_ignore_def unique_key_snoc)

lemma unique_key_update:
  assumes "\<And>x. key x = key r \<Longrightarrow> key (update x r) = key r" and "unique_key key rows"
  shows "unique_key key (map (\<lambda>x. if key x = key r then update x r else x) rows)"
proof -
  have "map key (map (\<lambda>x. if key x = key r then update x r else x) rows) = map key rows"
    using assms(1) by (auto simp: comp_def intro: map_cong)
  then show ?thesis
    using assms(2) by (simp only: unique_key_def)
qed

lemma find_unique:
  assumes "unique_key key rows" and "r \<in> set rows" and "key r = k"
  shows "find (\<lambda>r. key r = k) rows = Some r"
  using assms by (induction rows) (auto simp: unique_key_def)

lemma find_SomeD: "find P rows = Some r \<Longrightarrow> r \<in> set rows \<and> P r"
  by (auto simp: find_Some_iff in_set_conv_nth)

lemma find_None_has_key: "find (\<lambda>r. key r = k) rows = None \<longleftrightarrow> \<not> has_key key k rows"
  by (auto simp: find_None_iff has_key_iff)

lemma find_snoc:
  "find P (xs @ [r]) = (case find P xs of Some x \<Rightarrow> Some x | None \<Rightarrow> if P r then Some r else None)"
  by (induction xs) auto

lemma filter_unique_key:
  assumes "unique_key key rows" and "has_key key k rows"
  shows "length (filter (\<lambda>r. key r = k) rows) = 1"
  using assms by (induction rows) (auto simp: unique_key_def has_key_iff filter_empty_conv image_iff)

section \<open>Tables with deadlines\<close>

locale expiring_table =
  fixes rows :: "'db \<Rightarrow> 'r list"
    and key :: "'r \<Rightarrow> 'k"
    and deadline :: "'r \<Rightarrow> int"
    and sweep :: "int \<Rightarrow> 'db \<Rightarrow> 'db"
  assumes sweep_rows: "rows (sweep now db) = filter (\<lambda>r. now < deadline r) (rows db)"
begin

definition live :: "int \<Rightarrow> 'db \<Rightarrow> 'k \<Rightarrow> bool" where
  "live now db k \<longleftrightarrow> (\<exists>r\<in>set (rows db). key r = k \<and> now < deadline r)"

lemma has_key_sweep: "has_key key k (rows (sweep now db)) \<longleftrightarrow> live now db k"
  by (auto simp: has_key_iff sweep_rows live_def)

lemma sweep_all_live: "r \<in> set (rows (sweep now db)) \<Longrightarrow> now < deadline r"
  by (simp add: sweep_rows)

lemma sweep_subset: "set (rows (sweep now db)) \<subseteq> set (rows db)"
  by (auto simp: sweep_rows)

lemma sweep_keeps: "r \<in> set (rows db) \<Longrightarrow> now < deadline r \<Longrightarrow> r \<in> set (rows (sweep now db))"
  by (simp add: sweep_rows)

lemma live_sweep: "t \<le> now \<Longrightarrow> live now (sweep t db) k \<longleftrightarrow> live now db k"
  by (auto simp: live_def sweep_rows)

lemma sweep_sweep: "s \<le> t \<Longrightarrow> rows (sweep t (sweep s db)) = rows (sweep t db)"
  by (auto simp: sweep_rows intro: filter_cong)

lemma unique_key_sweep: "unique_key key (rows db) \<Longrightarrow> unique_key key (rows (sweep now db))"
  by (simp add: sweep_rows unique_key_filter)

end

end
