(* ===== verification/Relay.thy ===== *)
theory Relay
  imports Capability Sql_Transaction Sql_Table
begin

text \<open>
  The relay of \<^verbatim>\<open>src/src/relay.rs\<close>: the six tables of the current schema with their
  constraints, the SQL statements as functions on the tables, and every operation of
  \<^verbatim>\<open>impl Relay\<close> as a program over the connection, in the order of the code's checks,
  statements and commits.
\<close>

section \<open>Schema\<close>

record mailbox_row =
  mb_queue_id :: bytes
  mb_send_key :: bytes
  mb_receive_key :: bytes
  mb_manage_key :: bytes
  mb_created_at :: int

record message_row =
  ms_queue_id :: bytes
  ms_message_id :: bytes
  ms_ciphertext :: bytes
  ms_expires_at :: int
  ms_sender_signature :: bytes

record tombstone_row =
  ts_queue_id :: bytes
  ts_message_id :: bytes
  ts_delete_after :: int

record request_nonce_row =
  rn_queue_id :: bytes
  rn_role :: string
  rn_nonce :: bytes
  rn_delete_after :: int

record registration_nonce_row =
  gn_queue_id :: bytes
  gn_nonce :: bytes
  gn_delete_after :: int

record retired_queue_row =
  rq_queue_hash :: bytes
  rq_retired_at :: int

record relay_db =
  mailboxes :: "mailbox_row list"
  messages :: "message_row list"
  tombstones :: "tombstone_row list"
  request_nonces :: "request_nonce_row list"
  registration_nonces :: "registration_nonce_row list"
  retired_queues :: "retired_queue_row list"

record relay = "relay_db conn" +
  audit_events :: "string list"

definition message_key :: "message_row \<Rightarrow> bytes \<times> bytes" where
  "message_key r = (ms_queue_id r, ms_message_id r)"

definition tombstone_key :: "tombstone_row \<Rightarrow> bytes \<times> bytes" where
  "tombstone_key r = (ts_queue_id r, ts_message_id r)"

definition request_nonce_key :: "request_nonce_row \<Rightarrow> bytes \<times> string \<times> bytes" where
  "request_nonce_key r = (rn_queue_id r, rn_role r, rn_nonce r)"

definition registration_nonce_key :: "registration_nonce_row \<Rightarrow> bytes \<times> bytes" where
  "registration_nonce_key r = (gn_queue_id r, gn_nonce r)"

text \<open>The \<^verbatim>\<open>CHECK\<close> constraints of the current schema.\<close>

definition mailbox_check :: "mailbox_row \<Rightarrow> bool" where
  "mailbox_check r \<longleftrightarrow> length (mb_queue_id r) = 32 \<and> length (mb_send_key r) = 32 \<and>
     length (mb_receive_key r) = 32 \<and> length (mb_manage_key r) = 32"

definition message_check :: "message_row \<Rightarrow> bool" where
  "message_check r \<longleftrightarrow> length (ms_message_id r) = 16 \<and> length (ms_sender_signature r) = 64"

definition tombstone_check :: "tombstone_row \<Rightarrow> bool" where
  "tombstone_check r \<longleftrightarrow> length (ts_message_id r) = 16"

definition request_nonce_check :: "request_nonce_row \<Rightarrow> bool" where
  "request_nonce_check r \<longleftrightarrow> length (rn_nonce r) = 16"

definition registration_nonce_check :: "registration_nonce_row \<Rightarrow> bool" where
  "registration_nonce_check r \<longleftrightarrow> length (gn_queue_id r) = 32 \<and> length (gn_nonce r) = 16"

definition retired_queue_check :: "retired_queue_row \<Rightarrow> bool" where
  "retired_queue_check r \<longleftrightarrow> length (rq_queue_hash r) = 32"

definition has_mailbox :: "relay_db \<Rightarrow> bytes \<Rightarrow> bool" where
  "has_mailbox db q \<longleftrightarrow> has_key mb_queue_id q (mailboxes db)"

definition empty_relay_db :: relay_db where
  "empty_relay_db = \<lparr>mailboxes = [], messages = [], tombstones = [], request_nonces = [],
     registration_nonces = [], retired_queues = []\<rparr>"

section \<open>Constants and outcomes\<close>

definition MAX_PACKET_BYTES :: nat where "MAX_PACKET_BYTES = 1048576"
definition MAX_MESSAGE_TTL_SECONDS :: u64 where "MAX_MESSAGE_TTL_SECONDS = 7 * 24 * 60 * 60"
definition TOMBSTONE_TTL_SECONDS :: u64 where "TOMBSTONE_TTL_SECONDS = 7 * 24 * 60 * 60"

datatype enqueue_outcome = Stored | Duplicate
datatype ack_outcome = Deleted | AlreadyDeleted

section \<open>Helpers\<close>

definition to_i64 :: "u64 \<Rightarrow> int result" where
  "to_i64 v = ok_or (i64_try_from v) Storage"

definition validate_request_time :: "u64 \<Rightarrow> u64 \<Rightarrow> unit result" where
  "validate_request_time valid_until now =
     (if valid_until \<le> now \<or> valid_until > u64_saturating_add now (5 * 60)
      then Inl RequestExpired else Inr ())"

definition validate_message_expiry :: "u64 \<Rightarrow> u64 \<Rightarrow> unit result" where
  "validate_message_expiry expires_at now =
     (if expires_at \<le> now \<or> expires_at > u64_saturating_add now MAX_MESSAGE_TTL_SECONDS
      then Inl InvalidExpiry else Inr ())"

definition delete_expired_messages :: "int \<Rightarrow> relay_db \<Rightarrow> (nat \<times> relay_db) result" where
  "delete_expired_messages now db =
     (let (n, rows) = delete_where (\<lambda>r. ms_expires_at r \<le> now) (messages db)
      in Inr (n, db\<lparr>messages := rows\<rparr>))"

definition delete_expired_tombstones :: "int \<Rightarrow> relay_db \<Rightarrow> (nat \<times> relay_db) result" where
  "delete_expired_tombstones now db =
     (let (n, rows) = delete_where (\<lambda>r. ts_delete_after r \<le> now) (tombstones db)
      in Inr (n, db\<lparr>tombstones := rows\<rparr>))"

definition delete_expired_request_nonces :: "int \<Rightarrow> relay_db \<Rightarrow> (nat \<times> relay_db) result" where
  "delete_expired_request_nonces now db =
     (let (n, rows) = delete_where (\<lambda>r. rn_delete_after r \<le> now) (request_nonces db)
      in Inr (n, db\<lparr>request_nonces := rows\<rparr>))"

definition delete_expired_registration_nonces ::
    "int \<Rightarrow> relay_db \<Rightarrow> (nat \<times> relay_db) result" where
  "delete_expired_registration_nonces now db =
     (let (n, rows) = delete_where (\<lambda>r. gn_delete_after r \<le> now) (registration_nonces db)
      in Inr (n, db\<lparr>registration_nonces := rows\<rparr>))"

definition purge_expired_in :: "u64 \<Rightarrow> (relay, nat) prog" where
  "purge_expired_in now' =
     attempt (pure_result (to_i64 now')) (\<lambda>now.
     attempt (execute (delete_expired_messages now)) (\<lambda>deleted.
     attempt (execute (delete_expired_tombstones now)) (\<lambda>_.
     attempt (execute (delete_expired_request_nonces now)) (\<lambda>_.
     attempt (execute (delete_expired_registration_nonces now)) (\<lambda>_.
     ret deleted)))))"

definition mailbox_column :: "string \<Rightarrow> (mailbox_row \<Rightarrow> bytes) option" where
  "mailbox_column column =
     (if column = ''send_key'' then Some mb_send_key
      else if column = ''receive_key'' then Some mb_receive_key
      else if column = ''manage_key'' then Some mb_manage_key
      else None)"

definition mailbox_key ::
    "('kp, 'pk, 'sig) crypto \<Rightarrow> queue_id \<Rightarrow> string \<Rightarrow> (relay, 'pk) prog" where
  "mailbox_key C q column =
     (case mailbox_column column of
        None \<Rightarrow> throw Storage
      | Some sel \<Rightarrow>
          attempt (query (\<lambda>db. map_option sel
            (find (\<lambda>r. mb_queue_id r = queue_id_bytes q) (mailboxes db)))) (\<lambda>found.
          attempt (pure_result (ok_or found MailboxNotFound)) (\<lambda>bs.
          attempt (pure_result (ensure (length bs = 32) Storage)) (\<lambda>_.
          pure_result (ok_or (pk_from_slice C bs) Storage)))))"

text \<open>\<^verbatim>\<open>INSERT OR IGNORE INTO request_nonces\<close>: the foreign key is enforced, a duplicate key or a
  failed check skips the row.\<close>

definition insert_request_nonce :: "request_nonce_row \<Rightarrow> relay_db \<Rightarrow> (nat \<times> relay_db) result" where
  "insert_request_nonce r db =
     (let (n, rows) = insert_or_ignore request_nonce_key request_nonce_check r (request_nonces db)
      in if n = 1 \<and> \<not> has_mailbox db (rn_queue_id r) then Inl Storage
         else Inr (n, db\<lparr>request_nonces := rows\<rparr>))"

definition record_nonce :: "queue_id \<Rightarrow> string \<Rightarrow> nonce \<Rightarrow> u64 \<Rightarrow> (relay, unit) prog" where
  "record_nonce q role n delete_after =
     attempt (pure_result (to_i64 delete_after)) (\<lambda>d.
     attempt (execute (insert_request_nonce
       \<lparr>rn_queue_id = queue_id_bytes q, rn_role = role, rn_nonce = nonce_bytes n,
        rn_delete_after = d\<rparr>)) (\<lambda>inserted.
     if inserted \<noteq> 1 then throw Unauthorized else ret ()))"

definition push_event :: "string \<Rightarrow> (relay, unit) prog" where
  "push_event e = modify_state (\<lambda>s. s\<lparr>audit_events := audit_events s @ [e]\<rparr>)"

section \<open>Registration\<close>

definition insert_registration_nonce ::
    "registration_nonce_row \<Rightarrow> relay_db \<Rightarrow> (nat \<times> relay_db) result" where
  "insert_registration_nonce r db =
     (let (n, rows) = insert_or_ignore registration_nonce_key registration_nonce_check r
        (registration_nonces db)
      in Inr (n, db\<lparr>registration_nonces := rows\<rparr>))"

definition insert_mailbox :: "mailbox_row \<Rightarrow> relay_db \<Rightarrow> (unit \<times> relay_db) result" where
  "insert_mailbox r db =
     and_then (insert_row mb_queue_id mailbox_check r (mailboxes db)) (\<lambda>rows.
     Inr ((), db\<lparr>mailboxes := rows\<rparr>))"

definition register ::
    "('kp, 'pk, 'sig) crypto \<Rightarrow> ('pk, 'sig) mailbox_registration \<Rightarrow> u64 \<Rightarrow> (relay, bool) prog" where
  "register C request now =
     attempt (pure_result (validate_request_time (reg_valid_until request) now)) (\<lambda>_.
     attempt (pure_result (ensure (verify C (reg_manage_key request)
       (registration_signing_bytes C request) (reg_signature request)) Unauthorized)) (\<lambda>_.
     attempt begin_immediate (\<lambda>_.
     attempt (purge_expired_in now) (\<lambda>_.
     let queue_hash = digest C (queue_id_bytes (reg_queue_id request)) in
     attempt (query (\<lambda>db. has_key rq_queue_hash queue_hash (retired_queues db))) (\<lambda>retired.
     if retired then throw MailboxConflict else
     attempt (query (\<lambda>db. find (\<lambda>r. mb_queue_id r = queue_id_bytes (reg_queue_id request))
       (mailboxes db))) (\<lambda>existing.
     case existing of
       Some row \<Rightarrow>
         let same = mb_send_key row = pk_bytes C (reg_send_key request) \<and>
           mb_receive_key row = pk_bytes C (reg_receive_key request) \<and>
           mb_manage_key row = pk_bytes C (reg_manage_key request) in
         if \<not> same then throw MailboxConflict else
         attempt (pure_result (to_i64 (reg_valid_until request))) (\<lambda>d.
         attempt (execute (insert_registration_nonce
           \<lparr>gn_queue_id = queue_id_bytes (reg_queue_id request),
            gn_nonce = nonce_bytes (reg_nonce request), gn_delete_after = d\<rparr>)) (\<lambda>_.
         attempt commit (\<lambda>_.
         attempt (push_event ''mailbox_registration_duplicate'') (\<lambda>_.
         ret False))))
     | None \<Rightarrow>
         attempt (pure_result (to_i64 (reg_valid_until request))) (\<lambda>d.
         attempt (execute (insert_registration_nonce
           \<lparr>gn_queue_id = queue_id_bytes (reg_queue_id request),
            gn_nonce = nonce_bytes (reg_nonce request), gn_delete_after = d\<rparr>)) (\<lambda>recorded.
         if recorded \<noteq> 1 then throw Unauthorized else
         attempt (pure_result (to_i64 now)) (\<lambda>created_at.
         attempt (execute (insert_mailbox
           \<lparr>mb_queue_id = queue_id_bytes (reg_queue_id request),
            mb_send_key = pk_bytes C (reg_send_key request),
            mb_receive_key = pk_bytes C (reg_receive_key request),
            mb_manage_key = pk_bytes C (reg_manage_key request),
            mb_created_at = created_at\<rparr>)) (\<lambda>_.
         attempt commit (\<lambda>_.
         attempt (push_event ''mailbox_registered'') (\<lambda>_.
         ret True))))))))))))"

section \<open>Sending\<close>

definition insert_message :: "message_row \<Rightarrow> relay_db \<Rightarrow> (unit \<times> relay_db) result" where
  "insert_message r db =
     (if \<not> has_mailbox db (ms_queue_id r) then Inl Storage
      else and_then (insert_row message_key message_check r (messages db)) (\<lambda>rows.
        Inr ((), db\<lparr>messages := rows\<rparr>)))"

definition select_message :: "queue_id \<Rightarrow> message_id \<Rightarrow> relay_db \<Rightarrow> message_row option" where
  "select_message q m db =
     find (\<lambda>r. message_key r = (queue_id_bytes q, message_id_bytes m)) (messages db)"

definition enqueue ::
    "('kp, 'pk, 'sig) crypto \<Rightarrow> 'sig send_request \<Rightarrow> u64 \<Rightarrow> (relay, enqueue_outcome) prog" where
  "enqueue C request now =
     (if packet_bytes (snd_packet request) = [] \<or>
         length (packet_bytes (snd_packet request)) > MAX_PACKET_BYTES
      then throw InvalidPayload else
     attempt (pure_result (validate_message_expiry (snd_expires_at request) now)) (\<lambda>_.
     attempt begin_immediate (\<lambda>_.
     attempt (purge_expired_in now) (\<lambda>_.
     attempt (mailbox_key C (snd_queue_id request) ''send_key'') (\<lambda>send_key.
     attempt (pure_result (ensure (verify C send_key
       (send_request_signing_bytes C request) (snd_signature request)) Unauthorized)) (\<lambda>_.
     attempt (pure_result (to_i64 now)) (\<lambda>t.
     attempt (query (\<lambda>db. list_ex (\<lambda>r.
         tombstone_key r =
           (queue_id_bytes (snd_queue_id request), message_id_bytes (snd_message_id request)) \<and>
         ts_delete_after r > t) (tombstones db))) (\<lambda>tombstoned.
     if tombstoned then throw MessageGone else
     attempt (query (select_message (snd_queue_id request) (snd_message_id request)))
       (\<lambda>existing.
     case existing of
       Some row \<Rightarrow>
         if ms_ciphertext row = packet_bytes (snd_packet request)
         then attempt (pure_result (to_i64 (snd_expires_at request))) (\<lambda>e.
           if ms_expires_at row = e
           then attempt commit (\<lambda>_.
             attempt (push_event ''message_enqueue_duplicate'') (\<lambda>_.
             ret Duplicate))
           else throw MessageConflict)
         else throw MessageConflict
     | None \<Rightarrow>
         attempt (pure_result (to_i64 (snd_expires_at request))) (\<lambda>e.
         attempt (execute (insert_message
           \<lparr>ms_queue_id = queue_id_bytes (snd_queue_id request),
            ms_message_id = message_id_bytes (snd_message_id request),
            ms_ciphertext = packet_bytes (snd_packet request), ms_expires_at = e,
            ms_sender_signature = sig_bytes C (snd_signature request)\<rparr>)) (\<lambda>_.
         attempt commit (\<lambda>_.
         attempt (push_event ''message_enqueued'') (\<lambda>_.
         ret Stored)))))))))))))"

section \<open>Fetching\<close>

definition envelope_of_row ::
    "('kp, 'pk, 'sig) crypto \<Rightarrow> queue_id \<Rightarrow> message_row \<Rightarrow> 'sig stored_envelope result" where
  "envelope_of_row C q row =
     and_then (ok_or (message_id_from_slice (ms_message_id row)) Storage) (\<lambda>m.
     and_then (ok_or (u64_try_from (ms_expires_at row)) Storage) (\<lambda>e.
     and_then (ok_or (sig_from_slice C (ms_sender_signature row)) Storage) (\<lambda>s.
     Inr \<lparr>se_queue_id = q, se_message_id = m, se_packet = EncryptedPacket (ms_ciphertext row),
          se_expires_at = e, se_sender_signature = s\<rparr>)))"

fun envelopes_of_rows ::
    "('kp, 'pk, 'sig) crypto \<Rightarrow> queue_id \<Rightarrow> message_row list \<Rightarrow> 'sig stored_envelope list result"
where
  "envelopes_of_rows C q [] = Inr []"
| "envelopes_of_rows C q (row # rows) =
     and_then (envelope_of_row C q row) (\<lambda>env.
     and_then (envelopes_of_rows C q rows) (\<lambda>envs. Inr (env # envs)))"

definition fetch ::
    "('kp, 'pk, 'sig) crypto \<Rightarrow> 'sig fetch_request \<Rightarrow> u64 \<Rightarrow>
     (relay, 'sig stored_envelope list) prog" where
  "fetch C request now =
     attempt (pure_result (validate_request_time (ftc_valid_until request) now)) (\<lambda>_.
     attempt begin_immediate (\<lambda>_.
     attempt (purge_expired_in now) (\<lambda>_.
     attempt (mailbox_key C (ftc_queue_id request) ''receive_key'') (\<lambda>receive_key.
     attempt (pure_result (ensure (verify C receive_key (fetch_signing_bytes request)
       (ftc_signature request)) Unauthorized)) (\<lambda>_.
     attempt (record_nonce (ftc_queue_id request) ''receive'' (ftc_nonce request)
       (ftc_valid_until request)) (\<lambda>_.
     attempt (pure_result (to_i64 now)) (\<lambda>t.
     attempt (query (\<lambda>db. filter (\<lambda>r. ms_queue_id r = queue_id_bytes (ftc_queue_id request) \<and>
         ms_expires_at r > t) (messages db))) (\<lambda>rows.
     attempt (pure_result (envelopes_of_rows C (ftc_queue_id request) rows)) (\<lambda>envelopes.
     attempt commit (\<lambda>_.
     attempt (push_event ''mailbox_fetched'') (\<lambda>_.
     ret envelopes)))))))))))"

section \<open>Acknowledging\<close>

definition delete_message :: "queue_id \<Rightarrow> message_id \<Rightarrow> relay_db \<Rightarrow> (nat \<times> relay_db) result" where
  "delete_message q m db =
     (let (n, rows) = delete_where
        (\<lambda>r. message_key r = (queue_id_bytes q, message_id_bytes m)) (messages db)
      in Inr (n, db\<lparr>messages := rows\<rparr>))"

definition upsert_tombstone :: "tombstone_row \<Rightarrow> relay_db \<Rightarrow> (unit \<times> relay_db) result" where
  "upsert_tombstone r db =
     (if \<not> has_mailbox db (ts_queue_id r) then Inl Storage
      else and_then (upsert_row tombstone_key tombstone_check
          (\<lambda>old new. old\<lparr>ts_delete_after := ts_delete_after new\<rparr>) r (tombstones db)) (\<lambda>rows.
        Inr ((), db\<lparr>tombstones := rows\<rparr>)))"

definition acknowledge ::
    "('kp, 'pk, 'sig) crypto \<Rightarrow> 'sig ack_request \<Rightarrow> u64 \<Rightarrow> (relay, ack_outcome) prog" where
  "acknowledge C request now =
     attempt (pure_result (validate_request_time (ack_valid_until request) now)) (\<lambda>_.
     attempt begin_immediate (\<lambda>_.
     attempt (purge_expired_in now) (\<lambda>_.
     attempt (mailbox_key C (ack_queue_id request) ''receive_key'') (\<lambda>receive_key.
     attempt (pure_result (ensure (verify C receive_key (ack_signing_bytes request)
       (ack_signature request)) Unauthorized)) (\<lambda>_.
     attempt (query (select_message (ack_queue_id request) (ack_message_id request)))
       (\<lambda>existing.
     case existing of
       None \<Rightarrow>
         attempt (query (\<lambda>db. has_key tombstone_key
           (queue_id_bytes (ack_queue_id request), message_id_bytes (ack_message_id request))
           (tombstones db))) (\<lambda>already_deleted.
         if already_deleted
         then attempt commit (\<lambda>_.
           attempt (push_event ''message_ack_duplicate'') (\<lambda>_.
           ret AlreadyDeleted))
         else throw MessageNotFound)
     | Some row \<Rightarrow>
         if digest C (ms_ciphertext row) \<noteq> ack_packet_hash request then throw Unauthorized else
         attempt (execute (delete_message (ack_queue_id request) (ack_message_id request)))
           (\<lambda>_.
         attempt (pure_result (to_i64 (u64_saturating_add now TOMBSTONE_TTL_SECONDS))) (\<lambda>d.
         attempt (execute (upsert_tombstone
           \<lparr>ts_queue_id = queue_id_bytes (ack_queue_id request),
            ts_message_id = message_id_bytes (ack_message_id request),
            ts_delete_after = d\<rparr>)) (\<lambda>_.
         attempt commit (\<lambda>_.
         attempt (push_event ''message_acknowledged_and_deleted'') (\<lambda>_.
         ret Deleted)))))))))))"

section \<open>Deleting a mailbox\<close>

definition insert_retired_queue :: "retired_queue_row \<Rightarrow> relay_db \<Rightarrow> (nat \<times> relay_db) result" where
  "insert_retired_queue r db =
     (let (n, rows) = insert_or_ignore rq_queue_hash retired_queue_check r (retired_queues db)
      in Inr (n, db\<lparr>retired_queues := rows\<rparr>))"

text \<open>\<^verbatim>\<open>DELETE FROM mailboxes\<close> with the cascades of the three foreign keys.\<close>

definition delete_mailbox_row :: "queue_id \<Rightarrow> relay_db \<Rightarrow> (nat \<times> relay_db) result" where
  "delete_mailbox_row q db =
     (let (n, rows) = delete_where (\<lambda>r. mb_queue_id r = queue_id_bytes q) (mailboxes db)
      in Inr (n, db\<lparr>mailboxes := rows,
           messages := filter (\<lambda>r. ms_queue_id r \<noteq> queue_id_bytes q) (messages db),
           tombstones := filter (\<lambda>r. ts_queue_id r \<noteq> queue_id_bytes q) (tombstones db),
           request_nonces :=
             filter (\<lambda>r. rn_queue_id r \<noteq> queue_id_bytes q) (request_nonces db)\<rparr>))"

definition delete_mailbox ::
    "('kp, 'pk, 'sig) crypto \<Rightarrow> 'sig delete_mailbox_request \<Rightarrow> u64 \<Rightarrow> (relay, bool) prog" where
  "delete_mailbox C request now =
     attempt (pure_result (validate_request_time (del_valid_until request) now)) (\<lambda>_.
     attempt begin_immediate (\<lambda>_.
     attempt (purge_expired_in now) (\<lambda>_.
     attempt (mailbox_key C (del_queue_id request) ''manage_key'') (\<lambda>manage_key.
     attempt (pure_result (ensure (verify C manage_key (delete_signing_bytes request)
       (del_signature request)) Unauthorized)) (\<lambda>_.
     attempt (record_nonce (del_queue_id request) ''manage'' (del_nonce request)
       (del_valid_until request)) (\<lambda>_.
     let queue_hash = digest C (queue_id_bytes (del_queue_id request)) in
     attempt (pure_result (to_i64 now)) (\<lambda>t.
     attempt (execute (insert_retired_queue \<lparr>rq_queue_hash = queue_hash, rq_retired_at = t\<rparr>))
       (\<lambda>_.
     attempt (execute (delete_mailbox_row (del_queue_id request))) (\<lambda>deleted.
     attempt commit (\<lambda>_.
     attempt (push_event ''mailbox_deleted'') (\<lambda>_.
     ret (deleted = 1))))))))))))"

section \<open>Sweeping and counting\<close>

definition purge_expired :: "u64 \<Rightarrow> (relay, nat) prog" where
  "purge_expired now =
     attempt begin_immediate (\<lambda>_.
     attempt (purge_expired_in now) (\<lambda>deleted.
     attempt commit (\<lambda>_.
     attempt (if deleted > 0 then push_event ''expired_messages_deleted'' else ret ()) (\<lambda>_.
     ret deleted))))"

definition unix_now :: "system_time \<Rightarrow> u64 result" where
  "unix_now t = ok_or (unix_seconds t) Storage"

definition queued_message_count_at :: "u64 \<Rightarrow> (relay, nat) prog" where
  "queued_message_count_at now =
     attempt (purge_expired now) (\<lambda>_.
     attempt (query_committed (\<lambda>db. length (messages db))) (\<lambda>count. ret count))"

definition queued_message_count :: "system_time \<Rightarrow> (relay, nat) prog" where
  "queued_message_count t = attempt (pure_result (unix_now t)) queued_message_count_at"

definition tombstone_count :: "(relay, nat) prog" where
  "tombstone_count =
     attempt (query_committed (\<lambda>db. length (tombstones db))) (\<lambda>count. ret count)"

section \<open>The operations meet the transaction contract\<close>

lemma tolerant_push_event: "tolerant (push_event e)"
  unfolding push_event_def by (rule tolerant_modify) simp

lemma infallible_push_event: "infallible (push_event e)"
  unfolding push_event_def by (rule infallible_modify) simp

lemmas relay_op_defs =
  register_def enqueue_def fetch_def acknowledge_def delete_mailbox_def purge_expired_def
  queued_message_count_at_def tombstone_count_def
  purge_expired_in_def mailbox_key_def record_nonce_def Let_def

lemmas relay_atomic_rules = atomic_rules infallible_push_event
lemmas relay_tolerant_rules = tolerant_rules tolerant_push_event
lemmas relay_settled_rules = settled_rules infallible_push_event tolerant_push_event

interpretation register_tx: transactional "register C request now" for C request now
  by unfold_locales
    (unfold relay_op_defs, (intro relay_tolerant_rules)[1], (intro relay_atomic_rules)[1],
      (intro relay_settled_rules)[1])

interpretation enqueue_tx: transactional "enqueue C request now" for C request now
  by unfold_locales
    (unfold relay_op_defs, (intro relay_tolerant_rules)[1], (intro relay_atomic_rules)[1],
      (intro relay_settled_rules)[1])

interpretation fetch_tx: transactional "fetch C request now" for C request now
  by unfold_locales
    (unfold relay_op_defs, (intro relay_tolerant_rules)[1], (intro relay_atomic_rules)[1],
      (intro relay_settled_rules)[1])

interpretation acknowledge_tx: transactional "acknowledge C request now" for C request now
  by unfold_locales
    (unfold relay_op_defs, (intro relay_tolerant_rules)[1], (intro relay_atomic_rules)[1],
      (intro relay_settled_rules)[1])

interpretation delete_mailbox_tx: transactional "delete_mailbox C request now" for C request now
  by unfold_locales
    (unfold relay_op_defs, (intro relay_tolerant_rules)[1], (intro relay_atomic_rules)[1],
      (intro relay_settled_rules)[1])

interpretation purge_expired_tx: transactional "purge_expired now" for now
  by unfold_locales
    (unfold relay_op_defs, (intro relay_tolerant_rules)[1], (intro relay_atomic_rules)[1],
      (intro relay_settled_rules)[1])

lemma tombstone_count_contract: "quiet tombstone_count" "tolerant tombstone_count"
  unfolding relay_op_defs by ((intro sql_intros)[1], (intro relay_tolerant_rules)[1])

lemma queued_message_count_at_tolerant: "tolerant (queued_message_count_at now)"
  unfolding relay_op_defs by (intro relay_tolerant_rules)

section \<open>Evaluation of the helpers without failing calls\<close>

definition purge_db :: "int \<Rightarrow> relay_db \<Rightarrow> relay_db" where
  "purge_db t db = db\<lparr>
     messages := filter (\<lambda>r. t < ms_expires_at r) (messages db),
     tombstones := filter (\<lambda>r. t < ts_delete_after r) (tombstones db),
     request_nonces := filter (\<lambda>r. t < rn_delete_after r) (request_nonces db),
     registration_nonces := filter (\<lambda>r. t < gn_delete_after r) (registration_nonces db)\<rparr>"

lemma attempt_purge [sql_simps]:
  "calls s = [] \<Longrightarrow> attempt (purge_expired_in now) f s =
     (case to_i64 now of
        Inl e \<Rightarrow> (Inl e, s)
      | Inr t \<Rightarrow> f (length (filter (\<lambda>r. ms_expires_at r \<le> t) (messages (working s))))
          (s\<lparr>working := purge_db t (working s)\<rparr>))"
  by (simp add: purge_expired_in_def sql_simps delete_expired_messages_def
      delete_expired_tombstones_def delete_expired_request_nonces_def
      delete_expired_registration_nonces_def delete_where_def purge_db_def not_le
      split: sum.split)

lemma attempt_push_event [sql_simps]:
  "attempt (push_event e) f s = f () (s\<lparr>audit_events := audit_events s @ [e]\<rparr>)"
  by (simp add: push_event_def sql_simps)

text \<open>The key the relay finds for a queue and a column.\<close>

definition stored_key ::
    "('kp, 'pk, 'sig) crypto \<Rightarrow> (mailbox_row \<Rightarrow> bytes) \<Rightarrow> bytes \<Rightarrow> relay_db \<Rightarrow> 'pk result" where
  "stored_key C sel q db =
     and_then (ok_or (find (\<lambda>r. mb_queue_id r = q) (mailboxes db)) MailboxNotFound) (\<lambda>r.
     and_then (ensure (length (sel r) = 32) Storage) (\<lambda>_.
     ok_or (pk_from_slice C (sel r)) Storage))"

lemma attempt_mailbox_key [sql_simps]:
  assumes "calls s = []" and "mailbox_column column = Some sel"
  shows "attempt (mailbox_key C q column) f s =
     (case stored_key C sel (queue_id_bytes q) (working s) of
        Inl e \<Rightarrow> (Inl e, s) | Inr k \<Rightarrow> f k s)"
  using assms by (simp add: mailbox_key_def stored_key_def sql_simps result_simps ok_or_def
      ensure_def split: option.split sum.split)

lemma mailbox_columns [simp]:
  "mailbox_column ''send_key'' = Some mb_send_key"
  "mailbox_column ''receive_key'' = Some mb_receive_key"
  "mailbox_column ''manage_key'' = Some mb_manage_key"
  by (simp_all add: mailbox_column_def)

end
