(* ===== verification/Relay_Invariant.thy ===== *)
theory Relay_Invariant
  imports Relay
begin

text \<open>
  The data invariant of the relay database and what every operation does to the tables. The
  invariant holds the primary keys, check constraints and foreign keys of the schema, and
  facts no constraint states: stored keys and signatures parse, stored packets are within the
  size bound, no message coexists with its tombstone, and registration nonces only exist for mailboxes that exist or are retired.
\<close>

section \<open>The four tables with deadlines\<close>

interpretation messages_table: expiring_table messages message_key ms_expires_at purge_db
  by unfold_locales (simp add: purge_db_def)

interpretation tombstones_table: expiring_table tombstones tombstone_key ts_delete_after purge_db
  by unfold_locales (simp add: purge_db_def)

interpretation request_nonces_table:
  expiring_table request_nonces request_nonce_key rn_delete_after purge_db
  by unfold_locales (simp add: purge_db_def)

interpretation registration_nonces_table:
  expiring_table registration_nonces registration_nonce_key gn_delete_after purge_db
  by unfold_locales (simp add: purge_db_def)

lemma purge_db_other [simp]:
  "mailboxes (purge_db t db) = mailboxes db" "retired_queues (purge_db t db) = retired_queues db"
  "has_mailbox (purge_db t db) q = has_mailbox db q"
  by (simp_all add: purge_db_def has_mailbox_def)

lemma purge_db_idem: "s \<le> t \<Longrightarrow> purge_db t (purge_db s db) = purge_db t db"
  by (rule relay_db.equality) (simp_all add: messages_table.sweep_sweep
      tombstones_table.sweep_sweep request_nonces_table.sweep_sweep
      registration_nonces_table.sweep_sweep)

section \<open>The invariant\<close>

definition keys_unique :: "relay_db \<Rightarrow> bool" where
  "keys_unique db \<longleftrightarrow> unique_key mb_queue_id (mailboxes db) \<and>
     unique_key message_key (messages db) \<and> unique_key tombstone_key (tombstones db) \<and>
     unique_key request_nonce_key (request_nonces db) \<and>
     unique_key registration_nonce_key (registration_nonces db) \<and>
     unique_key rq_queue_hash (retired_queues db)"

definition is_retired :: "('kp, 'pk, 'sig) crypto \<Rightarrow> relay_db \<Rightarrow> bytes \<Rightarrow> bool" where
  "is_retired C db q \<longleftrightarrow> has_key rq_queue_hash (digest C q) (retired_queues db)"

definition mailbox_inv :: "('kp, 'pk, 'sig) crypto \<Rightarrow> mailbox_row \<Rightarrow> bool" where
  "mailbox_inv C r \<longleftrightarrow> mailbox_check r \<and>
     pk_from_slice C (mb_send_key r) \<noteq> None \<and> pk_from_slice C (mb_receive_key r) \<noteq> None \<and>
     pk_from_slice C (mb_manage_key r) \<noteq> None"

definition message_inv :: "('kp, 'pk, 'sig) crypto \<Rightarrow> relay_db \<Rightarrow> message_row \<Rightarrow> bool" where
  "message_inv C db r \<longleftrightarrow> message_check r \<and> has_mailbox db (ms_queue_id r) \<and>
     0 < length (ms_ciphertext r) \<and> length (ms_ciphertext r) \<le> MAX_PACKET_BYTES \<and>
     0 \<le> ms_expires_at r \<and> ms_expires_at r < 2 ^ 63 \<and>
     sig_from_slice C (ms_sender_signature r) \<noteq> None \<and>
     \<not> has_key tombstone_key (message_key r) (tombstones db)"

definition tombstone_inv :: "relay_db \<Rightarrow> tombstone_row \<Rightarrow> bool" where
  "tombstone_inv db r \<longleftrightarrow> tombstone_check r \<and> has_mailbox db (ts_queue_id r)"

definition request_nonce_inv :: "relay_db \<Rightarrow> request_nonce_row \<Rightarrow> bool" where
  "request_nonce_inv db r \<longleftrightarrow> request_nonce_check r \<and> has_mailbox db (rn_queue_id r) \<and>
     (rn_role r = ''receive'' \<or> rn_role r = ''manage'')"

definition registration_nonce_inv ::
    "('kp, 'pk, 'sig) crypto \<Rightarrow> relay_db \<Rightarrow> registration_nonce_row \<Rightarrow> bool" where
  "registration_nonce_inv C db r \<longleftrightarrow> registration_nonce_check r \<and>
     (has_mailbox db (gn_queue_id r) \<or> is_retired C db (gn_queue_id r))"

definition relay_inv :: "('kp, 'pk, 'sig) crypto \<Rightarrow> relay_db \<Rightarrow> bool" where
  "relay_inv C db \<longleftrightarrow> keys_unique db \<and>
     (\<forall>r\<in>set (mailboxes db). mailbox_inv C r) \<and>
     (\<forall>r\<in>set (messages db). message_inv C db r) \<and>
     (\<forall>r\<in>set (tombstones db). tombstone_inv db r) \<and>
     (\<forall>r\<in>set (request_nonces db). request_nonce_inv db r) \<and>
     (\<forall>r\<in>set (registration_nonces db). registration_nonce_inv C db r) \<and>
     (\<forall>r\<in>set (retired_queues db). retired_queue_check r)"

lemmas relay_inv_defs =
  relay_inv_def keys_unique_def mailbox_inv_def message_inv_def tombstone_inv_def
  request_nonce_inv_def registration_nonce_inv_def is_retired_def has_mailbox_def

lemma relay_inv_empty: "relay_inv C empty_relay_db"
  by (simp add: relay_inv_defs empty_relay_db_def unique_key_def)

section \<open>Statements keep the invariant\<close>

lemma has_key_filter: "has_key key k (filter P rows) \<Longrightarrow> has_key key k rows"
  by (auto simp: has_key_iff)

lemma relay_inv_purge: "relay_inv C db \<Longrightarrow> relay_inv C (purge_db t db)"
  by (auto simp: relay_inv_defs purge_db_def unique_key_filter dest: has_key_filter)

lemma relay_inv_registration_nonce:
  assumes "relay_inv C db" and "registration_nonce_inv C db r"
    and "insert_registration_nonce r db = Inr (n, db')"
  shows "relay_inv C db'"
proof -
  have "db' = db\<lparr>registration_nonces := snd (insert_or_ignore registration_nonce_key
      registration_nonce_check r (registration_nonces db))\<rparr>"
    using assms(3) by (auto simp: insert_registration_nonce_def Let_def split: prod.splits)
  then show ?thesis
    using assms(1,2) unique_key_insert_or_ignore
    by (auto simp: relay_inv_defs insert_or_ignore_def unique_key_snoc)
qed

lemma relay_inv_insert_mailbox:
  assumes "relay_inv C db" and "mailbox_inv C r" and "insert_mailbox r db = Inr (u, db')"
  shows "relay_inv C db'"
  using assms
  by (auto simp: relay_inv_defs insert_mailbox_def and_then_eq_Inr_iff insert_row_Inr_iff
      unique_key_snoc)

lemma relay_inv_insert_message:
  assumes "relay_inv C db" and "message_inv C db r" and "insert_message r db = Inr (u, db')"
  shows "relay_inv C db'"
  using assms
  by (auto simp: relay_inv_defs insert_message_def and_then_eq_Inr_iff insert_row_Inr_iff
      unique_key_snoc split: if_splits)

lemma relay_inv_request_nonce:
  assumes "relay_inv C db" and "request_nonce_inv db r"
    and "insert_request_nonce r db = Inr (n, db')"
  shows "relay_inv C db'"
  using assms
  by (auto simp: relay_inv_defs insert_request_nonce_def insert_or_ignore_def unique_key_snoc
      Let_def split: if_splits)

lemma relay_inv_delete_message:
  assumes "relay_inv C db" and "delete_message q m db = Inr (n, db')"
  shows "relay_inv C db'"
  using assms
  by (auto simp: relay_inv_defs delete_message_def delete_where_def unique_key_filter Let_def)

lemma delete_message_removes:
  assumes "delete_message q m db = Inr (n, db')"
  shows "\<not> has_key message_key (queue_id_bytes q, message_id_bytes m) (messages db')"
    and "has_mailbox db' = has_mailbox db" and "tombstones db' = tombstones db"
  using assms by (auto simp: delete_message_def delete_where_def has_key_iff has_mailbox_def
      Let_def fun_eq_iff)

lemma has_key_update:
  assumes "\<And>x. key x = key r \<Longrightarrow> key (update x r) = key r"
  shows "has_key key k (map (\<lambda>x. if key x = key r then update x r else x) rows) \<longleftrightarrow>
    has_key key k rows"
  using assms by (induction rows) (auto simp: has_key_def)

lemma relay_inv_upsert_tombstone:
  assumes inv: "relay_inv C db" and r: "tombstone_inv db r"
    and free: "\<not> has_key message_key (tombstone_key r) (messages db)"
    and up: "upsert_tombstone r db = Inr (u, db')"
  shows "relay_inv C db'"
proof (cases "has_key tombstone_key (tombstone_key r) (tombstones db)")
  case False
  then have "db' = db\<lparr>tombstones := tombstones db @ [r]\<rparr>"
    using up r by (auto simp: upsert_tombstone_def upsert_row_def tombstone_inv_def)
  then show ?thesis
    using inv r free False
    by (auto simp: relay_inv_defs unique_key_snoc has_key_iff) 
next
  case True
  let ?upd = "\<lambda>old new. old\<lparr>ts_delete_after := ts_delete_after new\<rparr>"
  let ?rows = "map (\<lambda>x. if tombstone_key x = tombstone_key r then ?upd x r else x) (tombstones db)"
  have key: "tombstone_key (?upd x r) = tombstone_key x" for x
    by (simp add: tombstone_key_def)
  have db': "db' = db\<lparr>tombstones := ?rows\<rparr>"
    using up r True by (auto simp: upsert_tombstone_def upsert_row_def tombstone_inv_def)
  have "unique_key tombstone_key ?rows"
    by (rule unique_key_update) (use inv key in \<open>auto simp: relay_inv_def keys_unique_def\<close>)
  moreover have "has_key tombstone_key k ?rows \<longleftrightarrow> has_key tombstone_key k (tombstones db)" for k
    by (rule has_key_update) (simp add: key)
  moreover have "\<forall>x\<in>set ?rows. tombstone_inv db x"
    using inv by (auto simp: relay_inv_def tombstone_inv_def tombstone_check_def)
  ultimately show ?thesis
    using inv unfolding db' by (simp add: relay_inv_defs)
qed

text \<open>The state after a mailbox has been retired and removed.\<close>

definition retire_db :: "bytes \<Rightarrow> int \<Rightarrow> bytes \<Rightarrow> relay_db \<Rightarrow> relay_db" where
  "retire_db hash t q db = db\<lparr>
     retired_queues := (if has_key rq_queue_hash hash (retired_queues db) then retired_queues db
       else retired_queues db @ [\<lparr>rq_queue_hash = hash, rq_retired_at = t\<rparr>]),
     mailboxes := filter (\<lambda>r. mb_queue_id r \<noteq> q) (mailboxes db),
     messages := filter (\<lambda>r. ms_queue_id r \<noteq> q) (messages db),
     tombstones := filter (\<lambda>r. ts_queue_id r \<noteq> q) (tombstones db),
     request_nonces := filter (\<lambda>r. rn_queue_id r \<noteq> q) (request_nonces db)\<rparr>"

lemma delete_mailbox_statements:
  assumes "length hash = 32"
    and "insert_retired_queue \<lparr>rq_queue_hash = hash, rq_retired_at = t\<rparr> db = Inr (n, db1)"
    and "delete_mailbox_row q db1 = Inr (k, db')"
  shows "db' = retire_db hash t (queue_id_bytes q) db"
    and "k = length (filter (\<lambda>r. mb_queue_id r = queue_id_bytes q) (mailboxes db))"
  using assms
  by (auto simp: insert_retired_queue_def insert_or_ignore_def retired_queue_check_def
      delete_mailbox_row_def delete_where_def retire_db_def Let_def split: if_splits)

lemma has_key_remove: "has_key key k (filter (\<lambda>r. key r \<noteq> q) rows) \<longleftrightarrow> has_key key k rows \<and> k \<noteq> q"
  by (auto simp: has_key_iff)

lemma has_mailbox_retire [simp]:
  "has_mailbox (retire_db hash t q db) p \<longleftrightarrow> has_mailbox db p \<and> p \<noteq> q"
  by (simp add: has_mailbox_def retire_db_def has_key_remove)

lemma is_retired_retire [simp]:
  "is_retired C (retire_db hash t q db) p \<longleftrightarrow> is_retired C db p \<or> digest C p = hash"
  by (auto simp: is_retired_def retire_db_def)

lemma relay_inv_retire:
  assumes "relay_inv C db" and "crypto_laws C"
  shows "relay_inv C (retire_db (digest C q) t q db)"
proof -
  let ?db = "retire_db (digest C q) t q db"
  have "keys_unique ?db"
    using assms(1)
    by (auto simp: relay_inv_def keys_unique_def retire_db_def unique_key_filter unique_key_snoc)
  moreover have "\<forall>r\<in>set (retired_queues ?db). retired_queue_check r"
    using assms by (auto simp: relay_inv_def retire_db_def retired_queue_check_def
        crypto_laws_digest_length)
  moreover have "registration_nonces ?db = registration_nonces db"
    by (simp add: retire_db_def)
  ultimately show ?thesis
    using assms(1)
    by (auto simp: relay_inv_def message_inv_def tombstone_inv_def request_nonce_inv_def
        registration_nonce_inv_def) (auto simp: retire_db_def dest: has_key_filter)
qed

end
