(* ===== verification/Relay_Spec.thy ===== *)
theory Relay_Spec
  imports Relay_Invariant
begin

text \<open>
  What the relay promises, free of tables, sweeps and transactions: a mailbox is a triple of
  keys, a queue is the list of its unexpired messages in arrival order, acknowledged message
  identifiers and used nonces are maps to their deadlines, and retired identifiers form a
  set. Each \<open>spec_\<dots>\<close> function states one operation on this state. \<open>view t\<close> is the
  abstraction function: what of the tables still counts at time \<open>t\<close>. The refinement lemmas show
  that every operation of the relay is its specification seen through \<open>view\<close>; in particular
  the sweep that starts each operation is invisible.
\<close>

named_theorems run_simps

section \<open>Abstract state\<close>

record abs_relay =
  boxes :: "bytes \<Rightarrow> (bytes \<times> bytes \<times> bytes) option"
  queue :: "bytes \<Rightarrow> message_row list"
  gone :: "bytes \<times> bytes \<Rightarrow> int option"
  spent :: "bytes \<times> string \<times> bytes \<Rightarrow> int option"
  retired :: "bytes set"

definition live_queue :: "int \<Rightarrow> bytes \<Rightarrow> message_row list \<Rightarrow> message_row list" where
  "live_queue t q rows = filter (\<lambda>r. ms_queue_id r = q \<and> t < ms_expires_at r) rows"

definition live_deadline :: "('r \<Rightarrow> 'k) \<Rightarrow> ('r \<Rightarrow> int) \<Rightarrow> int \<Rightarrow> 'k \<Rightarrow> 'r list \<Rightarrow> int option" where
  "live_deadline key deadline t k rows =
     map_option deadline (find (\<lambda>r. key r = k \<and> t < deadline r) rows)"

definition mailbox_keys :: "mailbox_row \<Rightarrow> bytes \<times> bytes \<times> bytes" where
  "mailbox_keys r = (mb_send_key r, mb_receive_key r, mb_manage_key r)"

definition view :: "int \<Rightarrow> relay_db \<Rightarrow> abs_relay" where
  "view t db = \<lparr>
     boxes = (\<lambda>q. map_option mailbox_keys (find (\<lambda>r. mb_queue_id r = q) (mailboxes db))),
     queue = (\<lambda>q. live_queue t q (messages db)),
     gone = (\<lambda>k. live_deadline tombstone_key ts_delete_after t k (tombstones db)),
     spent = (\<lambda>k. live_deadline request_nonce_key rn_delete_after t k (request_nonces db)),
     retired = rq_queue_hash ` set (retired_queues db)\<rparr>"

section \<open>Abstract operations\<close>

definition spec_key ::
    "('kp, 'pk, 'sig) crypto \<Rightarrow> (bytes \<times> bytes \<times> bytes \<Rightarrow> bytes) \<Rightarrow> bytes \<Rightarrow> abs_relay \<Rightarrow> 'pk result" where
  "spec_key C sel q A =
     and_then (ok_or (boxes A q) MailboxNotFound) (\<lambda>ks.
     ok_or (pk_from_slice C (sel ks)) Storage)"

definition spec_register ::
    "('kp, 'pk, 'sig) crypto \<Rightarrow> ('pk, 'sig) mailbox_registration \<Rightarrow> u64 \<Rightarrow> abs_relay \<Rightarrow>
     (bool \<times> abs_relay) result" where
  "spec_register C r now A =
     (let q = queue_id_bytes (reg_queue_id r);
          ks = (pk_bytes C (reg_send_key r), pk_bytes C (reg_receive_key r),
                pk_bytes C (reg_manage_key r))
      in and_then (validate_request_time (reg_valid_until r) now) (\<lambda>_.
      and_then (ensure (verify C (reg_manage_key r) (registration_signing_bytes C r)
        (reg_signature r)) Unauthorized) (\<lambda>_.
      and_then (to_i64 now) (\<lambda>_.
      and_then (ensure (digest C q \<notin> retired A) MailboxConflict) (\<lambda>_.
      and_then (ensure (boxes A q = None \<or> boxes A q = Some ks) MailboxConflict) (\<lambda>_.
      and_then (to_i64 (reg_valid_until r)) (\<lambda>_.
      Inr (boxes A q = None, A\<lparr>boxes := (boxes A)(q \<mapsto> ks)\<rparr>))))))))"

definition spec_enqueue ::
    "('kp, 'pk, 'sig) crypto \<Rightarrow> 'sig send_request \<Rightarrow> u64 \<Rightarrow> abs_relay \<Rightarrow>
     (enqueue_outcome \<times> abs_relay) result" where
  "spec_enqueue C r now A =
     (let q = queue_id_bytes (snd_queue_id r); m = message_id_bytes (snd_message_id r);
          p = packet_bytes (snd_packet r)
      in and_then (ensure (0 < length p \<and> length p \<le> MAX_PACKET_BYTES) InvalidPayload) (\<lambda>_.
      and_then (validate_message_expiry (snd_expires_at r) now) (\<lambda>_.
      and_then (to_i64 now) (\<lambda>_.
      and_then (spec_key C fst q A) (\<lambda>k.
      and_then (ensure (verify C k (send_request_signing_bytes C r) (snd_signature r))
        Unauthorized) (\<lambda>_.
      and_then (ensure (gone A (q, m) = None) MessageGone) (\<lambda>_.
      case find (\<lambda>x. ms_message_id x = m) (queue A q) of
        Some x \<Rightarrow>
          and_then (ensure (ms_ciphertext x = p) MessageConflict) (\<lambda>_.
          and_then (to_i64 (snd_expires_at r)) (\<lambda>e.
          and_then (ensure (ms_expires_at x = e) MessageConflict) (\<lambda>_.
          Inr (Duplicate, A))))
      | None \<Rightarrow>
          and_then (to_i64 (snd_expires_at r)) (\<lambda>e.
          Inr (Stored, A\<lparr>queue := (queue A)(q := queue A q @
            [\<lparr>ms_queue_id = q, ms_message_id = m, ms_ciphertext = p, ms_expires_at = e,
              ms_sender_signature = sig_bytes C (snd_signature r)\<rparr>])\<rparr>)))))))))"

definition spec_fetch ::
    "('kp, 'pk, 'sig) crypto \<Rightarrow> 'sig fetch_request \<Rightarrow> u64 \<Rightarrow> abs_relay \<Rightarrow>
     ('sig stored_envelope list \<times> abs_relay) result" where
  "spec_fetch C r now A =
     (let q = queue_id_bytes (ftc_queue_id r); n = (q, ''receive'', nonce_bytes (ftc_nonce r))
      in and_then (validate_request_time (ftc_valid_until r) now) (\<lambda>_.
      and_then (to_i64 now) (\<lambda>_.
      and_then (spec_key C (fst \<circ> snd) q A) (\<lambda>k.
      and_then (ensure (verify C k (fetch_signing_bytes r) (ftc_signature r)) Unauthorized) (\<lambda>_.
      and_then (to_i64 (ftc_valid_until r)) (\<lambda>d.
      and_then (ensure (spent A n = None) Unauthorized) (\<lambda>_.
      and_then (envelopes_of_rows C (ftc_queue_id r) (queue A q)) (\<lambda>envs.
      Inr (envs, A\<lparr>spent := (spent A)(n \<mapsto> d)\<rparr>)))))))))"

definition spec_acknowledge ::
    "('kp, 'pk, 'sig) crypto \<Rightarrow> 'sig ack_request \<Rightarrow> u64 \<Rightarrow> abs_relay \<Rightarrow>
     (ack_outcome \<times> abs_relay) result" where
  "spec_acknowledge C r now A =
     (let q = queue_id_bytes (ack_queue_id r); m = message_id_bytes (ack_message_id r)
      in and_then (validate_request_time (ack_valid_until r) now) (\<lambda>_.
      and_then (to_i64 now) (\<lambda>_.
      and_then (spec_key C (fst \<circ> snd) q A) (\<lambda>k.
      and_then (ensure (verify C k (ack_signing_bytes r) (ack_signature r)) Unauthorized) (\<lambda>_.
      case find (\<lambda>x. ms_message_id x = m) (queue A q) of
        None \<Rightarrow> and_then (ensure (gone A (q, m) \<noteq> None) MessageNotFound) (\<lambda>_.
          Inr (AlreadyDeleted, A))
      | Some x \<Rightarrow>
          and_then (ensure (digest C (ms_ciphertext x) = ack_packet_hash r) Unauthorized) (\<lambda>_.
          and_then (to_i64 (u64_saturating_add now TOMBSTONE_TTL_SECONDS)) (\<lambda>d.
          Inr (Deleted, A\<lparr>
            queue := (queue A)(q := filter (\<lambda>x. ms_message_id x \<noteq> m) (queue A q)),
            gone := (gone A)((q, m) \<mapsto> d)\<rparr>))))))))"

definition spec_delete_mailbox ::
    "('kp, 'pk, 'sig) crypto \<Rightarrow> 'sig delete_mailbox_request \<Rightarrow> u64 \<Rightarrow> abs_relay \<Rightarrow>
     (bool \<times> abs_relay) result" where
  "spec_delete_mailbox C r now A =
     (let q = queue_id_bytes (del_queue_id r); n = (q, ''manage'', nonce_bytes (del_nonce r))
      in and_then (validate_request_time (del_valid_until r) now) (\<lambda>_.
      and_then (to_i64 now) (\<lambda>_.
      and_then (spec_key C (snd \<circ> snd) q A) (\<lambda>k.
      and_then (ensure (verify C k (delete_signing_bytes r) (del_signature r)) Unauthorized) (\<lambda>_.
      and_then (to_i64 (del_valid_until r)) (\<lambda>_.
      and_then (ensure (spent A n = None) Unauthorized) (\<lambda>_.
      Inr (True, \<lparr>
        boxes = (boxes A)(q := None),
        queue = (queue A)(q := []),
        gone = (\<lambda>k. if fst k = q then None else gone A k),
        spent = (\<lambda>k. if fst k = q then None else spent A k),
        retired = insert (digest C q) (retired A)\<rparr>))))))))"

section \<open>Views\<close>

text \<open>A run of a program, seen at a time: its result and the view of the committed image.\<close>

definition run_view :: "int \<Rightarrow> (relay, 'a) prog \<Rightarrow> relay \<Rightarrow> ('a \<times> abs_relay) result" where
  "run_view t m s = (case m s of
       (Inl e, _) \<Rightarrow> Inl e
     | (Inr x, s') \<Rightarrow> Inr (x, view t (durable s')))"

lemma live_deadline_None_iff:
  "live_deadline key deadline t k rows = None \<longleftrightarrow>
     \<not> has_key key k (filter (\<lambda>r. t < deadline r) rows)"
  by (auto simp: live_deadline_def find_None_iff has_key_iff)

lemma live_deadline_filter [simp]:
  "live_deadline key deadline t k (filter (\<lambda>r. t < deadline r) rows) =
     live_deadline key deadline t k rows"
  unfolding live_deadline_def by (induction rows) auto

lemma live_queue_filter [simp]:
  "live_queue t q (filter (\<lambda>r. t < ms_expires_at r) rows) = live_queue t q rows"
  unfolding live_queue_def by (auto intro: filter_cong)

lemma view_purge [simp]: "view t (purge_db t db) = view t db"
  by (simp add: view_def messages_table.sweep_rows tombstones_table.sweep_rows
      request_nonces_table.sweep_rows)

lemma find_filter: "find P (filter Q xs) = find (\<lambda>x. Q x \<and> P x) xs"
  by (induction xs) auto

lemma select_message_purge:
  "select_message q m (purge_db t db) =
     find (\<lambda>x. ms_message_id x = message_id_bytes m) (queue (view t db) (queue_id_bytes q))"
  by (simp add: select_message_def messages_table.sweep_rows view_def live_queue_def find_filter
      message_key_def conj_commute conj_left_commute conj_ac)

lemma stored_key_view:
  assumes "relay_inv C db"
  shows "stored_key C mb_send_key q db = spec_key C fst q (view t db)"
    and "stored_key C mb_receive_key q db = spec_key C (fst \<circ> snd) q (view t db)"
    and "stored_key C mb_manage_key q db = spec_key C (snd \<circ> snd) q (view t db)"
  using assms
  by (auto simp: stored_key_def spec_key_def view_def mailbox_keys_def relay_inv_def
      mailbox_inv_def mailbox_check_def ensure_def ok_or_def dest!: find_SomeD split: option.split)

lemma tombstoned_purge:
  "list_ex (\<lambda>r. tombstone_key r = k \<and> t < ts_delete_after r) (tombstones (purge_db t db)) \<longleftrightarrow>
     gone (view t db) k \<noteq> None"
  by (auto simp: view_def live_deadline_None_iff has_key_iff list_ex_iff
      tombstones_table.sweep_rows)

lemma view_insert_message:
  assumes "t < ms_expires_at r"
  shows "view t (db\<lparr>messages := messages db @ [r]\<rparr>) =
    (view t db)\<lparr>queue := (queue (view t db))(ms_queue_id r := queue (view t db) (ms_queue_id r) @ [r])\<rparr>"
  using assms by (auto simp: view_def live_queue_def)

lemma has_mailbox_view: "has_mailbox db q \<longleftrightarrow> boxes (view t db) q \<noteq> None"
  by (auto simp: has_mailbox_def view_def find_None_has_key)

lemma validate_message_expiry_iff:
  "validate_message_expiry e now = Inr u \<longleftrightarrow>
     now < e \<and> e \<le> u64_saturating_add now MAX_MESSAGE_TTL_SECONDS"
  by (auto simp: validate_message_expiry_def not_le not_less)

lemma validate_request_time_iff:
  "validate_request_time v now = Inr u \<longleftrightarrow> now < v \<and> v \<le> u64_saturating_add now (5 * 60)"
  by (auto simp: validate_request_time_def not_le not_less)

lemma to_i64_Inr_iff: "to_i64 v = Inr i \<longleftrightarrow> uint v < 2 ^ 63 \<and> i = uint v"
  by (auto simp: to_i64_def ok_or_eq_Inr_iff i64_try_from_Some_iff)

lemma to_i64_uint: "to_i64 v = Inr i \<Longrightarrow> i = uint v"
  by (simp add: to_i64_Inr_iff)

lemma stored_key_purge [simp]: "stored_key C sel q (purge_db t db) = stored_key C sel q db"
  by (simp add: stored_key_def)

lemma boxes_find: "boxes (view t db) q = Some ks \<Longrightarrow> has_mailbox db q"
  by (simp add: has_mailbox_view [of db q t])

lemma spec_key_Inr: "spec_key C sel q A = Inr k \<Longrightarrow> \<exists>ks. boxes A q = Some ks"
  by (auto simp: spec_key_def result_simps)

lemma insert_message_view:
  assumes "boxes (view t db) (ms_queue_id r) \<noteq> None"
    and "find (\<lambda>x. ms_message_id x = ms_message_id r) (queue (view t db) (ms_queue_id r)) = None"
    and "message_check r"
  shows "insert_message r (purge_db t db) =
    Inr ((), (purge_db t db)\<lparr>messages := messages (purge_db t db) @ [r]\<rparr>)"
proof -
  have "\<not> has_key message_key (message_key r) (messages (purge_db t db))"
    using assms(2)
    by (auto simp: view_def live_queue_def find_None_iff has_key_iff message_key_def
        messages_table.sweep_rows)
  then show ?thesis
    using assms(1,3) by (simp add: insert_message_def insert_row_def has_mailbox_view [of db _ t])
qed

end
