(* ===== verification/Relay_Refinement.thy ===== *)
theory Relay_Refinement
  imports Relay_Spec
begin

text \<open>
  The refinement of the specification by the relay's operations. \<open>run_view\<close> turns a program
  into an expression of the error sum by rewriting; the expression is then the specification.
\<close>

section \<open>Runs as results\<close>

text \<open>\<open>run_view\<close> maps a program without failing calls to the error sum, step by step.\<close>

lemma run_attempt:
  "attempt m f s = f x s' \<Longrightarrow> run_view t (attempt m f) s = run_view t (f x) s'"
  by (simp add: run_view_def)

lemma run_basic [run_simps]:
  "run_view t (ret x) s = Inr (x, view t (durable s))"
  "run_view t (throw e) s = Inl e"
  "run_view t (if b then throw e else m) s = and_then (ensure (\<not> b) e) (\<lambda>_. run_view t m s)"
  "run_view t (if b then m else throw e) s = and_then (ensure b e) (\<lambda>_. run_view t m s)"
  "run_view t (case v of None \<Rightarrow> m | Some x \<Rightarrow> f x) s =
     (case v of None \<Rightarrow> run_view t m s | Some x \<Rightarrow> run_view t (f x) s)"
  by (simp_all add: run_view_def ret_def throw_def ensure_def split: option.split)

lemma run_pure [run_simps]:
  "run_view t (attempt (pure_result r) f) s = and_then r (\<lambda>x. run_view t (f x) s)"
  by (cases r) (simp_all add: run_view_def sql_simps)

lemma run_push_event [run_simps]:
  "run_view t (attempt (push_event e) f) s =
     run_view t (f ()) (s\<lparr>audit_events := audit_events s @ [e]\<rparr>)"
  by (simp add: run_attempt sql_simps)

lemma run_calls [run_simps]:
  assumes "calls s = []"
  shows "run_view t (attempt begin_immediate f) s = run_view t (f ()) (s\<lparr>working := durable s\<rparr>)"
    and "run_view t (attempt (query g) f') s = run_view t (f' (g (working s))) s"
    and "run_view t (attempt commit f) s = run_view t (f ()) (s\<lparr>durable := working s\<rparr>)"
  using assms by (simp_all add: run_attempt sql_simps)

lemma run_execute [run_simps]:
  assumes "calls s = []"
  shows "run_view t (attempt (execute g) f) s =
    and_then (g (working s)) (\<lambda>(x, db). run_view t (f x) (s\<lparr>working := db\<rparr>))"
  using assms by (simp add: run_view_def sql_simps split: sum.split prod.split)

lemma run_purge [run_simps]:
  assumes "calls s = []"
  shows "run_view t (attempt (purge_expired_in now) f) s =
    and_then (to_i64 now) (\<lambda>_. run_view t
      (f (length (filter (\<lambda>r. ms_expires_at r \<le> uint now) (messages (working s)))))
      (s\<lparr>working := purge_db (uint now) (working s)\<rparr>))"
  using assms by (cases "to_i64 now") (auto simp: run_view_def sql_simps dest: to_i64_uint)

lemma run_mailbox_key [run_simps]:
  assumes "calls s = []" and "mailbox_column column = Some sel"
  shows "run_view t (attempt (mailbox_key C q column) f) s =
    and_then (stored_key C sel (queue_id_bytes q) (working s)) (\<lambda>k. run_view t (f k) s)"
  using assms by (simp add: run_view_def sql_simps split: sum.split)

lemma run_assoc [run_simps]:
  "run_view t (attempt (attempt m f) g) s = run_view t (attempt m (\<lambda>x. attempt (f x) g)) s"
  by (simp add: run_view_def attempt_assoc)

lemma to_i64_then: "and_then (to_i64 v) f = and_then (ensure (uint v < 2 ^ 63) Storage) (\<lambda>_. f (uint v))"
  by (simp add: to_i64_def i64_try_from_def ensure_def)

lemma and_then_window:
  "and_then (validate_message_expiry e now) f =
     (if now < e \<and> e \<le> u64_saturating_add now MAX_MESSAGE_TTL_SECONDS then f () else Inl InvalidExpiry)"
  "and_then (validate_request_time v now) f =
     (if now < v \<and> v \<le> u64_saturating_add now (5 * 60) then f () else Inl RequestExpired)"
  by (auto simp: validate_message_expiry_def validate_request_time_def not_le not_less)

lemmas run_cong = if_cong option.case_cong

lemmas run_eval = run_simps Let_def to_i64_then not_less select_message_purge tombstoned_purge
  spec_key_def and_then_assoc and_then_option and_then_ok_or and_then_ensure and_then_window

lemma insert_request_nonce_view:
  assumes "has_mailbox db (rn_queue_id r)" and "request_nonce_check r"
  shows "insert_request_nonce r (purge_db t db) = Inr
    (if spent (view t db) (request_nonce_key r) = None
     then (1, (purge_db t db)\<lparr>request_nonces := request_nonces (purge_db t db) @ [r]\<rparr>)
     else (0, purge_db t db))"
  using assms by (auto simp: insert_request_nonce_def insert_or_ignore_def view_def live_deadline_None_iff
     request_nonces_table.sweep_rows)

lemma run_record_nonce:
  assumes "calls s = []" and "working s = purge_db t db" and "has_mailbox db (queue_id_bytes q)" and "nonce_ok n"
  shows "run_view t' (attempt (record_nonce q role n d) f) s =
    and_then (to_i64 d) (\<lambda>i.
    and_then (ensure (spent (view t db) (queue_id_bytes q, role, nonce_bytes n) = None) Unauthorized) (\<lambda>_.
    run_view t' (f ()) (s\<lparr>working := (purge_db t db)\<lparr>request_nonces := request_nonces (purge_db t db) @
      [\<lparr>rn_queue_id = queue_id_bytes q, rn_role = role, rn_nonce = nonce_bytes n, rn_delete_after = i\<rparr>]\<rparr>\<rparr>)))"
  using assms 
  by (cases "to_i64 d") (auto simp: record_nonce_def insert_request_nonce_view request_nonce_check_def nonce_ok_def
     request_nonce_key_def run_view_def sql_simps ensure_def attempt_throw)

lemma enqueue_refines:
  assumes "calls s = []" and inv: "relay_inv C (durable s)" and laws: "crypto_laws C"
    and "message_id_ok (snd_message_id r)"
  shows "run_view (uint now) (enqueue C r now) s = spec_enqueue C r now (view (uint now) (durable s))"
  using assms(1,4) laws
  by (simp add: enqueue_def spec_enqueue_def run_eval stored_key_view [OF inv, of _ "uint now"]
   insert_message_view message_check_def message_id_ok_def word_less_def
     crypto_laws_sig view_insert_message cong: run_cong)

lemma live_deadline_snoc:
  "live_deadline key deadline t k (rows @ [r]) =
     (case live_deadline key deadline t k rows of
        Some d \<Rightarrow> Some d
      | None \<Rightarrow> if key r = k \<and> t < deadline r then Some (deadline r) else None)"
  unfolding live_deadline_def by (induction rows) auto

lemma view_add_nonce:
  assumes "t < rn_delete_after r" and "spent (view t db) (request_nonce_key r) = None"
  shows "view t (db\<lparr>request_nonces := request_nonces db @ [r]\<rparr>) =
    (view t db)\<lparr>spent := (spent (view t db))(request_nonce_key r \<mapsto> rn_delete_after r)\<rparr>"
  using assms by (auto simp: view_def live_deadline_snoc fun_eq_iff split: option.split)

lemma fetch_rows_view:
  "filter (\<lambda>r. ms_queue_id r = q \<and> t < ms_expires_at r) (messages (purge_db t db)) =
     queue (view t db) q"
  by (auto simp: view_def live_queue_def messages_table.sweep_rows intro: filter_cong)

lemma fetch_refines:
  assumes "calls s = []" and inv: "relay_inv C (durable s)"
    and "nonce_ok (ftc_nonce r)"
  shows "run_view (uint now) (fetch C r now) s = spec_fetch C r now (view (uint now) (durable s))"
  using assms(1,3)
  by (simp add: fetch_def spec_fetch_def run_eval stored_key_view [OF inv, of _ "uint now"]
      run_record_nonce has_mailbox_view [of _ _ "uint now"] fetch_rows_view view_add_nonce 
      request_nonce_key_def word_less_def cong: run_cong)

lemma delete_message_eval:
  "delete_message q m db = Inr (length (filter (\<lambda>r. message_key r = (queue_id_bytes q, message_id_bytes m)) (messages db)),
     db\<lparr>messages := filter (\<lambda>r. message_key r \<noteq> (queue_id_bytes q, message_id_bytes m)) (messages db)\<rparr>)"
  by (simp add: delete_message_def delete_where_def)

lemma found_message:
  assumes inv: "relay_inv C db" 
    and found: "find (\<lambda>x. ms_message_id x = m) (queue (view t db) q) \<noteq> None"
  shows "has_mailbox db q" and "\<not> has_key tombstone_key (q, m) (tombstones (purge_db t db))"
    and "gone (view t db) (q, m) = None"
proof -
  obtain x where x: "x \<in> set (messages (purge_db t db))" and key: "message_key x = (q, m)"
    using found by (auto simp: find_None_iff view_def live_queue_def message_key_def
        messages_table.sweep_rows)
  then have "message_inv C (purge_db t db) x"
    using relay_inv_purge [OF inv] by (simp add: relay_inv_def)
  then show "has_mailbox db q" and none: "\<not> has_key tombstone_key (q, m) (tombstones (purge_db t db))"
    using key by (auto simp: message_inv_def message_key_def)
  then show "gone (view t db) (q, m) = None"
    by (simp add: view_def live_deadline_None_iff tombstones_table.sweep_rows)
qed

lemma upsert_tombstone_eval:
  assumes inv: "relay_inv C db" 
    and found: "find (\<lambda>x. ms_message_id x = message_id_bytes m) (queue (view t db) (queue_id_bytes q)) \<noteq> None"
    and "message_id_ok m"
  shows "upsert_tombstone \<lparr>ts_queue_id = queue_id_bytes q, ts_message_id = message_id_bytes m, ts_delete_after = d\<rparr>
      ((purge_db t db)\<lparr>messages := rows\<rparr>) =
    Inr ((), (purge_db t db)\<lparr>messages := rows, tombstones := tombstones (purge_db t db) @
      [\<lparr>ts_queue_id = queue_id_bytes q, ts_message_id = message_id_bytes m, ts_delete_after = d\<rparr>]\<rparr>)"
  using found_message [OF inv found] assms(3)
  by (simp add: upsert_tombstone_def upsert_row_def tombstone_key_def tombstone_check_def
      message_id_ok_def has_mailbox_def)

lemma view_acknowledged:
  assumes "t < d" and "gone (view t db) (q, m) = None"
  shows "view t ((purge_db t db)\<lparr>messages := filter (\<lambda>r. message_key r \<noteq> (q, m)) (messages (purge_db t db)),
      tombstones := tombstones (purge_db t db) @ [\<lparr>ts_queue_id = q, ts_message_id = m, ts_delete_after = d\<rparr>]\<rparr>) =
    (view t db)\<lparr>queue := (queue (view t db))(q := filter (\<lambda>x. ms_message_id x \<noteq> m) (queue (view t db) q)),
       gone := (gone (view t db))((q, m) \<mapsto> d)\<rparr>"
  using assms
  by (auto simp: view_def live_deadline_snoc tombstone_key_def live_queue_def message_key_def
    messages_table.sweep_rows tombstones_table.sweep_rows request_nonces_table.sweep_rows
    fun_eq_iff intro!: filter_cong split: option.split)

lemma has_tombstone_purge:
  "has_key tombstone_key k (tombstones (purge_db t db)) \<longleftrightarrow> gone (view t db) k \<noteq> None"
  by (simp add: view_def live_deadline_None_iff tombstones_table.sweep_rows)

lemma tombstone_deadline:
  "uint (u64_saturating_add now TOMBSTONE_TTL_SECONDS) < 2 ^ 63 \<Longrightarrow>
     uint (u64_saturating_add now TOMBSTONE_TTL_SECONDS) = uint now + 604800"
  by (simp add: uint_saturating_add TOMBSTONE_TTL_SECONDS_def)

lemma tombstone_later:
  "uint (u64_saturating_add now TOMBSTONE_TTL_SECONDS) < 2 ^ 63 \<Longrightarrow>
     uint now < uint (u64_saturating_add now TOMBSTONE_TTL_SECONDS)"
  by (subst tombstone_deadline) simp_all

lemma acknowledge_refines:
  assumes "calls s = []" and inv: "relay_inv C (durable s)"
    and "message_id_ok (ack_message_id r)"
  shows "run_view (uint now) (acknowledge C r now) s =
    spec_acknowledge C r now (view (uint now) (durable s))"
  using assms(1,3) 
  by (simp add: acknowledge_def spec_acknowledge_def run_eval stored_key_view [OF inv, of _ "uint now"]
      has_tombstone_purge delete_message_eval upsert_tombstone_eval [OF inv] view_acknowledged tombstone_later
      found_message(3) [OF inv] cong: run_cong)

lemma retire_statements:
  assumes "length hash = 32"
  shows "and_then (insert_retired_queue \<lparr>rq_queue_hash = hash, rq_retired_at = i\<rparr> db)
      (\<lambda>(x, db1). and_then (delete_mailbox_row q db1) f) =
    f (length (filter (\<lambda>r. mb_queue_id r = queue_id_bytes q) (mailboxes db)),
       retire_db hash i (queue_id_bytes q) db)"
  using assms
  by (auto simp: insert_retired_queue_def insert_or_ignore_def retired_queue_check_def
      delete_mailbox_row_def delete_where_def retire_db_def)

lemma find_mailbox_removed:
  "find (\<lambda>r. mb_queue_id r = p) (filter (\<lambda>r. mb_queue_id r \<noteq> q) rows) =
     (if p = q then None else find (\<lambda>r. mb_queue_id r = p) rows)"
  by (induction rows) auto

lemma live_deadline_removed:
  assumes "\<And>r. fst (key r) = owner r"
  shows "live_deadline key deadline t k (filter (\<lambda>r. owner r \<noteq> q) rows) =
    (if fst k = q then None else live_deadline key deadline t k rows)"
  unfolding live_deadline_def by (induction rows) (auto simp: assms)

lemma view_retire:
  "view t (retire_db hash i q db) = \<lparr>
     boxes = (boxes (view t db))(q := None),
     queue = (queue (view t db))(q := []),
     gone = (\<lambda>k. if fst k = q then None else gone (view t db) k),
     spent = (\<lambda>k. if fst k = q then None else spent (view t db) k),
     retired = insert hash (retired (view t db))\<rparr>"
  by (auto simp: view_def retire_db_def find_mailbox_removed live_queue_def has_key_iff
      live_deadline_removed tombstone_key_def request_nonce_key_def fun_eq_iff filter_empty_conv
      intro!: filter_cong)

lemma retire_db_own_nonce:
  "rn_queue_id r = q \<Longrightarrow>
     retire_db hash i q (db\<lparr>request_nonces := request_nonces db @ [r]\<rparr>) = retire_db hash i q db"
  by (simp add: retire_db_def)

lemma one_mailbox:
  assumes "relay_inv C db" and "boxes (view t db) q \<noteq> None"
  shows "length (filter (\<lambda>r. mb_queue_id r = q) (mailboxes db)) = 1"
  using assms has_mailbox_view [of db q t]
  by (intro filter_unique_key) (simp_all add: relay_inv_def keys_unique_def has_mailbox_def)

lemma delete_mailbox_refines:
  assumes "calls s = []" and inv: "relay_inv C (durable s)" and laws: "crypto_laws C"
    and "nonce_ok (del_nonce r)"
  shows "run_view (uint now) (delete_mailbox C r now) s =
    spec_delete_mailbox C r now (view (uint now) (durable s))"
  using assms(1,4) laws
  by (simp add: delete_mailbox_def spec_delete_mailbox_def run_eval stored_key_view [OF inv, of _ "uint now"]
      run_record_nonce has_mailbox_view [of _ _ "uint now"] retire_statements crypto_laws_digest_length
      retire_db_own_nonce view_retire one_mailbox [OF inv, where t = "uint now"] cong: run_cong)

lemma boxes_view: "boxes (view t db) q = map_option mailbox_keys (find (\<lambda>r. mb_queue_id r = q) (mailboxes db))"
  by (simp add: view_def)

lemma retired_view: "has_key rq_queue_hash h (retired_queues db) \<longleftrightarrow> h \<in> retired (view t db)"
  by (auto simp: view_def has_key_iff)

lemma view_registration_nonces: "view t (db\<lparr>registration_nonces := rows\<rparr>) = view t db"
  by (simp add: view_def)

lemma fresh_registration_nonce:
  assumes inv: "relay_inv C db" and "\<not> has_mailbox db (gn_queue_id r)" and "\<not> is_retired C db (gn_queue_id r)"
    and "registration_nonce_check r"
  shows "insert_registration_nonce r (purge_db t db) = Inr (1, (purge_db t db)\<lparr>registration_nonces :=
    registration_nonces (purge_db t db) @ [r]\<rparr>)"
proof -
  have "\<not> has_key registration_nonce_key (registration_nonce_key r) (registration_nonces (purge_db t db))"
    using relay_inv_purge [OF inv, of t] assms(2,3)
    by (auto simp: relay_inv_def registration_nonce_inv_def has_key_iff registration_nonce_key_def is_retired_def)
  then show ?thesis
    using assms(4) by (simp add: insert_registration_nonce_def insert_or_ignore_def)
qed

lemma insert_mailbox_eval:
  "mailbox_check r \<Longrightarrow> \<not> has_mailbox db (mb_queue_id r) \<Longrightarrow>
     insert_mailbox r db = Inr ((), db\<lparr>mailboxes := mailboxes db @ [r]\<rparr>)"
  by (simp add: insert_mailbox_def insert_row_def has_mailbox_def)

lemma view_insert_mailbox:
  assumes "\<not> has_mailbox db (mb_queue_id r)"
  shows "view t (db\<lparr>mailboxes := mailboxes db @ [r]\<rparr>) =
    (view t db)\<lparr>boxes := (boxes (view t db))(mb_queue_id r \<mapsto> mailbox_keys r)\<rparr>"
proof -
  have "find (\<lambda>x. mb_queue_id x = q) (mailboxes db @ [r]) =
      (if q = mb_queue_id r then Some r else find (\<lambda>x. mb_queue_id x = q) (mailboxes db))" for q
    using assms by (auto simp: find_snoc has_mailbox_def find_None_has_key has_key_iff
      split: option.split dest!: find_SomeD intro: sym)
  then show ?thesis
    by (auto simp: view_def fun_eq_iff)
qed


lemma registration_retry:
  "and_then (insert_registration_nonce r db) (\<lambda>(x, db'). Inr (b, view t db')) = Inr (b, view t db)"
  by (simp add: insert_registration_nonce_def view_registration_nonces split: prod.split)

lemma boxes_keep: "boxes A q = Some ks \<Longrightarrow> A\<lparr>boxes := (boxes A)(q \<mapsto> ks)\<rparr> = A"
  by (cases A) (auto simp: fun_eq_iff)

lemma view_new_mailbox:
  assumes "\<not> has_mailbox db (mb_queue_id r)"
  shows "view t ((purge_db t db)\<lparr>registration_nonces := rows, mailboxes := mailboxes db @ [r]\<rparr>) =
    (view t db)\<lparr>boxes := (boxes (view t db))(mb_queue_id r \<mapsto> mailbox_keys r)\<rparr>"
  using view_insert_mailbox [of "(purge_db t db)\<lparr>registration_nonces := rows\<rparr>" r t] assms
  by (simp add: has_mailbox_def view_registration_nonces)

lemma register_refines:
  assumes "calls s = []" and inv: "relay_inv C (durable s)" and laws: "crypto_laws C"
    and "queue_id_ok (reg_queue_id r)" and "nonce_ok (reg_nonce r)"
  shows "run_view (uint now) (register C r now) s =
    spec_register C r now (view (uint now) (durable s))"
proof (cases "find (\<lambda>x. mb_queue_id x = queue_id_bytes (reg_queue_id r)) (mailboxes (durable s))")
  case None
  then have none: "\<not> has_mailbox (durable s) (queue_id_bytes (reg_queue_id r))"
    by (simp add: has_mailbox_def find_None_has_key)
  then have ins: "insert_mailbox row ((purge_db (uint now) (durable s))\<lparr>registration_nonces := rows\<rparr>) =
      Inr ((), (purge_db (uint now) (durable s))\<lparr>registration_nonces := rows,
        mailboxes := mailboxes (durable s) @ [row]\<rparr>)"
    if "mailbox_check row" "mb_queue_id row = queue_id_bytes (reg_queue_id r)" for row rows
    using that by (simp add: insert_mailbox_eval has_mailbox_def)
  show ?thesis
    using assms(1,4,5) laws None none
    by (simp add: register_def spec_register_def run_eval retired_view [where t = "uint now"] boxes_view
        ins fresh_registration_nonce [OF inv] view_new_mailbox mailbox_check_def mailbox_keys_def
        registration_nonce_check_def queue_id_ok_def nonce_ok_def crypto_laws_pk is_retired_def
        cong: run_cong)
next
  case (Some x)
  then show ?thesis
    using assms(1)
    by (auto simp: register_def spec_register_def run_eval retired_view [where t = "uint now"]
        boxes_view registration_retry boxes_keep mailbox_keys_def cong: run_cong)
qed

end
