(* ===== verification/Relay_Contract.thy ===== *)
theory Relay_Contract
  imports Relay_Refinement
begin

text \<open>
  The contract of the five relay operations that carry a signed request: the locale
  \<open>relay_operation\<close> extends \<open>transactional\<close> by the refinement of a specification and by the
  data invariant, and is interpreted on each of them. Its lemmas hold for every pattern of
  failing database calls.
\<close>

section \<open>What the operations commit\<close>

definition message_row_of :: "('kp, 'pk, 'sig) crypto \<Rightarrow> 'sig send_request \<Rightarrow> int \<Rightarrow> message_row" where
  "message_row_of C r e =
     \<lparr>ms_queue_id = queue_id_bytes (snd_queue_id r),
      ms_message_id = message_id_bytes (snd_message_id r),
      ms_ciphertext = packet_bytes (snd_packet r), ms_expires_at = e,
      ms_sender_signature = sig_bytes C (snd_signature r)\<rparr>"

lemma enqueue_success:
  assumes "enqueue C r now s = (Inr out, s')" and "calls s = []"
  shows "\<exists>k. packet_bytes (snd_packet r) \<noteq> [] \<and>
      length (packet_bytes (snd_packet r)) \<le> MAX_PACKET_BYTES \<and>
      uint (snd_expires_at r) < 2 ^ 63 \<and>
      stored_key C mb_send_key (queue_id_bytes (snd_queue_id r)) (durable s) = Inr k \<and>
      gone (view (uint now) (durable s))
        (queue_id_bytes (snd_queue_id r), message_id_bytes (snd_message_id r)) = None \<and>
      (durable s' = purge_db (uint now) (durable s) \<or>
       insert_message (message_row_of C r (uint (snd_expires_at r)))
         (purge_db (uint now) (durable s)) = Inr ((), durable s'))"
  using assms
  by (auto simp: enqueue_def sql_simps message_row_of_def to_i64_Inr_iff tombstoned_purge
      split: if_splits sum.splits option.splits prod.splits)

lemma stored_key_mailbox: "stored_key C sel q db = Inr k \<Longrightarrow> has_mailbox db q"
  by (auto simp: stored_key_def and_then_ok_or has_mailbox_def has_key_iff dest!: find_SomeD
      split: option.splits)

lemma enqueue_keeps_inv:
  assumes inv: "relay_inv C (durable s)" and laws: "crypto_laws C" and "calls s = []"
    and "message_id_ok (snd_message_id r)"
    and run: "enqueue C r now s = (Inr out, s')"
  shows "relay_inv C (durable s')"
proof -
  let ?db = "purge_db (uint now) (durable s)" and ?row = "message_row_of C r (uint (snd_expires_at r))"
  have "message_inv C ?db ?row" if "insert_message ?row ?db = Inr ((), durable s')"
    using enqueue_success [OF run \<open>calls s = []\<close>] laws assms(4)
    by (auto simp: message_inv_def message_row_of_def message_check_def message_id_ok_def crypto_laws_sig
       message_key_def has_tombstone_purge dest: stored_key_mailbox)
  then show ?thesis
    using enqueue_success [OF run \<open>calls s = []\<close>] relay_inv_insert_message [OF relay_inv_purge [OF inv]]
      relay_inv_purge [OF inv] by metis
qed

lemma register_success:
  assumes "register C r now s = (Inr out, s')" and "calls s = []"
  shows "\<exists>n db1. insert_registration_nonce
      \<lparr>gn_queue_id = queue_id_bytes (reg_queue_id r), gn_nonce = nonce_bytes (reg_nonce r),
       gn_delete_after = uint (reg_valid_until r)\<rparr> (purge_db (uint now) (durable s)) = Inr (n, db1) \<and>
     (out \<and> insert_mailbox \<lparr>mb_queue_id = queue_id_bytes (reg_queue_id r),
            mb_send_key = pk_bytes C (reg_send_key r),
            mb_receive_key = pk_bytes C (reg_receive_key r),
            mb_manage_key = pk_bytes C (reg_manage_key r), mb_created_at = uint now\<rparr> db1 = Inr ((), durable s') \<or>
      \<not> out \<and> has_mailbox (durable s) (queue_id_bytes (reg_queue_id r)) \<and> durable s' = db1)"
  using assms
  by (auto simp: register_def sql_simps to_i64_Inr_iff Let_def has_mailbox_def has_key_iff
      split: if_splits sum.splits option.splits prod.splits dest!: find_SomeD)

lemma fetch_success:
  assumes "fetch C r now s = (Inr out, s')" and "calls s = []"
  shows "\<exists>n k. stored_key C mb_receive_key (queue_id_bytes (ftc_queue_id r)) (durable s) = Inr k \<and>
     insert_request_nonce \<lparr>rn_queue_id = queue_id_bytes (ftc_queue_id r), rn_role = ''receive'',
       rn_nonce = nonce_bytes (ftc_nonce r), rn_delete_after = uint (ftc_valid_until r)\<rparr>
       (purge_db (uint now) (durable s)) = Inr (n, durable s')"
  using assms
  by (auto simp: fetch_def record_nonce_def sql_simps to_i64_Inr_iff
      split: if_splits sum.splits option.splits prod.splits)

lemma acknowledge_success:
  assumes "acknowledge C r now s = (Inr out, s')" and "calls s = []"
  shows "\<exists>k. stored_key C mb_receive_key (queue_id_bytes (ack_queue_id r)) (durable s) = Inr k \<and>
    (durable s' = purge_db (uint now) (durable s) \<or>
     (\<exists>n d db1. delete_message (ack_queue_id r) (ack_message_id r) (purge_db (uint now) (durable s)) = Inr (n, db1) \<and>
       upsert_tombstone \<lparr>ts_queue_id = queue_id_bytes (ack_queue_id r),
         ts_message_id = message_id_bytes (ack_message_id r), ts_delete_after = d\<rparr> db1 = Inr ((), durable s')))"
  using assms
  by (auto simp: acknowledge_def sql_simps to_i64_Inr_iff delete_message_eval
      split: if_splits sum.splits option.splits prod.splits)

lemma delete_mailbox_success:
  assumes "delete_mailbox C r now s = (Inr out, s')" and "calls s = []" and "crypto_laws C"
  shows "\<exists>n k db1. stored_key C mb_manage_key (queue_id_bytes (del_queue_id r)) (durable s) = Inr k \<and>
     insert_request_nonce \<lparr>rn_queue_id = queue_id_bytes (del_queue_id r), rn_role = ''manage'',
       rn_nonce = nonce_bytes (del_nonce r), rn_delete_after = uint (del_valid_until r)\<rparr>
       (purge_db (uint now) (durable s)) = Inr (n, db1) \<and>
     durable s' = retire_db (digest C (queue_id_bytes (del_queue_id r))) (uint now)
       (queue_id_bytes (del_queue_id r)) db1"
  using assms
  by (auto simp: delete_mailbox_def record_nonce_def sql_simps to_i64_Inr_iff Let_def crypto_laws_digest_length
      split: if_splits sum.splits option.splits prod.splits dest!: delete_mailbox_statements(1) [rotated])

lemma register_keeps_inv:
  assumes inv: "relay_inv C (durable s)" and laws: "crypto_laws C" and "calls s = []"
    and ids: "queue_id_ok (reg_queue_id r)" "nonce_ok (reg_nonce r)"
    and run: "register C r now s = (Inr out, s')"
  shows "relay_inv C (durable s')"
proof -
  let ?db = "purge_db (uint now) (durable s)"
  let ?q = "queue_id_bytes (reg_queue_id r)"
  let ?n = "\<lparr>gn_queue_id = ?q, gn_nonce = nonce_bytes (reg_nonce r),
    gn_delete_after = uint (reg_valid_until r)\<rparr>"
  let ?box = "\<lparr>mb_queue_id = ?q, mb_send_key = pk_bytes C (reg_send_key r),
    mb_receive_key = pk_bytes C (reg_receive_key r),
    mb_manage_key = pk_bytes C (reg_manage_key r), mb_created_at = uint now\<rparr>"
  have box: "mailbox_inv C ?box"
    using laws ids by (simp add: mailbox_inv_def mailbox_check_def queue_id_ok_def crypto_laws_pk)
  have check: "registration_nonce_check ?n"
    using ids by (simp add: registration_nonce_check_def queue_id_ok_def nonce_ok_def)
  obtain n db1 where nonce: "insert_registration_nonce ?n ?db = Inr (n, db1)"
    and eff: "insert_mailbox ?box db1 = Inr ((), durable s') \<or>
      has_mailbox (durable s) ?q \<and> durable s' = db1"
    using register_success [OF run \<open>calls s = []\<close>] by auto
  show ?thesis
  proof (cases "has_mailbox (durable s) ?q")
    case True
    then have "relay_inv C db1"
      using relay_inv_registration_nonce [OF relay_inv_purge [OF inv] _ nonce] check
      by (simp add: registration_nonce_inv_def)
    then show ?thesis
      using eff relay_inv_insert_mailbox [OF _ box] by auto
  next
    case False
    then have ins: "insert_mailbox ?box db1 = Inr ((), durable s')"
      using eff by blast
    let ?db0 = "?db\<lparr>mailboxes := mailboxes ?db @ [?box]\<rparr>"
    have "relay_inv C ?db0"
      using relay_inv_insert_mailbox [OF relay_inv_purge [OF inv] box] False box
      by (simp add: insert_mailbox_eval mailbox_inv_def)
    moreover have "insert_registration_nonce ?n ?db0 = Inr (n, durable s')"
      using nonce ins False box
      by (auto simp: insert_registration_nonce_def insert_mailbox_eval mailbox_inv_def
          has_mailbox_def Let_def split: prod.splits dest!: sym [of _ "durable s'"]
          intro!: relay_db.equality)
    moreover have "registration_nonce_inv C ?db0 ?n"
      using check by (simp add: registration_nonce_inv_def has_mailbox_def)
    ultimately show ?thesis
      using relay_inv_registration_nonce by blast
  qed
qed

lemma relay_inv_nonce_purged:
  assumes inv: "relay_inv C db" and "stored_key C sel q db = Inr k" and "length n = 16"
    and "role = ''receive'' \<or> role = ''manage''"
    and "insert_request_nonce \<lparr>rn_queue_id = q, rn_role = role, rn_nonce = n, rn_delete_after = d\<rparr>
      (purge_db t db) = Inr (k', db')"
  shows "relay_inv C db'"
  using assms stored_key_mailbox [OF assms(2)]
  by (intro relay_inv_request_nonce [OF relay_inv_purge [OF inv, of t] _ assms(5)])
    (auto simp: request_nonce_inv_def request_nonce_check_def)

lemma fetch_keeps_inv:
  assumes "relay_inv C (durable s)" and "calls s = []" and "nonce_ok (ftc_nonce r)"
    and "fetch C r now s = (Inr out, s')"
  shows "relay_inv C (durable s')"
  using fetch_success [OF assms(4,2)] assms(3)
  by (auto simp: nonce_ok_def intro: relay_inv_nonce_purged [OF assms(1)])

lemma delete_mailbox_keeps_inv:
  assumes "relay_inv C (durable s)" and laws: "crypto_laws C" and "calls s = []"
    and "nonce_ok (del_nonce r)" and "delete_mailbox C r now s = (Inr out, s')"
  shows "relay_inv C (durable s')"
  using delete_mailbox_success [OF assms(5,3) laws] assms(4)
  by (auto simp: nonce_ok_def intro!: relay_inv_retire [OF _ laws]
      intro: relay_inv_nonce_purged [OF assms(1)])

lemma acknowledge_keeps_inv:
  assumes inv: "relay_inv C (durable s)" and "calls s = []" and "message_id_ok (ack_message_id r)"
    and run: "acknowledge C r now s = (Inr out, s')"
  shows "relay_inv C (durable s')"
proof -
  let ?db = "purge_db (uint now) (durable s)"
  obtain k where k: "stored_key C mb_receive_key (queue_id_bytes (ack_queue_id r)) (durable s) = Inr k"
    and eff: "durable s' = ?db \<or>
     (\<exists>n d db1. delete_message (ack_queue_id r) (ack_message_id r) ?db = Inr (n, db1) \<and>
       upsert_tombstone \<lparr>ts_queue_id = queue_id_bytes (ack_queue_id r),
         ts_message_id = message_id_bytes (ack_message_id r), ts_delete_after = d\<rparr> db1 = Inr ((), durable s'))"
    using acknowledge_success [OF run \<open>calls s = []\<close>] by auto
  have "relay_inv C (durable s')"
    if del: "delete_message (ack_queue_id r) (ack_message_id r) ?db = Inr (n, db1)"
      and up: "upsert_tombstone \<lparr>ts_queue_id = queue_id_bytes (ack_queue_id r),
         ts_message_id = message_id_bytes (ack_message_id r), ts_delete_after = d\<rparr> db1 = Inr ((), durable s')"
    for n d db1
    using relay_inv_delete_message [OF relay_inv_purge [OF inv] del] delete_message_removes [OF del]
      stored_key_mailbox [OF k] assms(3)
    by (intro relay_inv_upsert_tombstone [OF _ _ _ up])
      (simp_all add: tombstone_inv_def tombstone_check_def tombstone_key_def message_id_ok_def)
  then show ?thesis
    using eff relay_inv_purge [OF inv] by auto
qed

section \<open>The contract\<close>

locale relay_operation =
  transactional operation for operation :: "relay \<Rightarrow> 'a result \<times> relay" +
  fixes C :: "('kp, 'pk, 'sig) crypto"
    and now :: u64
    and well_formed :: bool
    and spec :: "abs_relay \<Rightarrow> ('a \<times> abs_relay) result"
  assumes refines: "well_formed \<Longrightarrow> calls s = [] \<Longrightarrow> relay_inv C (durable s) \<Longrightarrow>
      run_view (uint now) operation s = spec (view (uint now) (durable s))"
    and keeps_inv: "well_formed \<Longrightarrow> calls s = [] \<Longrightarrow> relay_inv C (durable s) \<Longrightarrow>
      operation s = (Inr x, s') \<Longrightarrow> relay_inv C (durable s')"
begin

lemma success_spec:
  assumes "well_formed" and "relay_inv C (durable s)" and run: "operation s = (Inr x, s')"
  shows "spec (view (uint now) (durable s)) = Inr (x, view (uint now) (durable s'))"
  using refines [of "s\<lparr>calls := []\<rparr>"] success_without_faults [OF run] assms(1,2)
  by (simp add: run_view_def)

lemma error_spec:
  assumes "well_formed" and "relay_inv C (durable s)"
    and run: "operation s = (Inl e, s')" and "e \<noteq> Storage"
  shows "spec (view (uint now) (durable s)) = Inl e"
  using refines [of "s\<lparr>calls := []\<rparr>"] result_without_faults [OF run] assms(1,2,4)
  by (simp add: run_view_def)

text \<open>Whatever the error, the committed image is the old one or the one the specification asks for.\<close>

lemma error_old_or_spec:
  assumes "well_formed" and "relay_inv C (durable s)" and run: "operation s = (Inl e, s')"
  shows "durable s' = durable s \<or>
    (\<exists>x. spec (view (uint now) (durable s)) = Inr (x, view (uint now) (durable s')))"
  using error_old_or_done [OF run] refines [of "s\<lparr>calls := []\<rparr>"] assms(1,2)
  by (auto simp: run_view_def dest: sym)

lemma invariant_kept:
  assumes "well_formed" and inv: "relay_inv C (durable s)" and run: "operation s = (r, s')"
  shows "relay_inv C (durable s')"
proof (cases r)
  case (Inl e)
  then have "durable s' = durable s \<or>
      (\<exists>x s1. operation (s\<lparr>calls := []\<rparr>) = (Inr x, s1) \<and> durable s1 = durable s')"
    using error_old_or_done run by blast
  then show ?thesis
    using keeps_inv [of "s\<lparr>calls := []\<rparr>"] assms(1) inv by auto
next
  case (Inr x)
  then show ?thesis
    using keeps_inv [of "s\<lparr>calls := []\<rparr>" x "s'\<lparr>calls := []\<rparr>"] success_without_faults run assms(1) inv
    by simp
qed

lemma succeeds_without_faults:
  assumes "well_formed" and "relay_inv C (durable s)" and "calls s = []"
    and "spec (view (uint now) (durable s)) = Inr (x, A)"
  shows "\<exists>s'. operation s = (Inr x, s') \<and> view (uint now) (durable s') = A"
  using refines [OF assms(1,3,2)] assms(4)
  by (auto simp: run_view_def split: prod.splits sum.splits)

lemma healthy_run:
  assumes "well_formed" and "relay_inv C (durable s)" and "calls s = []"
    and "spec (view (uint now) (durable s)) = Inr (x, A)"
  obtains s' where "operation s = (Inr x, s')" "view (uint now) (durable s') = A"
    "relay_inv C (durable s')" "calls s' = []"
  using succeeds_without_faults [OF assms] keeps_inv [OF assms(1,3,2)] calls_stay_empty assms(3) by metis

lemma fails_without_faults:
  assumes "well_formed" and "relay_inv C (durable s)" and "calls s = []"
    and "spec (view (uint now) (durable s)) = Inl e"
  shows "fst (operation s) = Inl e"
  using refines [OF assms(1,3,2)] assms(4)
  by (auto simp: run_view_def split: prod.splits sum.splits)

end

interpretation register_op: relay_operation "register C r now" C now
    "crypto_laws C \<and> queue_id_ok (reg_queue_id r) \<and> nonce_ok (reg_nonce r)" "spec_register C r now"
  for C r now
  by unfold_locales (auto intro: register_refines register_keeps_inv)

interpretation enqueue_op: relay_operation "enqueue C r now" C now
    "crypto_laws C \<and> message_id_ok (snd_message_id r)" "spec_enqueue C r now" for C r now
  by unfold_locales (auto intro: enqueue_refines enqueue_keeps_inv)

interpretation fetch_op: relay_operation "fetch C r now" C now
    "nonce_ok (ftc_nonce r)" "spec_fetch C r now" for C r now
  by unfold_locales (auto intro: fetch_refines fetch_keeps_inv)

interpretation acknowledge_op: relay_operation "acknowledge C r now" C now
    "message_id_ok (ack_message_id r)" "spec_acknowledge C r now" for C r now
  by unfold_locales (auto intro: acknowledge_refines acknowledge_keeps_inv)

interpretation delete_mailbox_op: relay_operation "delete_mailbox C r now" C now
    "crypto_laws C \<and> nonce_ok (del_nonce r)" "spec_delete_mailbox C r now" for C r now
  by unfold_locales (auto intro: delete_mailbox_refines delete_mailbox_keeps_inv)

end
