(* ===== verification/Relay_History.thy ===== *)
theory Relay_History
  imports Relay_Contract
begin

text \<open>
  Histories of the relay: any sequence of requests, sweeps, counts and database faults under a
  clock that never goes back. The locale \<open>clock_stable\<close> is the contract of a fact about the
  relay that, once true, stays true as time passes and commands run; it is interpreted on the
  facts behind the replay defences (a used fetch nonce, a settled message, a retired queue).
\<close>

section \<open>Steps of the relay\<close>

datatype 'sig response =
    Registered bool
  | Enqueued enqueue_outcome
  | Fetched "'sig stored_envelope list"
  | Acknowledged ack_outcome
  | MailboxDeleted bool

fun handle :: "('kp, 'pk, 'sig) crypto \<Rightarrow> ('pk, 'sig) command \<Rightarrow> u64 \<Rightarrow> (relay, 'sig response) prog" where
  "handle C (CRegister r) now = attempt (register C r now) (\<lambda>x. ret (Registered x))"
| "handle C (CSend r) now = attempt (enqueue C r now) (\<lambda>x. ret (Enqueued x))"
| "handle C (CFetch r) now = attempt (fetch C r now) (\<lambda>x. ret (Fetched x))"
| "handle C (CAck r) now = attempt (acknowledge C r now) (\<lambda>x. ret (Acknowledged x))"
| "handle C (CDelete r) now = attempt (delete_mailbox C r now) (\<lambda>x. ret (MailboxDeleted x))"

inductive relay_step :: "('kp, 'pk, 'sig) crypto \<Rightarrow> relay \<Rightarrow> u64 \<Rightarrow> relay \<Rightarrow> bool" for C where
  command: "command_ok c \<Longrightarrow> relay_step C s now (snd (handle C c now s))"
| sweep: "relay_step C s now (snd (purge_expired now s))"
| count_queued: "relay_step C s now (snd (queued_message_count_at now s))"
| count_tombstones: "relay_step C s now (snd (tombstone_count s))"
| faults: "relay_step C s now (s\<lparr>calls := cs\<rparr>)"

inductive reaches :: "('kp, 'pk, 'sig) crypto \<Rightarrow> relay \<times> u64 \<Rightarrow> relay \<times> u64 \<Rightarrow> bool" for C where
  start: "reaches C x x"
| step: "reaches C x (s, t) \<Longrightarrow> t \<le> t' \<Longrightarrow> relay_step C s t' s' \<Longrightarrow> reaches C x (s', t')"

lemma snd_attempt_ret: "snd (attempt m (\<lambda>x. ret (f x)) s) = snd (m s)"
  by (simp add: attempt_def ret_def split: prod.split sum.split)

lemma fst_attempt_ret: "fst (attempt m (\<lambda>x. ret (f x)) s) = map_sum id f (fst (m s))"
  by (simp add: attempt_def ret_def split: prod.split sum.split)

text \<open>The sweep commits the swept image or nothing.\<close>

lemma purge_expired_eval:
  "calls s = [] \<Longrightarrow> purge_expired now s =
    (case to_i64 now of
       Inl e \<Rightarrow> (Inl e, s\<lparr>working := durable s\<rparr>)
     | Inr t \<Rightarrow> (let n = length (filter (\<lambda>r. ms_expires_at r \<le> t) (messages (durable s))) in
         (Inr n, s\<lparr>working := purge_db t (durable s), durable := purge_db t (durable s),
            audit_events := audit_events s @ (if n > 0 then [''expired_messages_deleted''] else [])\<rparr>)))"
  by (auto simp: purge_expired_def sql_simps Let_def split: sum.split)

lemma purge_expired_effect:
  "durable (snd (purge_expired now s)) = durable s \<or>
   durable (snd (purge_expired now s)) = purge_db (uint now) (durable s)"
proof (cases "fst (purge_expired now s)")
  case (Inl e)
  then show ?thesis
    using purge_expired_tx.error_old_or_done [of now s e "snd (purge_expired now s)"]
    by (auto simp: prod_eq_iff purge_expired_eval Let_def to_i64_Inr_iff split: sum.splits)
next
  case (Inr n)
  then have "purge_expired now (s\<lparr>calls := []\<rparr>) = (Inr n, (snd (purge_expired now s))\<lparr>calls := []\<rparr>)"
    by (intro purge_expired_tx.success_without_faults) (metis prod.collapse)
  then show ?thesis
    by (auto simp: purge_expired_eval Let_def to_i64_Inr_iff dest: arg_cong [of _ _ durable] split: sum.splits)
qed

lemma queued_message_count_at_effect:
  "durable (snd (queued_message_count_at now s)) = durable (snd (purge_expired now s))"
  by (simp add: queued_message_count_at_def attempt_def query_committed_def db_call_def ret_def
      split: prod.split sum.split list.split call_outcome.split)

lemma tombstone_count_effect: "durable (snd (tombstone_count s)) = durable s"
  using tombstone_count_contract(1) by (simp add: quiet_def same_store_def)

text \<open>A command's effect: refused without a trace, or its specification on the view.\<close>

fun spec_handle :: "('kp, 'pk, 'sig) crypto \<Rightarrow> ('pk, 'sig) command \<Rightarrow> u64 \<Rightarrow> abs_relay \<Rightarrow>
    ('sig response \<times> abs_relay) result" where
  "spec_handle C (CRegister r) now A = and_then (spec_register C r now A) (\<lambda>(x, A). Inr (Registered x, A))"
| "spec_handle C (CSend r) now A = and_then (spec_enqueue C r now A) (\<lambda>(x, A). Inr (Enqueued x, A))"
| "spec_handle C (CFetch r) now A = and_then (spec_fetch C r now A) (\<lambda>(x, A). Inr (Fetched x, A))"
| "spec_handle C (CAck r) now A = and_then (spec_acknowledge C r now A) (\<lambda>(x, A). Inr (Acknowledged x, A))"
| "spec_handle C (CDelete r) now A = and_then (spec_delete_mailbox C r now A) (\<lambda>(x, A). Inr (MailboxDeleted x, A))"

lemma run_view_attempt_ret:
  "run_view t (attempt m (\<lambda>x. ret (f x))) s = and_then (run_view t m s) (\<lambda>(x, A). Inr (f x, A))"
  by (simp add: run_view_def attempt_def ret_def split: prod.split sum.split)

lemma atomic_then_ret: "atomic m \<Longrightarrow> atomic (attempt m (\<lambda>x. ret (f x)))"
  by (auto simp: atomic_def attempt_def ret_def split: prod.splits sum.splits)

lemma settled_then_ret: "settled m \<Longrightarrow> settled (attempt m (\<lambda>x. ret (f x)))"
  unfolding settled_def attempt_def ret_def
  by (auto split: prod.splits sum.splits) (metis sum.distinct(1) prod.inject)+

lemma handle_keeps_inv:
  assumes "crypto_laws C" and "command_ok c" and "calls s = []" and "relay_inv C (durable s)"
    and "handle C c now s = (Inr x, s')"
  shows "relay_inv C (durable s')"
  using assms
  by (cases c) (auto simp: attempt_def ret_def split: prod.splits sum.splits
      intro: register_keeps_inv enqueue_keeps_inv fetch_keeps_inv acknowledge_keeps_inv
        delete_mailbox_keeps_inv)

interpretation handle_op: relay_operation "handle C c now" C now
    "crypto_laws C \<and> command_ok c" "spec_handle C c now" for C c now
proof unfold_locales
  show "atomic (handle C c now)" 
    by (cases c) (simp_all add: atomic_then_ret register_tx.operation_atomic enqueue_tx.operation_atomic
        fetch_tx.operation_atomic acknowledge_tx.operation_atomic delete_mailbox_tx.operation_atomic)
  show "tolerant (handle C c now)"
    by (cases c) (simp_all add: tolerant_rules register_tx.operation_tolerant
        enqueue_tx.operation_tolerant fetch_tx.operation_tolerant
        acknowledge_tx.operation_tolerant delete_mailbox_tx.operation_tolerant)
  show "settled (handle C c now)"
    by (cases c) (simp_all add: settled_then_ret register_tx.operation_settled
        enqueue_tx.operation_settled fetch_tx.operation_settled
        acknowledge_tx.operation_settled delete_mailbox_tx.operation_settled)
  fix s :: relay
  assume "crypto_laws C \<and> command_ok c" "calls s = []" "relay_inv C (durable s)"
  then show "run_view (uint now) (handle C c now) s = spec_handle C c now (view (uint now) (durable s))"
    by (cases c) (simp_all add: run_view_attempt_ret register_op.refines enqueue_op.refines
        fetch_op.refines acknowledge_op.refines delete_mailbox_op.refines)
qed (auto intro: handle_keeps_inv)

section \<open>Reachable states\<close>

lemma relay_step_inv:
  assumes "relay_step C s now s'" and "crypto_laws C" and "relay_inv C (durable s)"
  shows "relay_inv C (durable s')"
  using assms
proof (cases rule: relay_step.cases)
  case (command c)
  then show ?thesis
    using handle_op.invariant_kept [of C c s now] assms(2,3) by (metis prod.collapse)
next
  case sweep
  then show ?thesis
    using purge_expired_effect [of now s] relay_inv_purge [OF assms(3)] assms(3) by auto
next
  case count_queued
  then show ?thesis
    using purge_expired_effect [of now s] relay_inv_purge [OF assms(3)] assms(3)
    by (auto simp: queued_message_count_at_effect)
qed (use assms(3) in \<open>simp_all add: tombstone_count_effect\<close>)

lemma reaches_inv:
  assumes "reaches C x y" and "crypto_laws C" and "relay_inv C (durable (fst x))"
  shows "relay_inv C (durable (fst y))"
  using assms by (induction rule: reaches.induct) (auto intro: relay_step_inv)

section \<open>Facts that time and commands preserve\<close>

locale clock_stable =
  fixes C :: "('kp, 'pk, 'sig) crypto"
    and Q :: "u64 \<Rightarrow> abs_relay \<Rightarrow> bool"
  assumes aging: "relay_inv C db \<Longrightarrow> t \<le> t' \<Longrightarrow> Q t (view (uint t) db) \<Longrightarrow> Q t' (view (uint t') db)"
    and spec_step: "Q t A \<Longrightarrow> spec_handle C c t A = Inr (x, A') \<Longrightarrow> Q t A'"
begin

lemma step_stable:
  assumes "relay_step C s t s'" and laws: "crypto_laws C" and inv: "relay_inv C (durable s)"
    and Q: "Q t (view (uint t) (durable s))"
  shows "Q t (view (uint t) (durable s'))"
  using assms(1)
proof (cases rule: relay_step.cases)
  case (command c)
  show ?thesis
  proof (cases "fst (handle C c t s)")
    case (Inl e)
    then have "handle C c t s = (Inl e, s')"
      using command(1) by (simp add: prod_eq_iff)
    then show ?thesis
      using handle_op.error_old_or_spec [of C c s t e s'] laws inv command(2) spec_step [OF Q] Q by auto
  next
    case (Inr x)
    then have "handle C c t s = (Inr x, s')"
      using command(1) by (simp add: prod_eq_iff)
    then show ?thesis
      using handle_op.success_spec [of C c s t x s'] laws inv command(2) spec_step [OF Q] by auto
  qed
next
  case sweep
  then show ?thesis
    using purge_expired_effect [of t s] Q by auto
next
  case count_queued
  then show ?thesis
    using purge_expired_effect [of t s] Q by (auto simp: queued_message_count_at_effect)
qed (use Q in \<open>simp_all add: tombstone_count_effect\<close>)

lemma stable:
  assumes "reaches C x y" and "crypto_laws C" and "relay_inv C (durable (fst x))"
    and "Q (snd x) (view (uint (snd x)) (durable (fst x)))"
  shows "Q (snd y) (view (uint (snd y)) (durable (fst y)))"
  using assms
proof (induction rule: reaches.induct)
  case (step x s t t' s')
  then have "relay_inv C (durable s)" and "Q t (view (uint t) (durable s))"
    using reaches_inv [OF step.hyps(1)] by auto
  then have "Q t' (view (uint t') (durable s))"
    using aging step.hyps(2) by blast
  then show ?case
    using step_stable [OF step.hyps(3)] \<open>relay_inv C (durable s)\<close> step.prems by simp
qed simp

end

section \<open>Effects of the specification\<close>

lemma spec_handle_cases:
  assumes "spec_handle C c t A = Inr (x, A')"
  obtains (register) r b where "c = CRegister r" "spec_register C r t A = Inr (b, A')"
    | (enqueue) r out where "c = CSend r" "x = Enqueued out" "spec_enqueue C r t A = Inr (out, A')"
    | (fetch) r envs where "c = CFetch r" "spec_fetch C r t A = Inr (envs, A')"
    | (acknowledge) r out where "c = CAck r" "spec_acknowledge C r t A = Inr (out, A')"
    | (delete) r b where "c = CDelete r" "spec_delete_mailbox C r t A = Inr (b, A')"
  using assms by (cases c) (auto simp: and_then_eq_Inr_iff)

lemma live_deadline_aging:
  assumes "unique_key key rows" and "live_deadline key deadline t k rows = Some d" and "t' < d"
  shows "live_deadline key deadline t' k rows = Some d"
  using assms unfolding live_deadline_def
  by (induction rows) (auto simp: unique_key_def image_iff find_Some_iff split: if_splits)

lemma spec_register_effect:
  "spec_register C r t A = Inr (b, A') \<Longrightarrow>
     digest C (queue_id_bytes (reg_queue_id r)) \<notin> retired A \<and>
     (\<exists>ks. A' = A\<lparr>boxes := (boxes A)(queue_id_bytes (reg_queue_id r) \<mapsto> ks)\<rparr>)"
  by (auto simp: spec_register_def Let_def and_then_eq_Inr_iff)

lemma spec_enqueue_effect:
  "spec_enqueue C r t A = Inr (out, A') \<Longrightarrow> 
     boxes A (queue_id_bytes (snd_queue_id r)) \<noteq> None \<and>
     gone A (queue_id_bytes (snd_queue_id r), message_id_bytes (snd_message_id r)) = None \<and>
     validate_message_expiry (snd_expires_at r) t = Inr () \<and> uint (snd_expires_at r) < 2 ^ 63 \<and>
     (out = Duplicate \<and> A' = A \<or>
      out = Stored \<and>
      find (\<lambda>x. ms_message_id x = message_id_bytes (snd_message_id r))
        (queue A (queue_id_bytes (snd_queue_id r))) = None \<and>
      A' = A\<lparr>queue := (queue A)(queue_id_bytes (snd_queue_id r) :=
        queue A (queue_id_bytes (snd_queue_id r)) @ [message_row_of C r (uint (snd_expires_at r))])\<rparr>)"
  by (auto simp: spec_enqueue_def Let_def and_then_eq_Inr_iff spec_key_def and_then_ok_or to_i64_Inr_iff
      message_row_of_def split: option.splits)

lemma spec_fetch_effect:
  "spec_fetch C r t A = Inr (envs, A') \<Longrightarrow>
     boxes A (queue_id_bytes (ftc_queue_id r)) \<noteq> None \<and>
     validate_request_time (ftc_valid_until r) t = Inr () \<and>
     spent A (queue_id_bytes (ftc_queue_id r), ''receive'', nonce_bytes (ftc_nonce r)) = None \<and>
     A' = A\<lparr>spent := (spent A)((queue_id_bytes (ftc_queue_id r), ''receive'', nonce_bytes (ftc_nonce r))
       \<mapsto> uint (ftc_valid_until r))\<rparr>"
  by (auto simp: spec_fetch_def Let_def and_then_eq_Inr_iff spec_key_def and_then_ok_or to_i64_Inr_iff
      split: option.splits)

lemma spec_acknowledge_effect:
  "spec_acknowledge C r t A = Inr (out, A') \<Longrightarrow>
     boxes A (queue_id_bytes (ack_queue_id r)) \<noteq> None \<and>
     (out = AlreadyDeleted \<and> A' = A \<or>
      out = Deleted \<and> uint (u64_saturating_add t TOMBSTONE_TTL_SECONDS) < 2 ^ 63 \<and>
      A' = A\<lparr>queue := (queue A)(queue_id_bytes (ack_queue_id r) :=
          filter (\<lambda>x. ms_message_id x \<noteq> message_id_bytes (ack_message_id r))
            (queue A (queue_id_bytes (ack_queue_id r)))),
        gone := (gone A)((queue_id_bytes (ack_queue_id r), message_id_bytes (ack_message_id r))
          \<mapsto> uint (u64_saturating_add t TOMBSTONE_TTL_SECONDS))\<rparr>)"
  by (auto simp: spec_acknowledge_def Let_def and_then_eq_Inr_iff spec_key_def and_then_ok_or to_i64_Inr_iff
      split: option.splits)

lemma spec_delete_mailbox_effect:
  "spec_delete_mailbox C r t A = Inr (b, A') \<Longrightarrow> b \<and>
     boxes A (queue_id_bytes (del_queue_id r)) \<noteq> None \<and>
     A' = \<lparr>boxes = (boxes A)(queue_id_bytes (del_queue_id r) := None),
        queue = (queue A)(queue_id_bytes (del_queue_id r) := []),
        gone = (\<lambda>k. if fst k = queue_id_bytes (del_queue_id r) then None else gone A k),
        spent = (\<lambda>k. if fst k = queue_id_bytes (del_queue_id r) then None else spent A k),
        retired = insert (digest C (queue_id_bytes (del_queue_id r))) (retired A)\<rparr>"
  by (auto simp: spec_delete_mailbox_def Let_def and_then_eq_Inr_iff spec_key_def and_then_ok_or
      split: option.splits)

lemmas spec_effects =
  spec_register_effect spec_enqueue_effect spec_fetch_effect spec_acknowledge_effect
  spec_delete_mailbox_effect

section \<open>The facts behind the replay defences\<close>

definition queue_gone :: "('kp, 'pk, 'sig) crypto \<Rightarrow> bytes \<Rightarrow> abs_relay \<Rightarrow> bool" where
  "queue_gone C q A \<longleftrightarrow> boxes A q = None \<and> digest C q \<in> retired A"

lemma queue_gone_step:
  "queue_gone C q A \<Longrightarrow> spec_handle C c t A = Inr (x, A') \<Longrightarrow> queue_gone C q A'"
  by (auto elim!: spec_handle_cases dest!: spec_effects simp: queue_gone_def)

definition fetch_spent :: "('kp, 'pk, 'sig) crypto \<Rightarrow> 'sig fetch_request \<Rightarrow> u64 \<Rightarrow> abs_relay \<Rightarrow> bool" where
  "fetch_spent C r t A \<longleftrightarrow> ftc_valid_until r \<le> t \<or>
     spent A (queue_id_bytes (ftc_queue_id r), ''receive'', nonce_bytes (ftc_nonce r)) =
       Some (uint (ftc_valid_until r)) \<or>
     queue_gone C (queue_id_bytes (ftc_queue_id r)) A"

lemma fetch_spent_step:
  assumes "fetch_spent C r t A" and "spec_handle C c t A = Inr (x, A')"
  shows "fetch_spent C r t A'"
proof (cases "queue_gone C (queue_id_bytes (ftc_queue_id r)) A")
  case True
  then show ?thesis
    using queue_gone_step [OF _ assms(2)] by (simp add: fetch_spent_def)
next
  case False
  then have "ftc_valid_until r \<le> t \<or>
     spent A (queue_id_bytes (ftc_queue_id r), ''receive'', nonce_bytes (ftc_nonce r)) =
       Some (uint (ftc_valid_until r))"
    using assms(1) by (simp add: fetch_spent_def)
  with assms(2) show ?thesis
    by (auto elim!: spec_handle_cases dest!: spec_effects simp: fetch_spent_def queue_gone_def
        split: if_splits)
qed

lemma tombstone_covers:
  assumes "e \<le> u64_saturating_add t MAX_MESSAGE_TTL_SECONDS"
  shows "uint e \<le> uint (u64_saturating_add t TOMBSTONE_TTL_SECONDS)"
  using assms by (simp add: word_le_def TOMBSTONE_TTL_SECONDS_def MAX_MESSAGE_TTL_SECONDS_def)

text \<open>The row of a stored request is still queued, or its identifier is blocked by a tombstone that
  outlasts the request.\<close>

definition message_settled ::
    "('kp, 'pk, 'sig) crypto \<Rightarrow> 'sig send_request \<Rightarrow> abs_relay \<Rightarrow> bool" where
  "message_settled C r A \<longleftrightarrow>
      message_row_of C r (uint (snd_expires_at r)) \<in> set (queue A (queue_id_bytes (snd_queue_id r))) \<or>
      (\<exists>d\<ge>uint (snd_expires_at r).
         gone A (queue_id_bytes (snd_queue_id r), message_id_bytes (snd_message_id r)) = Some d)"

lemma message_row_of_sel [simp]:
  "ms_queue_id (message_row_of C r e) = queue_id_bytes (snd_queue_id r)"
  "ms_message_id (message_row_of C r e) = message_id_bytes (snd_message_id r)"
  "ms_ciphertext (message_row_of C r e) = packet_bytes (snd_packet r)"
  "ms_expires_at (message_row_of C r e) = e"
  "ms_sender_signature (message_row_of C r e) = sig_bytes C (snd_signature r)"
  by (simp_all add: message_row_of_def)

lemma message_settled_step:
  assumes "message_settled C r A" and "spec_handle C c t A = Inr (x, A')"
    and "snd_expires_at r \<le> u64_saturating_add t MAX_MESSAGE_TTL_SECONDS"
  shows "message_settled C r A' \<or> queue_gone C (queue_id_bytes (snd_queue_id r)) A'"
  using assms(2)
proof (cases rule: spec_handle_cases)
  case (register ra b)
  then show ?thesis using assms(1) by (auto simp: message_settled_def dest!: spec_register_effect)
next
  case (enqueue ra out)
  then show ?thesis using assms(1) 
    by (auto simp: message_settled_def dest!: spec_enqueue_effect split: if_splits)
next
  case (fetch ra out)
  then show ?thesis using assms(1) by (auto simp: message_settled_def dest!: spec_fetch_effect)
next
  case (acknowledge ra out)
  then show ?thesis using assms(1) tombstone_covers [OF assms(3)]
    by (auto simp: message_settled_def dest!: spec_acknowledge_effect split: if_splits)
next
  case (delete ra out)
  then show ?thesis using assms(1)
    by (cases "snd_queue_id r = del_queue_id ra")
      (auto simp: message_settled_def queue_gone_def dest!: spec_delete_mailbox_effect)
qed

definition send_spent :: "('kp, 'pk, 'sig) crypto \<Rightarrow> 'sig send_request \<Rightarrow> u64 \<Rightarrow> abs_relay \<Rightarrow> bool" where
  "send_spent C r t A \<longleftrightarrow>
     snd_expires_at r \<le> u64_saturating_add t MAX_MESSAGE_TTL_SECONDS \<and>
     (snd_expires_at r \<le> t \<or> message_settled C r A \<or>
      queue_gone C (queue_id_bytes (snd_queue_id r)) A)"

lemma send_spent_step:
  assumes "send_spent C r t A" and "spec_handle C c t A = Inr (x, A')"
  shows "send_spent C r t A'"
  using assms queue_gone_step [OF _ assms(2)] message_settled_step [OF _ assms(2)]
  unfolding send_spent_def by blast

lemma queue_gone_aging: "queue_gone C q (view t db) \<Longrightarrow> queue_gone C q (view t' db)"
  by (simp add: queue_gone_def view_def)

lemma gone_aging:
  "relay_inv C db \<Longrightarrow> gone (view t db) k = Some d \<Longrightarrow> t' < d \<Longrightarrow> gone (view t' db) k = Some d"
  by (auto simp: view_def relay_inv_def keys_unique_def intro: live_deadline_aging)

lemma spent_aging:
  "relay_inv C db \<Longrightarrow> spent (view t db) k = Some d \<Longrightarrow> t' < d \<Longrightarrow> spent (view t' db) k = Some d"
  by (auto simp: view_def relay_inv_def keys_unique_def intro: live_deadline_aging)

lemma queue_aging:
  "x \<in> set (queue (view t db) q) \<Longrightarrow> t' < ms_expires_at x \<Longrightarrow> x \<in> set (queue (view t' db) q)"
  by (simp add: view_def live_queue_def)

lemma saturating_add_mono: "t \<le> t' \<Longrightarrow> u64_saturating_add t k \<le> u64_saturating_add t' k"
  by (simp add: word_le_def uint_saturating_add)

lemma message_settled_aging:
  assumes "relay_inv C db" and "message_settled C r (view t db)" and "t' < uint (snd_expires_at r)"
  shows "message_settled C r (view t' db)"
  using assms(2) unfolding message_settled_def
proof
  assume "\<exists>d\<ge>uint (snd_expires_at r). gone (view t db)
    (queue_id_bytes (snd_queue_id r), message_id_bytes (snd_message_id r)) = Some d"
  then obtain d where d: "uint (snd_expires_at r) \<le> d" "gone (view t db)
      (queue_id_bytes (snd_queue_id r), message_id_bytes (snd_message_id r)) = Some d"
    by blast
  moreover have "t' < d" using d(1) assms(3) by simp
  ultimately show "message_row_of C r (uint (snd_expires_at r))
        \<in> set (queue (view t' db) (queue_id_bytes (snd_queue_id r))) \<or>
      (\<exists>d\<ge>uint (snd_expires_at r). gone (view t' db)
        (queue_id_bytes (snd_queue_id r), message_id_bytes (snd_message_id r)) = Some d)"
    using gone_aging [OF assms(1)] by blast
qed (use assms(3) in \<open>auto intro: queue_aging\<close>)

lemma send_spent_aging:
  assumes "relay_inv C db" and "t \<le> t'" and "send_spent C r t (view (uint t) db)"
  shows "send_spent C r t' (view (uint t') db)"
proof -
  have bound: "snd_expires_at r \<le> u64_saturating_add t' MAX_MESSAGE_TTL_SECONDS"
    using assms(3) saturating_add_mono [OF assms(2)] unfolding send_spent_def by (blast intro: order_trans)
  show ?thesis
  proof (cases "snd_expires_at r \<le> t'")
    case False
    then have late: "uint t' < uint (snd_expires_at r)" and "\<not> snd_expires_at r \<le> t"
      using assms(2) by (auto simp: word_le_def)
    then show ?thesis
      using assms(3) bound message_settled_aging [OF assms(1) _ late] queue_gone_aging
      unfolding send_spent_def by blast
  qed (simp add: send_spent_def bound)
qed

lemma fetch_spent_aging:
  assumes "relay_inv C db" and "t \<le> t'" and "fetch_spent C r t (view (uint t) db)"
  shows "fetch_spent C r t' (view (uint t') db)"
proof (cases "ftc_valid_until r \<le> t'")
  case False
  then have late: "uint t' < uint (ftc_valid_until r)" and "\<not> ftc_valid_until r \<le> t"
    using assms(2) by (auto simp: word_le_def)
  then show ?thesis
    using assms(3) spent_aging [OF assms(1) _ late] queue_gone_aging
    unfolding fetch_spent_def by blast
qed (simp add: fetch_spent_def)

interpretation queue_gone_clock: clock_stable C "\<lambda>_. queue_gone C q" for C q
  by unfold_locales (auto intro: queue_gone_aging queue_gone_step)

interpretation fetch_spent_clock: clock_stable C "fetch_spent C r" for C r
  by unfold_locales (auto intro: fetch_spent_aging fetch_spent_step)

interpretation send_spent_clock: clock_stable C "send_spent C r" for C r
  by unfold_locales (auto intro: send_spent_aging send_spent_step)

text \<open>A tombstone that lasts at least until \<open>d\<close>.\<close>

definition message_dropped ::
    "('kp, 'pk, 'sig) crypto \<Rightarrow> bytes \<Rightarrow> bytes \<Rightarrow> int \<Rightarrow> u64 \<Rightarrow> abs_relay \<Rightarrow> bool" where
  "message_dropped C q m d t A \<longleftrightarrow>
     d \<le> uint (u64_saturating_add t TOMBSTONE_TTL_SECONDS) \<and>
     (d \<le> uint t \<or> (\<exists>d'\<ge>d. gone A (q, m) = Some d') \<or> queue_gone C q A)"

lemma message_dropped_step:
  assumes "message_dropped C q m d t A" and "spec_handle C c t A = Inr (x, A')"
  shows "message_dropped C q m d t A'"
proof (cases "queue_gone C q A")
  case True
  then show ?thesis
    using queue_gone_step [OF _ assms(2)] assms(1) by (simp add: message_dropped_def)
next
  case False
  show ?thesis
    using assms(2)
  proof (cases rule: spec_handle_cases)
    case (delete r b)
    then show ?thesis using assms(1)
      by (cases "q = queue_id_bytes (del_queue_id r)")
        (auto simp: message_dropped_def queue_gone_def dest!: spec_delete_mailbox_effect)
  qed (use assms(1) False in \<open>auto simp: message_dropped_def queue_gone_def dest!: spec_effects
      split: if_splits\<close>)
qed

lemma message_dropped_aging:
  assumes "relay_inv C db" and "t \<le> t'" and "message_dropped C q m d t (view (uint t) db)"
  shows "message_dropped C q m d t' (view (uint t') db)"
proof -
  have bound: "d \<le> uint (u64_saturating_add t' TOMBSTONE_TTL_SECONDS)"
    using assms(2,3) saturating_add_mono [OF assms(2), of TOMBSTONE_TTL_SECONDS]
    by (simp add: message_dropped_def word_le_def)
  show ?thesis
  proof (cases "d \<le> uint t'")
    case False
    then have "\<not> d \<le> uint t" using assms(2) by (simp add: word_le_def)
    then consider d' where "d \<le> d'" "gone (view (uint t) db) (q, m) = Some d'"
      | "queue_gone C q (view (uint t) db)"
      using assms(3) by (auto simp: message_dropped_def)
    then show ?thesis
    proof cases
      case 1
      then show ?thesis
        using gone_aging [OF assms(1) 1(2), of "uint t'"] False bound by (auto simp: message_dropped_def)
    next
      case 2
      then show ?thesis
        using queue_gone_aging [OF 2] bound by (simp add: message_dropped_def)
    qed
  qed (simp add: message_dropped_def bound)
qed

interpretation message_dropped_clock: clock_stable C "message_dropped C q m d" for C q m d
  by unfold_locales (auto intro: message_dropped_aging message_dropped_step)

lemma envelope_of_message_row:
  assumes "crypto_laws C" and "message_id_ok (snd_message_id r)"
  shows "envelope_of_row C (snd_queue_id r) (message_row_of C r (uint (snd_expires_at r))) =
    Inr (envelope_of_request r)"
  using assms by (cases "snd_message_id r"; cases "snd_packet r")
    (simp add: envelope_of_row_def message_row_of_def message_id_from_slice_def message_id_ok_def
      u64_try_from_def crypto_laws_sig envelope_of_request_def)

end
