(* ===== verification/Relay_Examples.thy ===== *)
theory Relay_Examples
  imports Relay_History
begin

text \<open>
  A concrete mailbox, its five signed requests under the computable cryptography
  \<open>example_crypto\<close>, and the runs of the relay's operations on them, evaluated by rewriting.
  They instantiate the relay's theorems at concrete inputs.
\<close>

section \<open>A concrete relay for closed examples\<close>

definition example_owner :: "byte mailbox_owner" where
  "example_owner = \<lparr>mo_queue_id = QueueId (replicate 32 1), mo_send = 5, mo_receive = 6, mo_manage = 7\<rparr>"

definition example_registration :: "(byte, byte) mailbox_registration" where
  "example_registration = registration example_crypto (\<lambda>n. replicate n 9) example_owner 100"

definition example_send :: "byte send_request" where
  "example_send = authorize example_crypto (sender_capability example_owner)
     (MessageId (replicate 16 2)) (EncryptedPacket [3, 4]) 500"

definition example_fetch :: "byte fetch_request" where
  "example_fetch = authorize_fetch example_crypto (\<lambda>n. replicate n 8)
     (receiver_capability example_crypto example_owner) 100"

definition example_ack :: "byte ack_request" where
  "example_ack = authorize_ack example_crypto (receiver_capability example_crypto example_owner)
     \<lparr>om_message = \<lparr>pm_version = 1, pm_conversation_id = ConversationId (replicate 16 0),
         pm_message_id = MessageId (replicate 16 2), pm_sent_at = 0, pm_body = ''''\<rparr>,
      om_envelope = \<lparr>ve_queue_id = QueueId (replicate 32 1),
         ve_message_id = MessageId (replicate 16 2), ve_packet = EncryptedPacket [3, 4],
         ve_expires_at = 500\<rparr>\<rparr> 100"

definition example_delete :: "byte delete_mailbox_request" where
  "example_delete = authorize_delete example_crypto (\<lambda>n. replicate n 8)
     (manager_capability example_owner) 100"

definition relay_of :: "relay_db \<Rightarrow> relay" where
  "relay_of db = \<lparr>durable = db, working = db, calls = [], audit_events = []\<rparr>"

definition example_mailbox :: mailbox_row where
  "example_mailbox = \<lparr>mb_queue_id = replicate 32 1, mb_send_key = pk_bytes example_crypto 5,
     mb_receive_key = pk_bytes example_crypto 6, mb_manage_key = pk_bytes example_crypto 7, mb_created_at = 10\<rparr>"

definition example_db :: relay_db where
  "example_db = empty_relay_db\<lparr>mailboxes := [example_mailbox]\<rparr>"

definition example_db_queued :: relay_db where
  "example_db_queued = example_db\<lparr>messages := [message_row_of example_crypto example_send 500]\<rparr>"

lemmas example_defs = example_owner_def example_registration_def example_send_def example_fetch_def
  example_ack_def example_delete_def relay_of_def example_mailbox_def example_db_def example_db_queued_def

lemma example_signatures:
  "verify example_crypto 7 (registration_signing_bytes example_crypto example_registration) (reg_signature example_registration)"
  "verify example_crypto 5 (send_request_signing_bytes example_crypto example_send) (snd_signature example_send)"
  "verify example_crypto 6 (fetch_signing_bytes example_fetch) (ftc_signature example_fetch)"
  "verify example_crypto 6 (ack_signing_bytes example_ack) (ack_signature example_ack)"
  "verify example_crypto 7 (delete_signing_bytes example_delete) (del_signature example_delete)"
  unfolding example_registration_def example_send_def example_fetch_def example_ack_def example_delete_def
    registration_signs authorize_signs authorize_fetch_signs authorize_ack_signs authorize_delete_signs
  by (simp_all add: example_crypto_def example_owner_def sender_capability_def receiver_capability_def
      manager_capability_def)

lemma example_sel [simp]:
  "snd_queue_id example_send = QueueId (replicate 32 1)"
  "snd_message_id example_send = MessageId (replicate 16 2)"
  "snd_packet example_send = EncryptedPacket [3, 4]" "snd_expires_at example_send = 500"
  "reg_queue_id example_registration = QueueId (replicate 32 1)"
  "reg_send_key example_registration = 5" "reg_receive_key example_registration = 6"
  "reg_manage_key example_registration = 7" "reg_valid_until example_registration = 100"
  "reg_nonce example_registration = Nonce (replicate 16 9)"
  "ftc_queue_id example_fetch = QueueId (replicate 32 1)"
  "ftc_nonce example_fetch = Nonce (replicate 16 8)" "ftc_valid_until example_fetch = 100"
  "ack_queue_id example_ack = QueueId (replicate 32 1)"
  "ack_message_id example_ack = MessageId (replicate 16 2)"
  "ack_packet_hash example_ack = digest example_crypto [3, 4]" "ack_valid_until example_ack = 100"
  "del_queue_id example_delete = QueueId (replicate 32 1)"
  "del_nonce example_delete = Nonce (replicate 16 8)" "del_valid_until example_delete = 100"
  by (simp_all add: example_send_def authorize_def sender_capability_def example_owner_def
      example_registration_def registration_def example_fetch_def authorize_fetch_def
      receiver_capability_def example_ack_def authorize_ack_def example_delete_def
      authorize_delete_def manager_capability_def nonce_random_def packet_digest_def
      example_crypto_def Let_def)

lemma example_inv:
  "relay_inv example_crypto empty_relay_db" "relay_inv example_crypto example_db"
  "relay_inv example_crypto example_db_queued"
  by (simp_all add: relay_inv_defs example_mailbox_def example_db_def example_db_queued_def
      empty_relay_db_def unique_key_def mailbox_check_def message_check_def
      crypto_laws_pk [OF crypto_laws_example] crypto_laws_sig [OF crypto_laws_example]
      MAX_PACKET_BYTES_def has_key_def)

lemmas example_eval =
  sql_simps relay_of_def MAX_PACKET_BYTES_def validate_message_expiry_def
  validate_request_time_def MAX_MESSAGE_TTL_SECONDS_def TOMBSTONE_TTL_SECONDS_def
  u64_saturating_add_def to_i64_def i64_try_from_def stored_key_def example_db_def
  example_db_queued_def example_mailbox_def purge_db_def empty_relay_db_def ensure_def
  crypto_laws_pk [OF crypto_laws_example] crypto_laws_sig [OF crypto_laws_example]
  crypto_laws_digest_length [OF crypto_laws_example]
  select_message_def insert_message_def insert_row_def message_check_def message_row_of_def
  has_mailbox_def has_key_def message_key_def record_nonce_def insert_request_nonce_def
  insert_or_ignore_def request_nonce_check_def request_nonce_key_def Let_def
  insert_registration_nonce_def registration_nonce_check_def registration_nonce_key_def
  insert_mailbox_def mailbox_check_def delete_message_def delete_where_def upsert_tombstone_def
  upsert_row_def tombstone_check_def tombstone_key_def insert_retired_queue_def
  retired_queue_check_def delete_mailbox_row_def envelope_of_row_def message_id_from_slice_def u64_try_from_def

lemma example_enqueue:
  "enqueue example_crypto example_send 50 (relay_of example_db) =
    (Inr Stored, \<lparr>durable = example_db_queued, working = example_db_queued, calls = [],
       audit_events = [''message_enqueued'']\<rparr>)"
  using example_signatures(2) by (simp add: enqueue_def example_eval)

lemma example_fetch_run:
  "fetch example_crypto example_fetch 60 (relay_of example_db_queued) =
    (Inr [envelope_of_request example_send],
     (relay_of (example_db_queued\<lparr>request_nonces := [\<lparr>rn_queue_id = replicate 32 1,
        rn_role = ''receive'', rn_nonce = replicate 16 8, rn_delete_after = 100\<rparr>]\<rparr>))
        \<lparr>audit_events := [''mailbox_fetched'']\<rparr>)"
  using example_signatures(3) by (simp add: fetch_def example_eval envelope_of_request_def)

lemma example_ack_run:
  "acknowledge example_crypto example_ack 70 (relay_of example_db_queued) =
    (Inr Deleted, (relay_of (example_db\<lparr>tombstones := [\<lparr>ts_queue_id = replicate 32 1,
        ts_message_id = replicate 16 2, ts_delete_after = 604870\<rparr>]\<rparr>))
        \<lparr>audit_events := [''message_acknowledged_and_deleted'']\<rparr>)"
  using example_signatures(4) by (simp add: acknowledge_def example_eval)

lemma example_delete_run:
  "delete_mailbox example_crypto example_delete 70 (relay_of example_db_queued) =
    (Inr True, (relay_of (empty_relay_db\<lparr>retired_queues := [\<lparr>rq_queue_hash = digest example_crypto (replicate 32 1),
        rq_retired_at = 70\<rparr>]\<rparr>))
        \<lparr>audit_events := [''mailbox_deleted'']\<rparr>)"
  using example_signatures(5) by (simp add: delete_mailbox_def example_eval)

lemma example_register_run:
  "register example_crypto example_registration 10 (relay_of empty_relay_db) =
    (Inr True, (relay_of (example_db\<lparr>registration_nonces := [\<lparr>gn_queue_id = replicate 32 1,
        gn_nonce = replicate 16 9, gn_delete_after = 100\<rparr>]\<rparr>))
        \<lparr>audit_events := [''mailbox_registered'']\<rparr>)"
  using example_signatures(1) by (simp add: register_def example_eval)

end
