(* ===== verification/Relay_Properties.thy ===== *)
theory Relay_Properties
  imports Relay_Examples
begin

text \<open>
  The properties of the relay: atomicity, the specification it implements, the invariant of
  its histories, replay defences over histories, delivery, isolation of mailboxes and what
  reaches the audit log.
\<close>

section \<open>Helper lemmas\<close>

lemma same_audit: "conn.more s' = conn.more (s :: relay) \<Longrightarrow> audit_events s' = audit_events s"
  by (cases s; cases s') simp

text \<open>The queue a command is addressed to.\<close>

fun command_queue :: "('pk, 'sig) command \<Rightarrow> queue_id" where
  "command_queue (CRegister r) = reg_queue_id r"
| "command_queue (CSend r) = snd_queue_id r"
| "command_queue (CFetch r) = ftc_queue_id r"
| "command_queue (CAck r) = ack_queue_id r"
| "command_queue (CDelete r) = del_queue_id r"

lemma handle_success_spec:
  assumes "crypto_laws C" and "command_ok c" and "relay_inv C (durable s)"
    and "handle C c now s = (Inr x, s')"
  shows "spec_handle C c now (view (uint now) (durable s)) = Inr (x, view (uint now) (durable s'))"
  using handle_op.success_spec [of C c s now x s'] assms by simp

lemma handle_simps:
  "register C r now s = (Inr b, s') \<Longrightarrow> handle C (CRegister r) now s = (Inr (Registered b), s')"
  "enqueue C q now s = (Inr out, s') \<Longrightarrow> handle C (CSend q) now s = (Inr (Enqueued out), s')"
  by (simp_all add: attempt_def ret_def)

section \<open>Properties\<close>

text \<open>C16. Every request that the relay refuses leaves no trace: if any of the five request operations
  returns an error, the committed database and the audit log are exactly what they were. The
  one exception is \<open>Storage\<close> when the answer of a database call was lost, so this holds for
  every other error, and for \<open>Storage\<close> with whatever pattern of failing calls.\<close>

theorem refused_request_leaves_no_trace:
  assumes "handle C c now s = (Inl e, s')" and "e \<noteq> Storage \<or> certain s"
  shows "durable s' = durable s \<and> audit_events s' = audit_events s"
  using handle_op.error_keeps_store [OF assms] same_audit by blast

theorem refused_request_leaves_no_trace_witness:
  "durable (snd (handle example_crypto (CSend example_send) 600 (relay_of example_db))) = example_db \<and>
   audit_events (snd (handle example_crypto (CSend example_send) 600 (relay_of example_db))) = []"
proof -
  have "handle example_crypto (CSend example_send) 600 (relay_of example_db) = (Inl InvalidExpiry, relay_of example_db)"
    by (simp add: enqueue_def example_eval)
  from refused_request_leaves_no_trace [OF this] show ?thesis
    by (simp add: relay_of_def enqueue_def example_eval)
qed

text \<open>C13. A request interrupted by database calls that fail, or that take effect while their answer is
  lost, is all or nothing: after it the database is either untouched or exactly what the same
  request commits when no call fails. The audit log and the reported result follow it, except
  that a commit whose answer was lost is reported as \<open>Storage\<close> and not logged.\<close>

theorem request_all_or_nothing:
  "(durable (snd (handle C c now s)) = durable s \<and>
    audit_events (snd (handle C c now s)) = audit_events s) \<or>
   (durable (snd (handle C c now s)) = durable (snd (handle C c now (s\<lparr>calls := []\<rparr>))) \<and>
    (fst (handle C c now s) = fst (handle C c now (s\<lparr>calls := []\<rparr>)) \<and>
     audit_events (snd (handle C c now s)) = audit_events (snd (handle C c now (s\<lparr>calls := []\<rparr>))) \<or>
     fst (handle C c now s) = Inl Storage \<and>
     audit_events (snd (handle C c now s)) = audit_events s))"
  using handle_op.old_or_faultless [of C c now s] same_audit by blast

text \<open>C2. The relay implements its specification: from every state that satisfies the data
  invariant, a request that succeeds returns what the specification returns and changes what
  the relay still knows at that time exactly as the specification does; a request that fails
  with another error than \<open>Storage\<close> changes nothing and fails as the specification does. A
  request that reports \<open>Storage\<close> because a database call failed changed nothing either, or it took
  the specification's step, the latter only when an answer was lost. The expiry sweep inside each operation is invisible to this view.\<close>

theorem relay_implements_specification:
  assumes "crypto_laws C" and "command_ok c" and "relay_inv C (durable s)"
    and "handle C c now s = (res, s')"
  shows "case res of
      Inr x \<Rightarrow> spec_handle C c now (view (uint now) (durable s)) =
        Inr (x, view (uint now) (durable s'))
    | Inl e \<Rightarrow>
        (durable s' = durable s \<or> e = Storage \<and> \<not> certain s \<and>
          (\<exists>x. spec_handle C c now (view (uint now) (durable s)) = Inr (x, view (uint now) (durable s')))) \<and>
        (e = Storage \<or> spec_handle C c now (view (uint now) (durable s)) = Inl e)"
proof (cases res)
  case (Inl e)
  then have run: "handle C c now s = (Inl e, s')" using assms(4) by simp
  then show ?thesis
    using handle_op.error_keeps_store [OF run] handle_op.error_spec [OF _ assms(3) run]
      handle_op.error_old_or_spec [OF _ assms(3) run] assms(1,2) Inl by auto
next
  case (Inr x)
  then have "handle C c now s = (Inr x, s')" using assms(4) by simp
  from handle_success_spec [OF assms(1,2,3) this] show ?thesis
    using Inr by simp
qed

theorem relay_implements_specification_witness:
  "spec_handle example_crypto (CSend example_send) 50 (view 50 example_db) =
     Inr (Enqueued Stored, view 50 example_db_queued)"
  using relay_implements_specification [OF crypto_laws_example _ _ handle_simps(2) [OF example_enqueue]]
     example_inv(2)
  by (simp add: id_ok_defs relay_of_def)

text \<open>C7. The data invariant holds in every history: starting from an empty database or any state that
  satisfies it, every sequence of well-formed requests, sweeps, counts and database faults
  keeps it. So primary keys stay unique, every message, tombstone and nonce belongs to an
  existing mailbox, stored keys and signatures parse, packets are within the bound, and a
  message never coexists with its tombstone.\<close>

theorem relay_invariant_in_every_history:
  assumes "reaches C (s, t) (s', t')" and "crypto_laws C" and "relay_inv C (durable s)"
  shows "relay_inv C (durable s')"
  using reaches_inv [OF assms(1,2)] assms(3) by simp

theorem relay_invariant_in_every_history_witness:
  "relay_inv example_crypto example_db_queued"
proof -
  have "relay_step example_crypto (relay_of example_db) 50
      (snd (handle example_crypto (CSend example_send) 50 (relay_of example_db)))"
    by (rule relay_step.command) (simp add: id_ok_defs)
  then have "reaches example_crypto (relay_of example_db, 50)
      (snd (handle example_crypto (CSend example_send) 50 (relay_of example_db)), 50)"
    by (intro reaches.step [OF reaches.start]) simp_all
  from relay_invariant_in_every_history [OF this crypto_laws_example] show ?thesis
    using example_inv(2) handle_simps(2) [OF example_enqueue] by (simp add: relay_of_def)
qed

lemma fetch_handle: "fetch C r now s = (Inr envs, s') \<Longrightarrow> handle C (CFetch r) now s = (Inr (Fetched envs), s')"
  by (simp add: attempt_def ret_def)

lemma fetch_spent_after:
  assumes "nonce_ok (ftc_nonce r)" and "relay_inv C (durable s)"
    and "fetch C r t s = (Inr envs, s')"
  shows "fetch_spent C r t (view (uint t) (durable s'))"
  using fetch_op.success_spec [OF assms] by (auto simp: fetch_spent_def dest!: spec_fetch_effect)

lemma fetch_spent_refuses:
  assumes "nonce_ok (ftc_nonce r)" and "relay_inv C (durable s)"
    and "fetch_spent C r t (view (uint t) (durable s))"
  shows "fst (fetch C r t s) \<noteq> Inr envs"
proof
  assume "fst (fetch C r t s) = Inr envs"
  then have "fetch C r t s = (Inr envs, snd (fetch C r t s))" by (simp add: prod_eq_iff)
  from fetch_op.success_spec [OF assms(1,2) this] show False
    using assms(3)
    by (auto simp: fetch_spent_def queue_gone_def validate_request_time_iff dest!: spec_fetch_effect)
qed

text \<open>C8. A signed fetch request is accepted at most once: after the relay has answered it, no later
  state of any history under a clock that does not go back, at any time, answers the same
  request again, not even after its nonce has been swept or its mailbox deleted.\<close>

theorem fetch_request_accepted_at_most_once:
  assumes "crypto_laws C" and "queue_id_ok (ftc_queue_id r)" and "nonce_ok (ftc_nonce r)"
    and "relay_inv C (durable s)" and "fetch C r t s = (Inr envs, s1)"
    and "reaches C (s1, t) (s2, t2)"
  shows "fst (fetch C r t2 s2) \<noteq> Inr envs'"
proof -
  have inv: "relay_inv C (durable s1)"
    using fetch_op.invariant_kept [OF assms(3,4,5)] .
  then have "relay_inv C (durable s2)"
    using reaches_inv [OF assms(6,1)] by simp
  moreover have "fetch_spent C r t2 (view (uint t2) (durable s2))"
    using fetch_spent_clock.stable [OF assms(6,1), of r] inv fetch_spent_after [OF assms(3,4,5)] by simp
  ultimately show ?thesis
    using fetch_spent_refuses [OF assms(3)] by blast
qed

theorem fetch_request_accepted_at_most_once_witness:
  "fst (fetch example_crypto example_fetch 60 (relay_of example_db_queued)) =
     Inr [envelope_of_request example_send] \<and>
   fst (fetch example_crypto example_fetch 60
     (snd (fetch example_crypto example_fetch 60 (relay_of example_db_queued)))) \<noteq> Inr []"
  using fetch_request_accepted_at_most_once [OF crypto_laws_example _ _ _ example_fetch_run
      reaches.start, of "[]"] example_inv(3)
  by (simp add: id_ok_defs example_fetch_run) (simp add: relay_of_def)

lemma enqueue_stored_effect:
  assumes "crypto_laws C" and "message_id_ok (snd_message_id r)"
    and "relay_inv C (durable s)" and "enqueue C r t s = (Inr Stored, s')"
  shows "message_settled C r (view (uint t) (durable s')) \<and>
    snd_expires_at r \<le> u64_saturating_add t MAX_MESSAGE_TTL_SECONDS"
  using enqueue_op.success_spec [OF _ assms(3,4)] assms(1,2)
  by (auto simp: message_settled_def validate_message_expiry_iff dest!: spec_enqueue_effect)

lemma send_spent_refuses:
  assumes "crypto_laws C" and "message_id_ok (snd_message_id r)" and "relay_inv C (durable s)"
    and "send_spent C r t (view (uint t) (durable s))"
  shows "fst (enqueue C r t s) \<noteq> Inr Stored"
proof
  assume "fst (enqueue C r t s) = Inr Stored"
  then have "enqueue C r t s = (Inr Stored, snd (enqueue C r t s))" by (simp add: prod_eq_iff)
  from enqueue_op.success_spec [OF _ assms(3) this] show False
    using assms
    by (auto simp: send_spent_def message_settled_def queue_gone_def validate_message_expiry_iff
        find_None_iff dest!: spec_enqueue_effect)
      (metis message_row_of_sel(2))
qed

text \<open>C9. A signed send request is stored at most once: after the relay has stored it, no later state
  of any history stores the same request again. While the message is queued a repetition is
  reported as a duplicate; after its acknowledgement the tombstone outlasts the request's own
  expiry; after its expiry it is refused; after deletion of the mailbox there is no mailbox.\<close>

theorem send_request_stored_at_most_once:
  assumes "crypto_laws C" and "queue_id_ok (snd_queue_id r)" and "message_id_ok (snd_message_id r)"
    and "relay_inv C (durable s)" and "enqueue C r t s = (Inr Stored, s1)"
    and "reaches C (s1, t) (s2, t2)"
  shows "fst (enqueue C r t2 s2) \<noteq> Inr Stored"
proof -
  have inv: "relay_inv C (durable s1)"
    using enqueue_op.invariant_kept [OF _ assms(4,5)] assms(1,3) by simp
  then have "relay_inv C (durable s2)"
    using reaches_inv [OF assms(6,1)] by simp
  moreover have "send_spent C r t2 (view (uint t2) (durable s2))"
    using send_spent_clock.stable [OF assms(6,1), of r] inv
      enqueue_stored_effect [OF assms(1,3,4,5)] by (simp add: send_spent_def)
  ultimately show ?thesis
    using send_spent_refuses [OF assms(1,3)] by blast
qed

theorem send_request_stored_at_most_once_witness:
  "fst (enqueue example_crypto example_send 50 (relay_of example_db)) = Inr Stored \<and>
   fst (enqueue example_crypto example_send 50
     (snd (enqueue example_crypto example_send 50 (relay_of example_db)))) \<noteq> Inr Stored"
  using send_request_stored_at_most_once [OF crypto_laws_example _ _ _ example_enqueue reaches.start]
    example_inv(2)
  by (simp add: id_ok_defs example_enqueue) (simp add: relay_of_def)

lemma envelopes_of_rows_member:
  assumes "envelopes_of_rows C q rows = Inr envs" and "row \<in> set rows" and "envelope_of_row C q row = Inr env"
  shows "env \<in> set envs"
  using assms by (induction rows arbitrary: envs) (auto simp: and_then_eq_Inr_iff)

lemma stored_message_fetched:
  assumes "crypto_laws C" and "queue_id_ok (snd_queue_id r)" and "message_id_ok (snd_message_id r)"
    and "relay_inv C (durable s)" and "enqueue C r t s = (Inr Stored, s1)"
    and "reaches C (s1, t) (s2, t2)" and "t2 < snd_expires_at r"
    and "nonce_ok (ftc_nonce f)" and "ftc_queue_id f = snd_queue_id r"
    and "fetch C f t2 s2 = (Inr envs, s3)"
  shows "envelope_of_request r \<in> set envs \<or>
    gone (view (uint t2) (durable s2))
      (queue_id_bytes (snd_queue_id r), message_id_bytes (snd_message_id r)) \<noteq> None"
proof -
  let ?q = "queue_id_bytes (snd_queue_id r)" and ?A = "view (uint t2) (durable s2)"
  have inv: "relay_inv C (durable s1)"
    using enqueue_op.invariant_kept [OF _ assms(4,5)] assms(1,3) by simp
  then have inv2: "relay_inv C (durable s2)"
    using reaches_inv [OF assms(6,1)] by simp
  have spec: "spec_fetch C f t2 ?A = Inr (envs, view (uint t2) (durable s3))"
    using fetch_op.success_spec [OF assms(8) inv2 assms(10)] .
  have "send_spent C r t2 ?A"
    using send_spent_clock.stable [OF assms(6,1), of r] inv
      enqueue_stored_effect [OF assms(1,3,4,5)] by (simp add: send_spent_def)
  then have "message_settled C r ?A"
    using spec_fetch_effect [OF spec] assms(7,9) by (auto simp: send_spent_def queue_gone_def)
  moreover have "envelope_of_request r \<in> set envs"
    if "message_row_of C r (uint (snd_expires_at r)) \<in> set (queue ?A ?q)"
  proof -
    have "uint (snd_expires_at r) < 2 ^ 63"
      using enqueue_op.success_spec [OF _ assms(4,5)] assms(1,3) by (auto dest!: spec_enqueue_effect)
    moreover have "envelopes_of_rows C (snd_queue_id r) (queue ?A ?q) = Inr envs"
      using spec assms(9) by (auto simp: spec_fetch_def Let_def and_then_eq_Inr_iff)
    ultimately show ?thesis
      using envelopes_of_rows_member [OF _ that] envelope_of_message_row [OF assms(1,3)] by blast
  qed
  ultimately show ?thesis
    by (auto simp: message_settled_def)
qed

text \<open>C15. A stored message is delivered: after the relay has stored a send request, every fetch of its
  mailbox that succeeds before the message expires, in any later state of any history,
  returns the envelope of that request unchanged, unless the recipient's acknowledgement has
  put a tombstone in its place.\<close>

theorem stored_message_is_delivered:
  assumes "crypto_laws C" and "queue_id_ok (snd_queue_id r)" and "message_id_ok (snd_message_id r)"
    and "relay_inv C (durable s)" and "enqueue C r t s = (Inr Stored, s1)"
    and "reaches C (s1, t) (s2, t2)" and "t2 < snd_expires_at r"
    and "nonce_ok (ftc_nonce f)" and "ftc_queue_id f = snd_queue_id r"
    and "fetch C f t2 s2 = (Inr envs, s3)"
  shows "envelope_of_request r \<in> set envs \<or>
    gone (view (uint t2) (durable s2))
      (queue_id_bytes (snd_queue_id r), message_id_bytes (snd_message_id r)) \<noteq> None"
  using assms by (rule stored_message_fetched)

theorem stored_message_is_delivered_witness:
  "\<exists>envs s3. fetch example_crypto example_fetch 50
      (snd (enqueue example_crypto example_send 50 (relay_of example_db))) = (Inr envs, s3) \<and>
    (envelope_of_request example_send \<in> set envs \<or>
     gone (view 50 example_db_queued) (replicate 32 1, replicate 16 2) \<noteq> None)"
proof -
  let ?s1 = "snd (enqueue example_crypto example_send 50 (relay_of example_db))"
  have "fst (fetch example_crypto example_fetch 50 ?s1) = Inr [envelope_of_request example_send]"
    using example_signatures(3)
    by (simp add: example_enqueue) (simp add: fetch_def example_eval envelope_of_request_def)
  then have "fetch example_crypto example_fetch 50 ?s1 =
      (Inr [envelope_of_request example_send], snd (fetch example_crypto example_fetch 50 ?s1))"
    by (simp add: prod_eq_iff)
  then show ?thesis
    using stored_message_is_delivered [OF crypto_laws_example, of example_send "relay_of example_db" 50
        ?s1 ?s1 50 example_fetch] example_inv(2) reaches.start [of example_crypto "(?s1, 50)"]
    by (auto simp: id_ok_defs example_enqueue)
qed

lemma tombstone_deadline_le:
  "uint (u64_saturating_add t TOMBSTONE_TTL_SECONDS) < 2 ^ 63 \<Longrightarrow>
     uint t + 604800 \<le> uint (u64_saturating_add t TOMBSTONE_TTL_SECONDS)"
  by (subst tombstone_deadline) simp_all

lemma acknowledged_dropped:
  assumes "message_id_ok (ack_message_id a)" and "relay_inv C (durable s)"
    and "acknowledge C a t s = (Inr Deleted, s1)"
  shows "message_dropped C (queue_id_bytes (ack_queue_id a)) (message_id_bytes (ack_message_id a))
    (uint t + 604800) t (view (uint t) (durable s1))"
  using acknowledge_op.success_spec [OF assms]
  by (auto simp: message_dropped_def tombstone_deadline_le dest!: spec_acknowledge_effect)

lemma dropped_or_gone:
  assumes "relay_inv C db" and "message_dropped C q m d t (view (uint t) db)" and "uint t < d"
    and "boxes (view (uint t) db) q \<noteq> None"
  shows "gone (view (uint t) db) (q, m) \<noteq> None"
    and "find (\<lambda>x. ms_message_id x = m) (queue (view (uint t) db) q) = None"
proof -
  show gone: "gone (view (uint t) db) (q, m) \<noteq> None"
    using assms(2-4) by (auto simp: message_dropped_def queue_gone_def)
  then show "find (\<lambda>x. ms_message_id x = m) (queue (view (uint t) db) q) = None"
    using found_message(3) [OF assms(1), of m "uint t" q] by metis
qed

lemma spec_fetch_envelopes:
  "spec_fetch C r t A = Inr (envs, A') \<Longrightarrow>
     envelopes_of_rows C (ftc_queue_id r) (queue A (queue_id_bytes (ftc_queue_id r))) = Inr envs"
  by (auto simp: spec_fetch_def Let_def and_then_eq_Inr_iff)

lemma envelope_of_row_Inr_iff:
  "envelope_of_row C q row = Inr env \<longleftrightarrow>
     se_queue_id env = q \<and> message_id_from_slice (ms_message_id row) = Some (se_message_id env) \<and>
     se_packet env = EncryptedPacket (ms_ciphertext row) \<and>
     u64_try_from (ms_expires_at row) = Some (se_expires_at env) \<and>
     sig_from_slice C (ms_sender_signature row) = Some (se_sender_signature env)"
  by (cases env) (auto simp: envelope_of_row_def and_then_eq_Inr_iff ok_or_eq_Inr_iff)

lemma stored_expiry:
  assumes "relay_inv C db" and "row \<in> set (messages db)" and "u64_try_from (ms_expires_at row) = Some e"
  shows "uint e = ms_expires_at row"
proof -
  have "0 \<le> ms_expires_at row" "ms_expires_at row < 2 ^ 63"
    using assms(1,2) by (auto simp: relay_inv_def message_inv_def)
  then show ?thesis
    using assms(3) by (auto simp: u64_try_from_def uint_word_of_int)
qed

lemma envelopes_of_rows_all:
  "envelopes_of_rows C q rows = Inr envs \<Longrightarrow> list_all2 (\<lambda>row env. envelope_of_row C q row = Inr env) rows envs"
  by (induction rows arbitrary: envs) (auto simp: and_then_eq_Inr_iff)

text \<open>C10. An acknowledged message stays gone: for seven days after the acknowledgement that deleted it,
  in every later state of every history, no send request for its identifier is accepted
  (whatever its content), no fetch of the mailbox returns it, and no acknowledgement deletes
  it a second time.\<close>

theorem acknowledged_message_stays_gone:
  assumes "crypto_laws C" and "message_id_ok (ack_message_id a)" and "relay_inv C (durable s)"
    and "acknowledge C a t s = (Inr Deleted, s1)" and "reaches C (s1, t) (s2, t2)"
    and "uint t2 < uint t + 604800"
  shows "(\<forall>r out. snd_queue_id r = ack_queue_id a \<and> snd_message_id r = ack_message_id a \<longrightarrow>
        fst (enqueue C r t2 s2) \<noteq> Inr out) \<and>
     (\<forall>f envs. ftc_queue_id f = ack_queue_id a \<and> nonce_ok (ftc_nonce f) \<and>
        fst (fetch C f t2 s2) = Inr envs \<longrightarrow> ack_message_id a \<notin> se_message_id ` set envs) \<and>
     (\<forall>a'. ack_queue_id a' = ack_queue_id a \<and> ack_message_id a' = ack_message_id a \<longrightarrow>
        fst (acknowledge C a' t2 s2) \<noteq> Inr Deleted)"
proof -
  let ?A = "view (uint t2) (durable s2)"
  let ?q = "queue_id_bytes (ack_queue_id a)" and ?m = "message_id_bytes (ack_message_id a)"
  have inv1: "relay_inv C (durable s1)"
    using acknowledge_op.invariant_kept [OF assms(2,3,4)] .
  have inv2: "relay_inv C (durable s2)"
    using reaches_inv [OF assms(5,1)] inv1 by simp
  have "message_dropped C ?q ?m (uint t + 604800) t2 ?A"
    using message_dropped_clock.stable [OF assms(5,1)] inv1 acknowledged_dropped [OF assms(2,3,4)] by simp
  note gone = dropped_or_gone [OF inv2 this assms(6)]
  have "fst (enqueue C r t2 s2) \<noteq> Inr out"
    if "snd_queue_id r = ack_queue_id a" "snd_message_id r = ack_message_id a" for r out
  proof
    assume "fst (enqueue C r t2 s2) = Inr out"
    then have "enqueue C r t2 s2 = (Inr out, snd (enqueue C r t2 s2))" by (simp add: prod_eq_iff)
    from enqueue_op.success_spec [OF _ inv2 this] show False
      using gone(1) that assms(1,2) by (auto dest!: spec_enqueue_effect)
  qed
  moreover have "ack_message_id a \<notin> se_message_id ` set envs"
    if "ftc_queue_id f = ack_queue_id a" "nonce_ok (ftc_nonce f)" "fst (fetch C f t2 s2) = Inr envs"
    for f envs
  proof -
    from that(3) have "fetch C f t2 s2 = (Inr envs, snd (fetch C f t2 s2))" by (simp add: prod_eq_iff)
    note spec = fetch_op.success_spec [OF that(2) inv2 this]
    have "find (\<lambda>x. ms_message_id x = ?m) (queue ?A ?q) = None"
      using gone(2) spec_fetch_effect [OF spec] that(1) by simp
    then show ?thesis
      using envelopes_of_rows_all [OF spec_fetch_envelopes [OF spec]] that(1)
      by (fastforce simp: list_all2_conv_all_nth in_set_conv_nth find_None_iff
          envelope_of_row_Inr_iff message_id_from_slice_Some_iff)
  qed
  moreover have "fst (acknowledge C a' t2 s2) \<noteq> Inr Deleted"
    if "ack_queue_id a' = ack_queue_id a" "ack_message_id a' = ack_message_id a" for a'
  proof
    assume "fst (acknowledge C a' t2 s2) = Inr Deleted"
    then have "acknowledge C a' t2 s2 = (Inr Deleted, snd (acknowledge C a' t2 s2))" by (simp add: prod_eq_iff)
    from acknowledge_op.success_spec [OF _ inv2 this] show False
      using gone(2) that assms(2)
      by (auto simp: spec_acknowledge_def Let_def and_then_eq_Inr_iff spec_key_def and_then_ok_or split: option.splits)
  qed
  ultimately show ?thesis by blast
qed

theorem acknowledged_message_stays_gone_witness:
  "fst (acknowledge example_crypto example_ack 70 (relay_of example_db_queued)) = Inr Deleted \<and>
   fst (enqueue example_crypto example_send 70
     (snd (acknowledge example_crypto example_ack 70 (relay_of example_db_queued)))) \<noteq> Inr Stored"
  using acknowledged_message_stays_gone [OF crypto_laws_example _ _ example_ack_run reaches.start]
    example_inv(3)
  by (simp add: id_ok_defs example_ack_run) (simp add: relay_of_def)

lemma queue_gone_refuses:
  assumes "queue_gone C (queue_id_bytes (command_queue c)) A"
  shows "spec_handle C c t A \<noteq> Inr (x, A')"
proof
  assume "spec_handle C c t A = Inr (x, A')"
  then show False
    using assms by (cases rule: spec_handle_cases) (auto simp: queue_gone_def dest!: spec_effects)
qed

lemma delete_mailbox_gone:
  assumes "crypto_laws C" and "nonce_ok (del_nonce r)" and "relay_inv C (durable s)"
    and "delete_mailbox C r t s = (Inr b, s1)"
  shows "b \<and> queue_gone C (queue_id_bytes (del_queue_id r)) (view (uint t) (durable s1))"
  using delete_mailbox_op.success_spec [OF _ assms(3,4)] assms(1,2)
  by (auto simp: queue_gone_def dest!: spec_delete_mailbox_effect)

text \<open>C11. A deleted mailbox never comes back: a deletion that succeeds reports that it removed a
  mailbox, and in every later state of every history no command addressed to that queue
  identifier succeeds, registration included; the database holds no mailbox, message, tombstone or
  request nonce of it; and the digest of the identifier stays among the retired queues. (Its
  registration nonces are kept until they expire.)\<close>

theorem deleted_mailbox_never_returns:
  assumes "crypto_laws C" and "nonce_ok (del_nonce r)" and "relay_inv C (durable s)"
    and "delete_mailbox C r t s = (Inr b, s1)" and "reaches C (s1, t) (s2, t2)"
    and "command_ok c" and "command_queue c = del_queue_id r"
  shows "b \<and> fst (handle C c t2 s2) \<noteq> Inr x \<and>
    \<not> has_mailbox (durable s2) (queue_id_bytes (del_queue_id r)) \<and>
    (\<forall>m\<in>set (messages (durable s2)). ms_queue_id m \<noteq> queue_id_bytes (del_queue_id r)) \<and>
    (\<forall>m\<in>set (tombstones (durable s2)). ts_queue_id m \<noteq> queue_id_bytes (del_queue_id r)) \<and>
    (\<forall>m\<in>set (request_nonces (durable s2)). rn_queue_id m \<noteq> queue_id_bytes (del_queue_id r)) \<and>
    (\<exists>m\<in>set (retired_queues (durable s2)). rq_queue_hash m = digest C (queue_id_bytes (del_queue_id r)))"
proof -
  let ?q = "queue_id_bytes (del_queue_id r)"
  have inv1: "relay_inv C (durable s1)"
    using delete_mailbox_op.invariant_kept [OF _ assms(3,4)] assms(1,2) by simp
  have inv2: "relay_inv C (durable s2)"
    using reaches_inv [OF assms(5,1)] inv1 by simp
  have gone: "queue_gone C ?q (view (uint t2) (durable s2))"
    using queue_gone_clock.stable [OF assms(5,1), of ?q] inv1 delete_mailbox_gone [OF assms(1-4)] by simp
  then have none: "\<not> has_mailbox (durable s2) ?q"
    by (simp add: queue_gone_def has_mailbox_view [of _ _ "uint t2"])
  moreover have "fst (handle C c t2 s2) \<noteq> Inr x"
  proof
    assume "fst (handle C c t2 s2) = Inr x"
    then have "handle C c t2 s2 = (Inr x, snd (handle C c t2 s2))" by (simp add: prod_eq_iff)
    from handle_success_spec [OF assms(1,6) inv2 this] show False
      using queue_gone_refuses gone assms(7) by metis
  qed
  moreover have "\<forall>m\<in>set (messages (durable s2)). ms_queue_id m \<noteq> ?q"
      "\<forall>m\<in>set (tombstones (durable s2)). ts_queue_id m \<noteq> ?q"
      "\<forall>m\<in>set (request_nonces (durable s2)). rn_queue_id m \<noteq> ?q"
    using inv2 none
    by (auto simp: relay_inv_def message_inv_def tombstone_inv_def request_nonce_inv_def)
  moreover have "\<exists>m\<in>set (retired_queues (durable s2)). rq_queue_hash m = digest C ?q"
    using gone by (auto simp: queue_gone_def view_def)
  ultimately show ?thesis
    using delete_mailbox_gone [OF assms(1-4)] by blast
qed

theorem deleted_mailbox_never_returns_witness:
  "fst (delete_mailbox example_crypto example_delete 70 (relay_of example_db_queued)) = Inr True \<and>
   fst (handle example_crypto (CRegister example_registration) 70
     (snd (delete_mailbox example_crypto example_delete 70 (relay_of example_db_queued)))) \<noteq>
       Inr (Registered True)"
  using deleted_mailbox_never_returns [OF crypto_laws_example _ _ example_delete_run reaches.start,
      of "CRegister example_registration" "Registered True"] example_inv(3)
  by (simp add: id_ok_defs example_delete_run) (simp add: relay_of_def)

text \<open>C25. Mailboxes are isolated: a command that succeeds changes nothing that the relay knows about
  any other queue, neither its keys, nor its queued messages and their order, nor its
  tombstones, nor its used nonces.\<close>

theorem command_affects_only_its_queue:
  assumes "crypto_laws C" and "command_ok c" and "relay_inv C (durable s)"
    and "handle C c t s = (Inr x, s')" and "q \<noteq> queue_id_bytes (command_queue c)"
  shows "boxes (view (uint t) (durable s')) q = boxes (view (uint t) (durable s)) q \<and>
    queue (view (uint t) (durable s')) q = queue (view (uint t) (durable s)) q \<and>
    gone (view (uint t) (durable s')) (q, m) = gone (view (uint t) (durable s)) (q, m) \<and>
    spent (view (uint t) (durable s')) (q, n) = spent (view (uint t) (durable s)) (q, n)"
proof -
  note spec = handle_success_spec [OF assms(1-4)]
  then show ?thesis
    by (cases rule: spec_handle_cases) (use assms(5) in \<open>auto dest!: spec_effects\<close>)
qed

theorem command_affects_only_its_queue_witness:
  "queue (view 50 example_db_queued) (replicate 32 9) = queue (view 50 example_db) (replicate 32 9)"
  using command_affects_only_its_queue [OF crypto_laws_example _ _ handle_simps(2) [OF example_enqueue],
      of "replicate 32 9"] example_inv(2)
  by (simp add: id_ok_defs) (simp add: relay_of_def)

text \<open>C26. Fetching is exact and does not consume: a fetch that succeeds returns one envelope for each
  unexpired message of the mailbox, in arrival order, with the stored identifier, ciphertext,
  expiry and sender signature, and leaves every unexpired message of every queue in place.\<close>

theorem fetch_returns_the_live_queue:
  assumes "nonce_ok (ftc_nonce r)" and "relay_inv C (durable s)" and "fetch C r t s = (Inr envs, s')"
  shows "list_all2 (\<lambda>row env. se_queue_id env = ftc_queue_id r \<and>
        message_id_bytes (se_message_id env) = ms_message_id row \<and>
        packet_bytes (se_packet env) = ms_ciphertext row \<and>
        uint (se_expires_at env) = ms_expires_at row \<and>
        sig_from_slice C (ms_sender_signature row) = Some (se_sender_signature env))
      (filter (\<lambda>row. ms_queue_id row = queue_id_bytes (ftc_queue_id r) \<and> uint t < ms_expires_at row)
        (messages (durable s))) envs \<and>
    (\<forall>q. queue (view (uint t) (durable s')) q = queue (view (uint t) (durable s)) q)"
proof -
  let ?rows = "filter (\<lambda>row. ms_queue_id row = queue_id_bytes (ftc_queue_id r) \<and> uint t < ms_expires_at row)
      (messages (durable s))"
  note spec = fetch_op.success_spec [OF assms]
  have rows: "queue (view (uint t) (durable s)) (queue_id_bytes (ftc_queue_id r)) = ?rows"
    by (simp add: view_def live_queue_def)
  have "list_all2 (\<lambda>row env. envelope_of_row C (ftc_queue_id r) row = Inr env) ?rows envs"
    using envelopes_of_rows_all [OF spec_fetch_envelopes [OF spec]] by (simp only: rows)
  then have "list_all2 (\<lambda>row env. se_queue_id env = ftc_queue_id r \<and>
        message_id_bytes (se_message_id env) = ms_message_id row \<and>
        packet_bytes (se_packet env) = ms_ciphertext row \<and>
        uint (se_expires_at env) = ms_expires_at row \<and>
        sig_from_slice C (ms_sender_signature row) = Some (se_sender_signature env)) ?rows envs"
    using stored_expiry [OF assms(2)]
    by (elim list.rel_mono_strong)
      (auto simp: envelope_of_row_Inr_iff message_id_from_slice_Some_iff)
  then show ?thesis
    using spec_fetch_effect [OF spec] by simp
qed

theorem fetch_returns_the_live_queue_witness:
  "list_all2 (\<lambda>row env. message_id_bytes (se_message_id env) = ms_message_id row)
     [message_row_of example_crypto example_send 500] [envelope_of_request example_send]"
  using fetch_returns_the_live_queue [OF _ _ example_fetch_run] example_inv(3)
  by (simp add: id_ok_defs relay_of_def example_db_queued_def)

text \<open>Who must have signed a command, over which bytes.\<close>

fun command_authorized :: "('kp, 'pk, 'sig) crypto \<Rightarrow> relay_db \<Rightarrow> ('pk, 'sig) command \<Rightarrow> bool" where
  "command_authorized C db (CRegister r) \<longleftrightarrow>
     verify C (reg_manage_key r) (registration_signing_bytes C r) (reg_signature r) \<and>
     (\<forall>row\<in>set (mailboxes db). mb_queue_id row = queue_id_bytes (reg_queue_id r) \<longrightarrow>
        mb_manage_key row = pk_bytes C (reg_manage_key r))"
| "command_authorized C db (CSend r) \<longleftrightarrow>
     (\<exists>row\<in>set (mailboxes db). mb_queue_id row = queue_id_bytes (snd_queue_id r) \<and>
       (\<exists>k. pk_from_slice C (mb_send_key row) = Some k \<and>
         verify C k (send_request_signing_bytes C r) (snd_signature r)))"
| "command_authorized C db (CFetch r) \<longleftrightarrow>
     (\<exists>row\<in>set (mailboxes db). mb_queue_id row = queue_id_bytes (ftc_queue_id r) \<and>
       (\<exists>k. pk_from_slice C (mb_receive_key row) = Some k \<and>
         verify C k (fetch_signing_bytes r) (ftc_signature r)))"
| "command_authorized C db (CAck r) \<longleftrightarrow>
     (\<exists>row\<in>set (mailboxes db). mb_queue_id row = queue_id_bytes (ack_queue_id r) \<and>
       (\<exists>k. pk_from_slice C (mb_receive_key row) = Some k \<and>
         verify C k (ack_signing_bytes r) (ack_signature r)))"
| "command_authorized C db (CDelete r) \<longleftrightarrow>
     (\<exists>row\<in>set (mailboxes db). mb_queue_id row = queue_id_bytes (del_queue_id r) \<and>
       (\<exists>k. pk_from_slice C (mb_manage_key row) = Some k \<and>
         verify C k (delete_signing_bytes r) (del_signature r)))"

lemma boxes_row:
  "boxes (view t db) q = Some ks \<Longrightarrow> \<exists>row\<in>set (mailboxes db). mb_queue_id row = q \<and> mailbox_keys row = ks"
  by (auto simp: view_def dest!: find_SomeD)

lemma spec_key_row:
  assumes "spec_key C sel q (view t db) = Inr k"
  obtains row where "row \<in> set (mailboxes db)" "mb_queue_id row = q"
    "pk_from_slice C (sel (mailbox_keys row)) = Some k"
  using assms by (auto simp: spec_key_def and_then_ok_or ok_or_eq_Inr_iff split: option.splits dest!: boxes_row)

lemma boxes_unique:
  assumes "relay_inv C db" and "row \<in> set (mailboxes db)"
  shows "boxes (view t db) (mb_queue_id row) = Some (mailbox_keys row)"
  using assms find_unique [of mb_queue_id "mailboxes db" row]
  by (simp add: view_def relay_inv_def keys_unique_def)

lemma spec_handle_authorized:
  assumes "relay_inv C db" and "spec_handle C c t (view u db) = Inr (x, A')"
  shows "command_authorized C db c"
  using assms(2)
proof (cases rule: spec_handle_cases)
  case (register r b)
  then show ?thesis
    using boxes_unique [OF assms(1), of _ u]
    by (fastforce simp: spec_register_def Let_def and_then_eq_Inr_iff mailbox_keys_def)
qed (auto simp: spec_enqueue_def spec_fetch_def spec_acknowledge_def spec_delete_mailbox_def Let_def
    and_then_eq_Inr_iff mailbox_keys_def elim!: spec_key_row)

text \<open>C27. Only the holder of the right capability is served: a command that succeeds carries a signature
  over exactly its own signing bytes that verifies under the key the mailbox registered for
  that role (send key for sending, receive key for fetching and acknowledging, manage key for
  deleting); a registration verifies under its own manage key, and when the mailbox already
  exists that key is the registered one.\<close>

theorem accepted_command_is_authorized:
  assumes "crypto_laws C" and "command_ok c" and "relay_inv C (durable s)"
    and "handle C c t s = (Inr x, s')"
  shows "command_authorized C (durable s) c"
  using spec_handle_authorized [OF assms(3) handle_success_spec [OF assms]] .

theorem accepted_command_is_authorized_witness:
  "command_authorized example_crypto example_db (CSend example_send)"
  using accepted_command_is_authorized [OF crypto_laws_example _ _ handle_simps(2) [OF example_enqueue]] example_inv(2)
  by (simp add: id_ok_defs relay_of_def)

fun command_deadline :: "('pk, 'sig) command \<Rightarrow> u64" where
  "command_deadline (CRegister r) = reg_valid_until r"
| "command_deadline (CSend r) = snd_expires_at r"
| "command_deadline (CFetch r) = ftc_valid_until r"
| "command_deadline (CAck r) = ack_valid_until r"
| "command_deadline (CDelete r) = del_valid_until r"

fun command_window :: "('pk, 'sig) command \<Rightarrow> int" where
  "command_window (CSend r) = 604800"
| "command_window _ = 300"

lemma window_bound:
  "v \<le> u64_saturating_add t k \<Longrightarrow> uint v \<le> uint t + uint k"
  by (simp add: word_le_def uint_saturating_add)

text \<open>C28. Only fresh and bounded commands are served: a command that succeeds at time \<open>t\<close> has a deadline
  strictly after \<open>t\<close> and at most its window later (five minutes for signed requests, seven
  days for messages), as integers, with no wrap-around at the top of the 64-bit range; and an
  accepted packet is not empty and at most 1048576 bytes long.\<close>

theorem accepted_command_is_fresh:
  assumes "crypto_laws C" and "command_ok c" and "relay_inv C (durable s)"
    and "handle C c t s = (Inr x, s')"
  shows "uint t < uint (command_deadline c) \<and>
    uint (command_deadline c) \<le> uint t + command_window c \<and>
    (\<forall>r. c = CSend r \<longrightarrow> 0 < length (packet_bytes (snd_packet r)) \<and>
       length (packet_bytes (snd_packet r)) \<le> 1048576)"
  using handle_success_spec [OF assms]
proof (cases rule: spec_handle_cases)
  case (enqueue r out)
  then show ?thesis
    using window_bound [of "snd_expires_at r" t MAX_MESSAGE_TTL_SECONDS]
    by (auto simp: spec_enqueue_def Let_def and_then_eq_Inr_iff validate_message_expiry_iff
        word_less_def MAX_MESSAGE_TTL_SECONDS_def MAX_PACKET_BYTES_def)
qed (auto simp: spec_register_def spec_fetch_def spec_acknowledge_def spec_delete_mailbox_def Let_def
    and_then_eq_Inr_iff validate_request_time_iff word_less_def dest!: window_bound)

theorem accepted_command_is_fresh_witness:
  "uint (50 :: u64) < uint (command_deadline (CSend example_send)) \<and>
   uint (command_deadline (CSend example_send)) \<le> uint (50 :: u64) + command_window (CSend example_send)"
  using accepted_command_is_fresh [OF crypto_laws_example _ _ handle_simps(2) [OF example_enqueue]] example_inv(2)
  by (simp add: id_ok_defs relay_of_def)

fun response_event :: "'sig response \<Rightarrow> string" where
  "response_event (Registered True) = ''mailbox_registered''"
| "response_event (Registered False) = ''mailbox_registration_duplicate''"
| "response_event (Enqueued Stored) = ''message_enqueued''"
| "response_event (Enqueued Duplicate) = ''message_enqueue_duplicate''"
| "response_event (Fetched envs) = ''mailbox_fetched''"
| "response_event (Acknowledged Deleted) = ''message_acknowledged_and_deleted''"
| "response_event (Acknowledged AlreadyDeleted) = ''message_ack_duplicate''"
| "response_event (MailboxDeleted b) = ''mailbox_deleted''"

lemma operations_audit:
  assumes "calls s = []"
  shows "register C r1 t s = (Inr b, s') \<Longrightarrow> audit_events s' = audit_events s @ [response_event (Registered b)]"
    and "enqueue C r2 t s = (Inr out, s') \<Longrightarrow> audit_events s' = audit_events s @ [response_event (Enqueued out)]"
    and "fetch C r3 t s = (Inr envs, s') \<Longrightarrow> audit_events s' = audit_events s @ [response_event (Fetched envs)]"
    and "acknowledge C r4 t s = (Inr ack, s') \<Longrightarrow>
      audit_events s' = audit_events s @ [response_event (Acknowledged ack)]"
    and "delete_mailbox C r5 t s = (Inr b, s') \<Longrightarrow>
      audit_events s' = audit_events s @ [response_event (MailboxDeleted b)]"
  using assms
  by (auto simp: register_def enqueue_def fetch_def acknowledge_def delete_mailbox_def record_nonce_def
      sql_simps Let_def split: if_splits sum.splits option.splits prod.splits)

lemma handle_audit:
  assumes "calls s = []" and "handle C c t s = (Inr x, s')"
  shows "audit_events s' = audit_events s @ [response_event x]"
  using assms(2) operations_audit [OF assms(1)]
  by (cases c) (auto simp: attempt_def ret_def split: prod.splits sum.splits)

text \<open>C29. The audit log carries outcomes only: a command that succeeds appends exactly one event, which
  is determined by the kind of command and its outcome alone, so no identifier, key, time or
  content of any request reaches the log.\<close>

theorem audit_event_reveals_outcome_only:
  assumes "handle C c t s = (Inr x, s')"
  shows "audit_events s' = audit_events s @ [response_event x]"
  using handle_audit [OF _ handle_op.success_without_faults [OF assms]] by simp

theorem audit_event_reveals_outcome_only_witness:
  "audit_events (snd (handle example_crypto (CSend example_send) 50 (relay_of example_db))) =
     audit_events (relay_of example_db) @ [''message_enqueued'']"
  using audit_event_reveals_outcome_only [OF handle_simps(2) [OF example_enqueue]]
    handle_simps(2) [OF example_enqueue] by simp

lemma purge_expired_success:
  assumes "purge_expired t s = (Inr n, s')"
  shows "durable s' = purge_db (uint t) (durable s) \<and>
    n = length (filter (\<lambda>r. ms_expires_at r \<le> uint t) (messages (durable s))) \<and>
    audit_events s' = audit_events s @ (if n > 0 then [''expired_messages_deleted''] else [])"
proof -
  have "purge_expired t (s\<lparr>calls := []\<rparr>) = (Inr n, s'\<lparr>calls := []\<rparr>)"
    by (rule purge_expired_tx.success_without_faults [OF assms])
  then show ?thesis
    by (auto simp: purge_expired_eval to_i64_Inr_iff Let_def split: sum.splits)
       (cases s; cases s'; simp)+
qed

text \<open>The sweep is exact: a sweep that succeeds at time \<open>t\<close> removes from the four tables exactly the
  rows whose deadline is at or before \<open>t\<close>, keeps the others in their order, touches neither
  mailboxes nor retired identifiers, returns the number of messages removed, logs an event
  only if that number is positive, and changes nothing that is still visible at \<open>t\<close>.\<close>

lemma sweep_is_exact:
  assumes "purge_expired t s = (Inr n, s')"
  shows "messages (durable s') = filter (\<lambda>r. uint t < ms_expires_at r) (messages (durable s)) \<and>
    tombstones (durable s') = filter (\<lambda>r. uint t < ts_delete_after r) (tombstones (durable s)) \<and>
    request_nonces (durable s') = filter (\<lambda>r. uint t < rn_delete_after r) (request_nonces (durable s)) \<and>
    registration_nonces (durable s') =
      filter (\<lambda>r. uint t < gn_delete_after r) (registration_nonces (durable s)) \<and>
    mailboxes (durable s') = mailboxes (durable s) \<and>
    retired_queues (durable s') = retired_queues (durable s) \<and>
    n + length (messages (durable s')) = length (messages (durable s)) \<and>
    audit_events s' = audit_events s @ (if n > 0 then [''expired_messages_deleted''] else []) \<and>
    view (uint t) (durable s') = view (uint t) (durable s)"
  using purge_expired_success [OF assms] sum_length_filter_compl [of "\<lambda>r. ms_expires_at r \<le> uint t"]
  by (auto simp: messages_table.sweep_rows tombstones_table.sweep_rows request_nonces_table.sweep_rows
      registration_nonces_table.sweep_rows not_le)

theorem sweep_is_exact_witness:
  "messages (durable (snd (purge_expired 600 (relay_of example_db_queued)))) = []"
proof -
  have "purge_expired 600 (relay_of example_db_queued) =
      (Inr 1, snd (purge_expired 600 (relay_of example_db_queued)))"
    by (simp add: purge_expired_def example_eval)
  from sweep_is_exact [OF this] show ?thesis
    by (simp add: relay_of_def example_db_queued_def)
qed

text \<open>The queue count is the number of live messages: when \<^verbatim>\<open>queued_message_count_at\<close> succeeds, its
  result is the number of stored messages that have not expired at the given time, whatever
  was swept before.\<close>

lemma queued_count_is_live_count:
  assumes "queued_message_count_at t s = (Inr n, s')"
  shows "n = length (filter (\<lambda>r. uint t < ms_expires_at r) (messages (durable s)))"
proof -
  obtain k s1 where purge: "purge_expired t s = (Inr k, s1)"
    using assms by (auto simp: queued_message_count_at_def attempt_def split: prod.splits sum.splits)
  then have "n = length (messages (durable s1))"
    using assms by (auto simp: queued_message_count_at_def attempt_def query_committed_def db_call_def ret_def
        split: list.splits call_outcome.splits)
  then show ?thesis
    using purge_expired_success [OF purge] by (simp add: messages_table.sweep_rows)
qed

end
