(* ===== verification/Relay_Honest.thy ===== *)
theory Relay_Honest
  imports Relay_Examples
begin

text \<open>
  Honest requests are accepted: a request made with a capability of a registered mailbox, fresh
  and within its window, succeeds when no database call fails, and its effect is known. A message
  that enters an empty queue is fetched and acknowledged again, and leaves the queue empty.
\<close>

section \<open>Registered mailboxes\<close>

definition owner_box :: "('kp, 'pk, 'sig) crypto \<Rightarrow> 'kp mailbox_owner \<Rightarrow> bytes \<times> bytes \<times> bytes" where
  "owner_box C owner = (pk_bytes C (public_key C (mo_send owner)),
     pk_bytes C (public_key C (mo_receive owner)), pk_bytes C (public_key C (mo_manage owner)))"

abbreviation owner_queue :: "'kp mailbox_owner \<Rightarrow> bytes" where
  "owner_queue owner \<equiv> queue_id_bytes (mo_queue_id owner)"

definition in_window :: "u64 \<Rightarrow> u64 \<Rightarrow> u64 \<Rightarrow> bool" where
  "in_window seconds now valid_until \<longleftrightarrow>
     now < valid_until \<and> valid_until \<le> u64_saturating_add now seconds \<and> uint valid_until < 2 ^ 63"

lemma in_window_now: "in_window d now v \<Longrightarrow> uint now < 2 ^ 63"
  by (simp add: in_window_def word_less_def)

lemma in_window_times:
  assumes "in_window (5 * 60) now v"
  shows "validate_request_time v now = Inr ()" and "to_i64 v = Inr (uint v)" and "to_i64 now = Inr (uint now)"
  using assms in_window_now [OF assms]
  by (simp_all add: in_window_def validate_request_time_iff to_i64_Inr_iff)

lemma in_window_expiry:
  assumes "in_window MAX_MESSAGE_TTL_SECONDS now v"
  shows "validate_message_expiry v now = Inr ()" and "to_i64 v = Inr (uint v)" and "to_i64 now = Inr (uint now)"
  using assms in_window_now [OF assms]
  by (simp_all add: in_window_def validate_message_expiry_iff to_i64_Inr_iff)

lemma owner_keys:
  assumes "crypto_laws C" and "boxes A (owner_queue owner) = Some (owner_box C owner)"
  shows "spec_key C fst (owner_queue owner) A = Inr (public_key C (mo_send owner))"
    and "spec_key C (fst \<circ> snd) (owner_queue owner) A = Inr (public_key C (mo_receive owner))"
    and "spec_key C (snd \<circ> snd) (owner_queue owner) A = Inr (public_key C (mo_manage owner))"
  using assms by (simp_all add: spec_key_def owner_box_def crypto_laws_pk)

lemma capability_sel [simp]:
  "sc_queue_id (sender_capability owner) = mo_queue_id owner"
  "sc_signing_key (sender_capability owner) = mo_send owner"
  "rc_queue_id (receiver_capability C owner) = mo_queue_id owner"
  "rc_signing_key (receiver_capability C owner) = mo_receive owner"
  "mc_queue_id (manager_capability owner) = mo_queue_id owner"
  "mc_signing_key (manager_capability owner) = mo_manage owner"
  by (simp_all add: sender_capability_def receiver_capability_def manager_capability_def)

lemma request_sel [simp]:
  "reg_queue_id (registration C f owner v) = mo_queue_id owner"
  "reg_send_key (registration C f owner v) = public_key C (mo_send owner)"
  "reg_receive_key (registration C f owner v) = public_key C (mo_receive owner)"
  "reg_manage_key (registration C f owner v) = public_key C (mo_manage owner)"
  "reg_nonce (registration C f owner v) = nonce_random f"
  "reg_valid_until (registration C f owner v) = v"
  "snd_queue_id (authorize C sc m p v) = sc_queue_id sc"
  "snd_message_id (authorize C sc m p v) = m" "snd_packet (authorize C sc m p v) = p"
  "snd_expires_at (authorize C sc m p v) = v"
  "ftc_queue_id (authorize_fetch C f rc v) = rc_queue_id rc"
  "ftc_nonce (authorize_fetch C f rc v) = nonce_random f" "ftc_valid_until (authorize_fetch C f rc v) = v"
  "ack_queue_id (authorize_ack C rc om v) = rc_queue_id rc"
  "ack_message_id (authorize_ack C rc om v) = ve_message_id (om_envelope om)"
  "ack_packet_hash (authorize_ack C rc om v) = packet_digest C (ve_packet (om_envelope om))"
  "ack_valid_until (authorize_ack C rc om v) = v"
  "del_queue_id (authorize_delete C f mc v) = mc_queue_id mc"
  "del_nonce (authorize_delete C f mc v) = nonce_random f" "del_valid_until (authorize_delete C f mc v) = v"
  by (simp_all add: registration_def authorize_def authorize_fetch_def authorize_ack_def
      authorize_delete_def Let_def)

section \<open>The specification accepts them\<close>

lemma spec_register_honest:
  assumes "crypto_laws C" and "in_window (5 * 60) now v"
    and "boxes A (owner_queue owner) = None" and "digest C (owner_queue owner) \<notin> retired A"
  shows "spec_register C (registration C f owner v) now A =
    Inr (True, A\<lparr>boxes := (boxes A)(owner_queue owner \<mapsto> owner_box C owner)\<rparr>)"
  using assms in_window_times [OF assms(2)]
  by (simp add: spec_register_def registration_signs crypto_laws_verify owner_box_def Let_def)

lemma spec_enqueue_honest:
  assumes "crypto_laws C" and "in_window MAX_MESSAGE_TTL_SECONDS now e"
    and "boxes A (owner_queue owner) = Some (owner_box C owner)"
    and "packet_bytes p \<noteq> []" and "length (packet_bytes p) \<le> MAX_PACKET_BYTES"
    and "gone A (owner_queue owner, message_id_bytes m) = None"
    and "find (\<lambda>x. ms_message_id x = message_id_bytes m) (queue A (owner_queue owner)) = None"
  shows "spec_enqueue C (authorize C (sender_capability owner) m p e) now A =
    Inr (Stored, A\<lparr>queue := (queue A)(owner_queue owner := queue A (owner_queue owner) @
      [message_row_of C (authorize C (sender_capability owner) m p e) (uint e)])\<rparr>)"
  using assms in_window_expiry [OF assms(2)] owner_keys [OF assms(1,3)]
  by (simp add: spec_enqueue_def authorize_signs crypto_laws_verify message_row_of_def Let_def)

lemma spec_fetch_honest:
  assumes "crypto_laws C" and "in_window (5 * 60) now v"
    and "boxes A (owner_queue owner) = Some (owner_box C owner)"
    and "spent A (owner_queue owner, ''receive'', nonce_bytes (nonce_random f)) = None"
    and "envelopes_of_rows C (mo_queue_id owner) (queue A (owner_queue owner)) = Inr envs"
  shows "spec_fetch C (authorize_fetch C f (receiver_capability C owner) v) now A =
    Inr (envs, A\<lparr>spent := (spent A)((owner_queue owner, ''receive'', nonce_bytes (nonce_random f)) \<mapsto> uint v)\<rparr>)"
  using assms in_window_times [OF assms(2)] owner_keys [OF assms(1,3)]
  by (simp add: spec_fetch_def authorize_fetch_signs crypto_laws_verify Let_def)

lemma spec_acknowledge_honest:
  assumes "crypto_laws C" and "in_window (5 * 60) now v"
    and "boxes A (owner_queue owner) = Some (owner_box C owner)"
    and "find (\<lambda>x. ms_message_id x = message_id_bytes (ve_message_id (om_envelope om)))
      (queue A (owner_queue owner)) = Some row"
    and "ms_ciphertext row = packet_bytes (ve_packet (om_envelope om))"
    and "uint (u64_saturating_add now TOMBSTONE_TTL_SECONDS) < 2 ^ 63"
  shows "spec_acknowledge C (authorize_ack C (receiver_capability C owner) om v) now A =
    Inr (Deleted, A\<lparr>
      queue := (queue A)(owner_queue owner := filter (\<lambda>x. ms_message_id x \<noteq>
        message_id_bytes (ve_message_id (om_envelope om))) (queue A (owner_queue owner))),
      gone := (gone A)((owner_queue owner, message_id_bytes (ve_message_id (om_envelope om)))
        \<mapsto> uint (u64_saturating_add now TOMBSTONE_TTL_SECONDS))\<rparr>)"
  using assms in_window_times [OF assms(2)] owner_keys [OF assms(1,3)]
  by (simp add: spec_acknowledge_def authorize_ack_signs crypto_laws_verify packet_digest_def
      to_i64_def i64_try_from_def Let_def)

lemma spec_delete_mailbox_honest:
  assumes "crypto_laws C" and "in_window (5 * 60) now v"
    and "boxes A (owner_queue owner) = Some (owner_box C owner)"
    and "spent A (owner_queue owner, ''manage'', nonce_bytes (nonce_random f)) = None"
  shows "\<exists>A'. spec_delete_mailbox C (authorize_delete C f (manager_capability owner) v) now A = Inr (True, A')"
  using assms in_window_times [OF assms(2)] owner_keys [OF assms(1,3)]
  by (simp add: spec_delete_mailbox_def authorize_delete_signs crypto_laws_verify Let_def)

lemma envelopes_of_rows_total:
  "\<forall>row\<in>set rows. \<exists>env. envelope_of_row C q row = Inr env \<Longrightarrow> \<exists>envs. envelopes_of_rows C q rows = Inr envs"
  by (induction rows) (auto simp: and_then_eq_Inr_iff)

lemma queue_envelopes:
  assumes "relay_inv C db"
  shows "\<exists>envs. envelopes_of_rows C q (queue (view t db) (queue_id_bytes q)) = Inr envs"
proof (rule envelopes_of_rows_total, rule ballI)
  fix row
  assume "row \<in> set (queue (view t db) (queue_id_bytes q))"
  then have "message_inv C db row"
    using assms by (auto simp: view_def live_queue_def relay_inv_def)
  then show "\<exists>env. envelope_of_row C q row = Inr env"
    by (auto simp: message_inv_def message_check_def envelope_of_row_def message_id_from_slice_def
        u64_try_from_def)
qed

lemma random_ok:
  "length (f 16) = 16 \<Longrightarrow> nonce_ok (nonce_random f)" "length (f 16) = 16 \<Longrightarrow> message_id_ok (message_id_random f)"
  by (simp_all add: nonce_ok_def nonce_random_def message_id_ok_def message_id_random_def)

section \<open>The relay accepts them\<close>

text \<open>The relay's runs on honest requests when no database call fails, through the contract
  \<open>relay_operation\<close>.\<close>

lemma register_honest:
  fixes C :: "('kp, 'pk, 'sig) crypto" and rs :: relay and now :: u64
  defines "A \<equiv> view (uint now) (durable rs)"
  assumes "crypto_laws C" and "relay_inv C (durable rs)" and "calls rs = []"
    and "queue_id_ok (mo_queue_id owner)" and "length (f 16) = 16" and "in_window (5 * 60) now v"
    and "boxes A (owner_queue owner) = None" and "digest C (owner_queue owner) \<notin> retired A"
  obtains rs' where "register C (registration C f owner v) now rs = (Inr True, rs')"
    "view (uint now) (durable rs') = A\<lparr>boxes := (boxes A)(owner_queue owner \<mapsto> owner_box C owner)\<rparr>"
    "relay_inv C (durable rs')" "calls rs' = []"
  by (rule register_op.healthy_run [OF _ assms(3,4) spec_register_honest [OF assms(2,7-9), unfolded A_def]])
    (use assms random_ok(1) [of f] in simp_all)

lemma enqueue_honest:
  fixes C :: "('kp, 'pk, 'sig) crypto" and rs :: relay and now :: u64
  defines "A \<equiv> view (uint now) (durable rs)"
  assumes "crypto_laws C" and "relay_inv C (durable rs)" and "calls rs = []" and "message_id_ok m"
    and "in_window MAX_MESSAGE_TTL_SECONDS now e"
    and "boxes A (owner_queue owner) = Some (owner_box C owner)"
    and "packet_bytes p \<noteq> []" and "length (packet_bytes p) \<le> MAX_PACKET_BYTES"
    and "gone A (owner_queue owner, message_id_bytes m) = None"
    and "find (\<lambda>x. ms_message_id x = message_id_bytes m) (queue A (owner_queue owner)) = None"
  obtains rs' where "enqueue C (authorize C (sender_capability owner) m p e) now rs = (Inr Stored, rs')"
    "view (uint now) (durable rs') = A\<lparr>queue := (queue A)(owner_queue owner := queue A (owner_queue owner) @
      [message_row_of C (authorize C (sender_capability owner) m p e) (uint e)])\<rparr>"
    "relay_inv C (durable rs')" "calls rs' = []"
  by (rule enqueue_op.healthy_run [OF _ assms(3,4) spec_enqueue_honest [OF assms(2,6-11), unfolded A_def]])
    (use assms in simp_all)

lemma fetch_honest:
  fixes C :: "('kp, 'pk, 'sig) crypto" and rs :: relay and now :: u64
  defines "A \<equiv> view (uint now) (durable rs)"
  assumes "crypto_laws C" and "relay_inv C (durable rs)" and "calls rs = []" and "length (f 16) = 16"
    and "in_window (5 * 60) now v" and "boxes A (owner_queue owner) = Some (owner_box C owner)"
    and "spent A (owner_queue owner, ''receive'', nonce_bytes (nonce_random f)) = None"
  obtains envs rs' where
    "envelopes_of_rows C (mo_queue_id owner) (queue A (owner_queue owner)) = Inr envs"
    "fetch C (authorize_fetch C f (receiver_capability C owner) v) now rs = (Inr envs, rs')"
    "view (uint now) (durable rs') = A\<lparr>spent := (spent A)
      ((owner_queue owner, ''receive'', nonce_bytes (nonce_random f)) \<mapsto> uint v)\<rparr>"
    "relay_inv C (durable rs')" "calls rs' = []"
proof -
  obtain envs where envs: "envelopes_of_rows C (mo_queue_id owner) (queue A (owner_queue owner)) = Inr envs"
    using queue_envelopes [OF assms(3)] unfolding A_def by blast
  show thesis
    by (rule fetch_op.healthy_run [OF _ assms(3,4) spec_fetch_honest [OF assms(2,6-8) envs, unfolded A_def]])
      (use assms(5) random_ok(1) [of f] that envs in \<open>auto simp: A_def\<close>)
qed

lemma acknowledge_honest:
  fixes C :: "('kp, 'pk, 'sig) crypto" and rs :: relay and now :: u64
  defines "A \<equiv> view (uint now) (durable rs)"
  assumes "crypto_laws C" and "relay_inv C (durable rs)" and "calls rs = []"
    and "message_id_ok (ve_message_id (om_envelope om))" and "in_window (5 * 60) now v"
    and "boxes A (owner_queue owner) = Some (owner_box C owner)"
    and "find (\<lambda>x. ms_message_id x = message_id_bytes (ve_message_id (om_envelope om)))
      (queue A (owner_queue owner)) = Some row"
    and "ms_ciphertext row = packet_bytes (ve_packet (om_envelope om))"
    and "uint (u64_saturating_add now TOMBSTONE_TTL_SECONDS) < 2 ^ 63"
  obtains rs' where
    "acknowledge C (authorize_ack C (receiver_capability C owner) om v) now rs = (Inr Deleted, rs')"
    "view (uint now) (durable rs') = A\<lparr>
      queue := (queue A)(owner_queue owner := filter (\<lambda>x. ms_message_id x \<noteq>
        message_id_bytes (ve_message_id (om_envelope om))) (queue A (owner_queue owner))),
      gone := (gone A)((owner_queue owner, message_id_bytes (ve_message_id (om_envelope om)))
        \<mapsto> uint (u64_saturating_add now TOMBSTONE_TTL_SECONDS))\<rparr>"
    "relay_inv C (durable rs')" "calls rs' = []"
  by (rule acknowledge_op.healthy_run [OF _ assms(3,4) spec_acknowledge_honest [OF assms(2,6-10), unfolded A_def]])
    (use assms in simp_all)

lemma delete_mailbox_honest:
  fixes C :: "('kp, 'pk, 'sig) crypto" and rs :: relay and now :: u64
  defines "A \<equiv> view (uint now) (durable rs)"
  assumes "crypto_laws C" and "relay_inv C (durable rs)" and "calls rs = []" and "length (f 16) = 16"
    and "in_window (5 * 60) now v" and "boxes A (owner_queue owner) = Some (owner_box C owner)"
    and "spent A (owner_queue owner, ''manage'', nonce_bytes (nonce_random f)) = None"
  shows "fst (delete_mailbox C (authorize_delete C f (manager_capability owner) v) now rs) = Inr True"
proof -
  obtain A' where "spec_delete_mailbox C (authorize_delete C f (manager_capability owner) v) now
      (view (uint now) (durable rs)) = Inr (True, A')"
    using spec_delete_mailbox_honest [OF assms(2,6-8)] unfolding A_def by blast
  then show ?thesis
    by (rule delete_mailbox_op.healthy_run [OF _ assms(3,4), rotated])
      (use assms(2,5) random_ok(1) [of f] in simp_all)
qed

section \<open>Time\<close>

lemma uint_plus_small: "uint (a :: u64) + uint b < 2 ^ 64 \<Longrightarrow> uint (a + b) = uint a + uint b"
  by (simp add: uint_word_ariths)

lemma in_window_plus:
  assumes "uint now < 2 ^ 62" and "uint j < uint k" and "uint k \<le> uint j + uint d" and "uint k < 2 ^ 61"
  shows "in_window d (now + j) (now + k)"
proof -
  have "uint (now + j) = uint now + uint j" "uint (now + k) = uint now + uint k"
    using assms by (auto intro!: uint_plus_small)
  then show ?thesis
    using assms by (simp add: in_window_def word_less_def word_le_def uint_saturating_add)
qed

lemma tombstone_fits:
  assumes "uint now < 2 ^ 62" and "uint j < 2 ^ 61"
  shows "uint (u64_saturating_add (now + j) TOMBSTONE_TTL_SECONDS) < 2 ^ 63"
proof -
  have "uint (now + j) = uint now + uint j"
    using assms by (auto intro!: uint_plus_small)
  then show ?thesis
    using assms by (simp add: uint_saturating_add TOMBSTONE_TTL_SECONDS_def)
qed

section \<open>One message through a healthy relay\<close>

lemma acknowledge_swept:
  assumes "acknowledge C r now s = (Inr out, s')" and "calls s = []" and "x \<in> set (messages (durable s'))"
  shows "uint now < ms_expires_at x"
  using acknowledge_success [OF assms(1,2)] assms(3)
  by (auto simp: messages_table.sweep_rows delete_message_def delete_where_def upsert_tombstone_def
      and_then_eq_Inr_iff Let_def split: prod.splits if_splits dest!: sym [of _ "durable s'"])

lemma swept_empty:
  assumes "\<And>x. x \<in> set (messages db) \<Longrightarrow> t < ms_expires_at x" and "\<And>q. queue (view t db) q = []"
  shows "messages db = []"
proof (rule ccontr)
  assume "messages db \<noteq> []"
  then obtain x where "x \<in> set (messages db)"
    by (cases "messages db") auto
  then show False
    using assms(1) assms(2) [of "ms_queue_id x"]
    by (auto simp: view_def live_queue_def filter_empty_conv)
qed


lemma delivered:
  fixes C :: "('kp, 'pk, 'sig) crypto" and rs :: relay and now :: u64 and owner :: "'kp mailbox_owner"
    and m :: message_id and p :: encrypted_packet and e :: u64
  defines "A \<equiv> view (uint now) (durable rs)"
  defines "r \<equiv> authorize C (sender_capability owner) m p e"
  assumes laws: "crypto_laws C" and inv: "relay_inv C (durable rs)" and quiet: "calls rs = []"
    and f: "length (f 16) = 16" and m: "message_id_ok m"
    and v: "in_window (5 * 60) now v" and e: "in_window MAX_MESSAGE_TTL_SECONDS now e"
    and ttl: "uint (u64_saturating_add now TOMBSTONE_TTL_SECONDS) < 2 ^ 63"
    and box: "boxes A (owner_queue owner) = Some (owner_box C owner)"
    and clean: "queue A (owner_queue owner) = []" "gone A (owner_queue owner, message_id_bytes m) = None"
      "spent A (owner_queue owner, ''receive'', nonce_bytes (nonce_random f)) = None"
    and p: "packet_bytes p \<noteq> []" "length (packet_bytes p) \<le> MAX_PACKET_BYTES"
  obtains rs1 rs2 where "enqueue C r now rs = (Inr Stored, rs1)"
    "fetch C (authorize_fetch C f (receiver_capability C owner) v) now rs1 = (Inr [envelope_of_request r], rs2)"
    "\<And>om. ve_message_id (om_envelope om) = m \<Longrightarrow> ve_packet (om_envelope om) = p \<Longrightarrow>
      \<exists>rs3 g n. acknowledge C (authorize_ack C (receiver_capability C owner) om v) now rs2 = (Inr Deleted, rs3) \<and>
        relay_inv C (durable rs3) \<and> calls rs3 = [] \<and>
        view (uint now) (durable rs3) = A\<lparr>gone := (gone A)((owner_queue owner, message_id_bytes m) \<mapsto> g),
          spent := (spent A)((owner_queue owner, ''receive'', nonce_bytes (nonce_random f)) \<mapsto> n)\<rparr> \<and>
        (\<forall>x\<in>set (messages (durable rs3)). uint now < ms_expires_at x)"
proof -
  let ?q = "owner_queue owner" and ?n = "(owner_queue owner, ''receive'', nonce_bytes (nonce_random f))"
  let ?row = "message_row_of C r (uint e)" and ?a = "\<lambda>om. authorize_ack C (receiver_capability C owner) om v"
  have r: "snd_queue_id r = mo_queue_id owner" "snd_message_id r = m" "snd_packet r = p" "snd_expires_at r = e"
    by (simp_all add: r_def)
  obtain rs1 where rs1: "enqueue C r now rs = (Inr Stored, rs1)"
      "view (uint now) (durable rs1) = A\<lparr>queue := (queue A)(?q := [?row])\<rparr>" "relay_inv C (durable rs1)" "calls rs1 = []"
    unfolding r_def by (rule enqueue_honest [OF laws inv quiet m e _ p, of owner]) (use box clean in \<open>simp_all add: A_def\<close>)
  obtain rs2 where rs2: "fetch C (authorize_fetch C f (receiver_capability C owner) v) now rs1 =
      (Inr [envelope_of_request r], rs2)" "relay_inv C (durable rs2)" "calls rs2 = []"
      "view (uint now) (durable rs2) = A\<lparr>queue := (queue A)(?q := [?row]), spent := (spent A)(?n \<mapsto> uint v)\<rparr>"
    by (rule fetch_honest [where f = f, OF laws rs1(3,4) f v, of owner])
      (use box clean envelope_of_message_row [OF laws, of r] m r in \<open>simp_all add: rs1(2)\<close>)
  have "\<exists>rs3 g n. acknowledge C (?a om) now rs2 = (Inr Deleted, rs3) \<and>
        relay_inv C (durable rs3) \<and> calls rs3 = [] \<and>
        view (uint now) (durable rs3) = A\<lparr>gone := (gone A)((?q, message_id_bytes m) \<mapsto> g),
          spent := (spent A)(?n \<mapsto> n)\<rparr> \<and>
        (\<forall>x\<in>set (messages (durable rs3)). uint now < ms_expires_at x)"
    if om: "ve_message_id (om_envelope om) = m" "ve_packet (om_envelope om) = p" for om
  proof -
    let ?g = "uint (u64_saturating_add now TOMBSTONE_TTL_SECONDS)"
    have row: "ms_message_id ?row = message_id_bytes m" "ms_ciphertext ?row = packet_bytes p"
        "(queue A)(?q := []) = queue A"
      using clean(1) by (auto simp: message_row_of_def r)
    obtain rs3 where "acknowledge C (?a om) now rs2 = (Inr Deleted, rs3)"
        "view (uint now) (durable rs3) = A\<lparr>gone := (gone A)((?q, message_id_bytes m) \<mapsto> ?g),
          spent := (spent A)(?n \<mapsto> uint v)\<rparr>" "relay_inv C (durable rs3)" "calls rs3 = []"
      by (rule acknowledge_honest [OF laws rs2(2,3) _ v _ _ _ ttl, of om owner ?row])
        (use om m box in \<open>simp_all add: rs2(4) row r\<close>)
    then show ?thesis
      using acknowledge_swept [OF _ rs2(3)] by blast
  qed
  then show thesis
    using that rs1(1) rs2(1) by blast
qed

lemma view_later:
  assumes "t \<le> t'"
  shows "boxes (view t' db) = boxes (view t db)" "retired (view t' db) = retired (view t db)"
    and "queue (view t db) q = [] \<Longrightarrow> queue (view t' db) q = []"
    and "gone (view t db) k = None \<Longrightarrow> gone (view t' db) k = None"
    and "spent (view t db) n = None \<Longrightarrow> spent (view t' db) n = None"
  using assms by (fastforce simp: view_def live_queue_def live_deadline_None_iff has_key_iff filter_empty_conv)+

section \<open>Property\<close>

text \<open>C14. Honest requests are accepted: when no database call fails, a registration of a new and
  never retired queue succeeds, and for a mailbox registered under its owner's keys a send with a
  packet within the size bounds and a fresh identifier is stored, a fetch with an unused nonce is
  answered, an acknowledgement of a queued packet deletes it and a deletion with an unused nonce
  succeeds, provided each carries a deadline inside its window.\<close>

theorem honest_requests_are_accepted:
  assumes "crypto_laws C" and "relay_inv C (durable s)" and "calls s = []"
    and "queue_id_ok (mo_queue_id owner)" and "length (f 16) = 16" and "message_id_ok m"
    and "in_window (5 * 60) now v" and "in_window MAX_MESSAGE_TTL_SECONDS now e"
    and "uint (u64_saturating_add now TOMBSTONE_TTL_SECONDS) < 2 ^ 63"
    and A: "A = view (uint now) (durable s)"
  shows "(boxes A (owner_queue owner) = None \<and> digest C (owner_queue owner) \<notin> retired A \<longrightarrow>
      fst (register C (registration C f owner v) now s) = Inr True) \<and>
    (boxes A (owner_queue owner) = Some (owner_box C owner) \<longrightarrow>
      (packet_bytes p \<noteq> [] \<and> length (packet_bytes p) \<le> MAX_PACKET_BYTES \<and>
       gone A (owner_queue owner, message_id_bytes m) = None \<and>
       find (\<lambda>x. ms_message_id x = message_id_bytes m) (queue A (owner_queue owner)) = None \<longrightarrow>
       fst (enqueue C (authorize C (sender_capability owner) m p e) now s) = Inr Stored) \<and>
      (spent A (owner_queue owner, ''receive'', nonce_bytes (nonce_random f)) = None \<longrightarrow>
       (\<exists>envs. fst (fetch C (authorize_fetch C f (receiver_capability C owner) v) now s) = Inr envs)) \<and>
      (ve_message_id (om_envelope om) = m \<and>
       (\<exists>row. find (\<lambda>x. ms_message_id x = message_id_bytes m) (queue A (owner_queue owner)) = Some row \<and>
         ms_ciphertext row = packet_bytes (ve_packet (om_envelope om))) \<longrightarrow>
       fst (acknowledge C (authorize_ack C (receiver_capability C owner) om v) now s) = Inr Deleted) \<and>
      (spent A (owner_queue owner, ''manage'', nonce_bytes (nonce_random f)) = None \<longrightarrow>
       fst (delete_mailbox C (authorize_delete C f (manager_capability owner) v) now s) = Inr True))"
  unfolding A
proof (intro conjI impI, goal_cases)
  case 1
  show ?case
    by (rule register_honest [where f = f, OF assms(1-5,7)]) (use 1 in simp_all)
next
  case 2
  show ?case
    by (rule enqueue_honest [OF assms(1-3,6,8), of owner p]) (use 2 in simp_all)
next
  case 3
  show ?case
    by (rule fetch_honest [where f = f, OF assms(1-3,5,7), of owner]) (use 3 in auto)
next
  case 4
  then obtain row where row: "find (\<lambda>x. ms_message_id x = message_id_bytes m)
      (queue (view (uint now) (durable s)) (owner_queue owner)) = Some row"
    "ms_ciphertext row = packet_bytes (ve_packet (om_envelope om))" by blast
  show ?case
    by (rule acknowledge_honest [OF assms(1-3) _ assms(7) _ _ _ assms(9), of om owner row])
      (use 4 assms(6) row in simp_all)
next
  case 5
  then show ?case
    by (intro delete_mailbox_honest [where f = f, OF assms(1-3,5,7)])
qed

theorem honest_requests_are_accepted_witness:
  "fst (enqueue example_crypto (authorize example_crypto (sender_capability example_owner)
      (MessageId (replicate 16 3)) (EncryptedPacket [1, 2]) 400) 50 (relay_of example_db)) = Inr Stored \<and>
   (\<exists>envs. fst (fetch example_crypto (authorize_fetch example_crypto (\<lambda>n. replicate n 7)
      (receiver_capability example_crypto example_owner) 90) 50 (relay_of example_db)) = Inr envs)"
proof -
  have "boxes (view 50 example_db) (owner_queue example_owner) = Some (owner_box example_crypto example_owner)"
    by (simp add: view_def example_db_def empty_relay_db_def example_mailbox_def example_owner_def
        mailbox_keys_def owner_box_def example_crypto_def)
  moreover have "in_window (5 * 60) 50 90" "in_window MAX_MESSAGE_TTL_SECONDS 50 400"
    by (simp_all add: in_window_def u64_saturating_add_def MAX_MESSAGE_TTL_SECONDS_def)
  ultimately show ?thesis
    using honest_requests_are_accepted [OF crypto_laws_example, of "relay_of example_db" example_owner
        "\<lambda>n. replicate n 7" "MessageId (replicate 16 3)" 50 90 400 "view 50 example_db"
        "EncryptedPacket [1, 2]"] example_inv(2)
    by (simp add: relay_of_def id_ok_defs example_owner_def MAX_PACKET_BYTES_def u64_saturating_add_def
        TOMBSTONE_TTL_SECONDS_def view_def live_deadline_def live_queue_def example_db_def empty_relay_db_def)
qed

end
