(* ===== verification/Client.thy ===== *)
theory Client
  imports Capability Sql_Transaction
begin

text \<open>
  The endpoint client of \<^verbatim>\<open>src/src/client.rs\<close>: contact bundles and their verification, the
  outbound session, sealing, and the two staged openings. The Olm ratchet and the JSON codec
  are third-party code and enter as the record \<open>olm\<close>; a method that takes \<^verbatim>\<open>&mut self\<close>
  returns the object it leaves behind, also when it fails.
\<close>

section \<open>Third-party ratchet and codec\<close>

datatype ('prk, 'norm) olm_message = PreKey 'prk | Normal 'norm

text \<open>\<^verbatim>\<open>Account\<close>: \<open>generate_one_time_keys\<close>, \<open>one_time_keys\<close> (the values in iteration order),
  \<open>mark_keys_as_published\<close>, \<open>ed25519_key\<close>, \<open>curve25519_key\<close>, \<open>account_sign\<close>,
  \<open>create_outbound_session\<close>, \<open>create_inbound_session\<close>, \<open>account_pickle\<close>; \<^verbatim>\<open>Session\<close>:
  \<open>encrypt\<close>, \<open>decrypt\<close>, \<open>session_pickle\<close>; \<^verbatim>\<open>Curve25519PublicKey::as_bytes\<close>; \<^verbatim>\<open>serde_json\<close> on
  \<^verbatim>\<open>PlainMessage\<close> and \<^verbatim>\<open>OlmMessage\<close>. \<open>None\<close> is an \<^verbatim>\<open>Err\<close>.\<close>

record ('acc, 'sess, 'prk, 'norm, 'cpk, 'pk, 'sig, 'apk, 'spk) olm =
  generate_one_time_keys :: "nat \<Rightarrow> 'acc \<Rightarrow> 'acc"
  one_time_keys :: "'acc \<Rightarrow> 'cpk list"
  mark_keys_as_published :: "'acc \<Rightarrow> 'acc"
  ed25519_key :: "'acc \<Rightarrow> 'pk"
  curve25519_key :: "'acc \<Rightarrow> 'cpk"
  account_sign :: "'acc \<Rightarrow> bytes \<Rightarrow> 'sig"
  create_outbound_session :: "'acc \<Rightarrow> 'cpk \<Rightarrow> 'cpk \<Rightarrow> 'sess option"
  create_inbound_session :: "'acc \<Rightarrow> 'cpk \<Rightarrow> 'prk \<Rightarrow> ('sess \<times> bytes) option \<times> 'acc"
  account_pickle :: "'acc \<Rightarrow> 'apk"
  account_from_pickle :: "'apk \<Rightarrow> 'acc"
  encrypt :: "'sess \<Rightarrow> bytes \<Rightarrow> ('prk, 'norm) olm_message option \<times> 'sess"
  decrypt :: "'sess \<Rightarrow> ('prk, 'norm) olm_message \<Rightarrow> bytes option \<times> 'sess"
  session_pickle :: "'sess \<Rightarrow> 'spk"
  session_from_pickle :: "'spk \<Rightarrow> 'sess"
  cpk_bytes :: "'cpk \<Rightarrow> bytes"
  plain_to_vec :: "plain_message \<Rightarrow> bytes option"
  plain_from_slice :: "bytes \<Rightarrow> plain_message option"
  olm_to_vec :: "('prk, 'norm) olm_message \<Rightarrow> bytes option"
  olm_from_slice :: "bytes \<Rightarrow> ('prk, 'norm) olm_message option"

section \<open>Contact bundles\<close>

definition PAYLOAD_VERSION :: byte where "PAYLOAD_VERSION = 1"

definition CONTACT_BUNDLE_ACTION :: bytes where
  "CONTACT_BUNDLE_ACTION = ascii ''peer-prekey''"

definition CONTACT_BUNDLE_MAX_VALIDITY_SECONDS :: u64 where
  "CONTACT_BUNDLE_MAX_VALIDITY_SECONDS = 5 * 60"

record ('pk, 'cpk, 'sig) peer_pre_key =
  pp_signing_identity :: 'pk
  pp_curve_identity :: 'cpk
  pp_one_time_key :: 'cpk
  pp_valid_until :: u64
  pp_signature :: 'sig

record ('pk, 'cpk) verified_peer_pre_key =
  vp_signing_identity :: 'pk
  vp_curve_identity :: 'cpk
  vp_one_time_key :: 'cpk
  vp_valid_until :: u64

definition peer_prekey_signing_bytes ::
    "('kp, 'pk, 'sig) crypto \<Rightarrow> ('cpk \<Rightarrow> bytes) \<Rightarrow> 'pk \<Rightarrow> 'cpk \<Rightarrow> 'cpk \<Rightarrow> u64 \<Rightarrow> bytes" where
  "peer_prekey_signing_bytes C cpk signing_identity curve_identity one_time_key valid_until =
     canonical CONTACT_BUNDLE_ACTION
       [pk_bytes C signing_identity, cpk curve_identity, cpk one_time_key,
        u64_to_be_bytes valid_until]"

definition peer_pre_key_verify ::
    "('kp, 'pk, 'sig) crypto \<Rightarrow> ('cpk \<Rightarrow> bytes) \<Rightarrow> ('pk, 'cpk, 'sig) peer_pre_key \<Rightarrow> 'pk \<Rightarrow> u64 \<Rightarrow>
     ('pk, 'cpk) verified_peer_pre_key result" where
  "peer_pre_key_verify C cpk p pinned now =
     (if pp_signing_identity p \<noteq> pinned \<or> pp_valid_until p \<le> now \<or>
         pp_valid_until p > u64_saturating_add now CONTACT_BUNDLE_MAX_VALIDITY_SECONDS
      then Inl PeerVerificationFailed
      else and_then (ensure (verify C pinned
          (peer_prekey_signing_bytes C cpk (pp_signing_identity p) (pp_curve_identity p)
            (pp_one_time_key p) (pp_valid_until p)) (pp_signature p)) PeerVerificationFailed) (\<lambda>_.
        Inr \<lparr>vp_signing_identity = pp_signing_identity p, vp_curve_identity = pp_curve_identity p,
             vp_one_time_key = pp_one_time_key p, vp_valid_until = pp_valid_until p\<rparr>))"

section \<open>The client\<close>

record ('acc, 'sess) olm_client =
  account :: 'acc
  session :: "'sess option"
  conversation_id :: conversation_id
  displayed_messages :: "message_id set"

text \<open>\<^verbatim>\<open>Account::new\<close> is the argument \<open>a\<close>.\<close>

definition olm_client_new :: "'acc \<Rightarrow> conversation_id \<Rightarrow> ('acc, 'sess) olm_client" where
  "olm_client_new a conv =
     \<lparr>account = a, session = None, conversation_id = conv, displayed_messages = {}\<rparr>"

definition prekey_bundle ::
    "('kp, 'pk, 'sig) crypto \<Rightarrow>
     ('acc, 'sess, 'prk, 'norm, 'cpk, 'pk, 'sig, 'apk, 'spk) olm \<Rightarrow> u64 \<Rightarrow>
     (('acc, 'sess) olm_client, ('pk, 'cpk, 'sig) peer_pre_key) prog" where
  "prekey_bundle C O' valid_until = (\<lambda>c.
     let a = generate_one_time_keys O' 1 (account c);
         c1 = c\<lparr>account := a\<rparr>
     in case one_time_keys O' a of
          [] \<Rightarrow> (Inl Crypto, c1)
        | one_time_key # _ \<Rightarrow>
            let signing_identity = ed25519_key O' a;
                curve_identity = curve25519_key O' a;
                signature = account_sign O' a (peer_prekey_signing_bytes C (cpk_bytes O')
                  signing_identity curve_identity one_time_key valid_until);
                bundle = \<lparr>pp_signing_identity = signing_identity,
                  pp_curve_identity = curve_identity, pp_one_time_key = one_time_key,
                  pp_valid_until = valid_until, pp_signature = signature\<rparr>
            in (Inr bundle, c1\<lparr>account := mark_keys_as_published O' a\<rparr>))"

definition start_outbound_session ::
    "('acc, 'sess, 'prk, 'norm, 'cpk, 'pk, 'sig, 'apk, 'spk) olm \<Rightarrow>
     ('pk, 'cpk) verified_peer_pre_key \<Rightarrow> u64 \<Rightarrow> (('acc, 'sess) olm_client, unit) prog" where
  "start_outbound_session O' peer now = (\<lambda>c.
     if session c \<noteq> None then (Inl SessionAlreadyExists, c)
     else if vp_valid_until peer \<le> now then (Inl PeerVerificationFailed, c)
     else case create_outbound_session O' (account c) (vp_curve_identity peer)
            (vp_one_time_key peer) of
          None \<Rightarrow> (Inl Crypto, c)
        | Some s \<Rightarrow> (Inr (), c\<lparr>session := Some s\<rparr>))"

definition seal ::
    "('acc, 'sess, 'prk, 'norm, 'cpk, 'pk, 'sig, 'apk, 'spk) olm \<Rightarrow> (nat \<Rightarrow> bytes) \<Rightarrow> string \<Rightarrow>
     u64 \<Rightarrow> (('acc, 'sess) olm_client, message_id \<times> encrypted_packet) prog" where
  "seal O' fill_bytes body sent_at = (\<lambda>c.
     let message_id = message_id_random fill_bytes;
         plaintext = \<lparr>pm_version = PAYLOAD_VERSION, pm_conversation_id = conversation_id c,
           pm_message_id = message_id, pm_sent_at = sent_at, pm_body = body\<rparr>
     in case plain_to_vec O' plaintext of
          None \<Rightarrow> (Inl Encoding, c)
        | Some encoded \<Rightarrow>
        (case session c of
           None \<Rightarrow> (Inl MissingSession, c)
         | Some s \<Rightarrow>
         (case encrypt O' s encoded of
            (None, s') \<Rightarrow> (Inl Crypto, c\<lparr>session := Some s'\<rparr>)
          | (Some encrypted, s') \<Rightarrow>
          (case olm_to_vec O' encrypted of
             None \<Rightarrow> (Inl Encoding, c\<lparr>session := Some s'\<rparr>)
           | Some packet \<Rightarrow>
               (Inr (message_id, EncryptedPacket packet), c\<lparr>session := Some s'\<rparr>)))))"

definition validate_plaintext ::
    "('acc, 'sess, 'prk, 'norm, 'cpk, 'pk, 'sig, 'apk, 'spk) olm \<Rightarrow> ('acc, 'sess) olm_client \<Rightarrow>
     bytes \<Rightarrow> message_id \<Rightarrow> plain_message result" where
  "validate_plaintext O' c plaintext outer_message_id =
     and_then (ok_or (plain_from_slice O' plaintext) InvalidPayload) (\<lambda>message.
     if pm_version message \<noteq> PAYLOAD_VERSION then Inl InvalidPayload
     else if pm_conversation_id message \<noteq> conversation_id c then Inl WrongConversation
     else if pm_message_id message \<noteq> outer_message_id then Inl MessageIdMismatch
     else if pm_message_id message \<in> displayed_messages c then Inl DuplicateMessage
     else Inr message)"

definition open_initial ::
    "('acc, 'sess, 'prk, 'norm, 'cpk, 'pk, 'sig, 'apk, 'spk) olm \<Rightarrow> verified_envelope \<Rightarrow>
     ('pk, 'cpk) verified_peer_pre_key \<Rightarrow> u64 \<Rightarrow> (('acc, 'sess) olm_client, opened_message) prog"
where
  "open_initial O' envelope expected_sender now = (\<lambda>c.
     if session c \<noteq> None then (Inl SessionAlreadyExists, c)
     else if ve_expires_at envelope \<le> now then (Inl Unauthorized, c)
     else case olm_from_slice O' (packet_bytes (ve_packet envelope)) of
       None \<Rightarrow> (Inl Encoding, c)
     | Some (Normal _) \<Rightarrow> (Inl ExpectedPreKey, c)
     | Some (PreKey pre_key) \<Rightarrow>
       (let candidate = account_from_pickle O' (account_pickle O' (account c))
        in case create_inbound_session O' candidate (vp_curve_identity expected_sender) pre_key of
          (None, _) \<Rightarrow> (Inl Crypto, c)
        | (Some (inbound_session, inbound_plaintext), candidate_account) \<Rightarrow>
          (case validate_plaintext O' c inbound_plaintext (ve_message_id envelope) of
             Inl e \<Rightarrow> (Inl e, c)
           | Inr plaintext \<Rightarrow>
               (Inr \<lparr>om_message = plaintext, om_envelope = envelope\<rparr>,
                c\<lparr>account := candidate_account, session := Some inbound_session,
                  displayed_messages := insert (pm_message_id plaintext) (displayed_messages c)\<rparr>))))"

definition open_message ::
    "('acc, 'sess, 'prk, 'norm, 'cpk, 'pk, 'sig, 'apk, 'spk) olm \<Rightarrow> verified_envelope \<Rightarrow> u64 \<Rightarrow>
     (('acc, 'sess) olm_client, opened_message) prog" where
  "open_message O' envelope now = (\<lambda>c.
     if ve_expires_at envelope \<le> now then (Inl Unauthorized, c)
     else case olm_from_slice O' (packet_bytes (ve_packet envelope)) of
       None \<Rightarrow> (Inl Encoding, c)
     | Some olm_message \<Rightarrow>
       (case session c of
          None \<Rightarrow> (Inl MissingSession, c)
        | Some s \<Rightarrow>
          (case decrypt O' (session_from_pickle O' (session_pickle O' s)) olm_message of
             (None, _) \<Rightarrow> (Inl Crypto, c)
           | (Some plaintext, candidate_session) \<Rightarrow>
             (case validate_plaintext O' c plaintext (ve_message_id envelope) of
                Inl e \<Rightarrow> (Inl e, c)
              | Inr message \<Rightarrow>
                  (Inr \<lparr>om_message = message, om_envelope = envelope\<rparr>,
                   c\<lparr>session := Some candidate_session,
                     displayed_messages :=
                       insert (pm_message_id message) (displayed_messages c)\<rparr>)))))"

section \<open>The contract of an opening operation\<close>

locale staged_opening =
  fixes try_open :: "verified_envelope \<Rightarrow> u64 \<Rightarrow> ('acc, 'sess) olm_client \<Rightarrow>
    opened_message result \<times> ('acc, 'sess) olm_client"
  assumes failure_unchanged: "try_open env now c = (Inl e, c') \<Longrightarrow> c' = c"
    and success_bound: "try_open env now c = (Inr om, c') \<Longrightarrow>
      om_envelope om = env \<and> now < ve_expires_at env \<and>
      pm_version (om_message om) = PAYLOAD_VERSION \<and>
      pm_conversation_id (om_message om) = conversation_id c \<and>
      pm_message_id (om_message om) = ve_message_id env"
    and success_fresh: "try_open env now c = (Inr om, c') \<Longrightarrow>
      ve_message_id env \<notin> displayed_messages c \<and>
      displayed_messages c' = insert (ve_message_id env) (displayed_messages c) \<and>
      conversation_id c' = conversation_id c \<and> session c' \<noteq> None"
begin

lemma displayed_grows: "displayed_messages c \<subseteq> displayed_messages (snd (try_open env now c))"
proof (cases "fst (try_open env now c)")
  case (Inl e)
  then show ?thesis
    using failure_unchanged [of env now c e] by (metis order_refl prod.collapse)
next
  case (Inr om)
  then show ?thesis
    using success_fresh [of env now c om] by (metis prod.collapse subset_insertI)
qed

lemma conversation_kept: "conversation_id (snd (try_open env now c)) = conversation_id c"
proof (cases "fst (try_open env now c)")
  case (Inl e)
  then show ?thesis
    using failure_unchanged [of env now c e] by (metis prod.collapse)
next
  case (Inr om)
  then show ?thesis
    using success_fresh [of env now c om] by (metis prod.collapse)
qed

lemma session_kept: "session c \<noteq> None \<Longrightarrow> session (snd (try_open env now c)) \<noteq> None"
proof (cases "fst (try_open env now c)")
  case (Inl e)
  moreover assume "session c \<noteq> None"
  ultimately show ?thesis
    using failure_unchanged [of env now c e] by (metis prod.collapse)
next
  case (Inr om)
  then show ?thesis
    using success_fresh [of env now c om] by (metis prod.collapse)
qed

lemma displayed_refused:
  "ve_message_id env \<in> displayed_messages c \<Longrightarrow> fst (try_open env now c) \<noteq> Inr om"
  using success_fresh [of env now c om] by (metis prod.collapse)

end

lemma validate_plaintext_Inr_iff:
  "validate_plaintext O' c bs m = Inr p \<longleftrightarrow>
     plain_from_slice O' bs = Some p \<and> pm_version p = PAYLOAD_VERSION \<and>
     pm_conversation_id p = conversation_id c \<and> pm_message_id p = m \<and> m \<notin> displayed_messages c"
  by (auto simp: validate_plaintext_def and_then_eq_Inr_iff ok_or_eq_Inr_iff)

interpretation open_initial_staged: staged_opening "\<lambda>env now. open_initial O' env peer now" for O' peer
  by unfold_locales (auto simp: open_initial_def Let_def validate_plaintext_Inr_iff
      split: if_splits option.splits olm_message.splits prod.splits sum.splits)

interpretation open_staged: staged_opening "open_message O'" for O'
  by unfold_locales (auto simp: open_message_def validate_plaintext_Inr_iff
      split: if_splits option.splits prod.splits sum.splits)

section \<open>Histories of a client\<close>

inductive client_step ::
    "('kp, 'pk, 'sig) crypto \<Rightarrow> ('acc, 'sess, 'prk, 'norm, 'cpk, 'pk, 'sig, 'apk, 'spk) olm \<Rightarrow>
     ('acc, 'sess) olm_client \<Rightarrow> ('acc, 'sess) olm_client \<Rightarrow> bool" for C O' where
  exported: "client_step C O' c (snd (prekey_bundle C O' valid_until c))"
| outbound: "client_step C O' c (snd (start_outbound_session O' peer now c))"
| sealing: "client_step C O' c (snd (seal O' fill_bytes body sent_at c))"
| opened_initial: "client_step C O' c (snd (open_initial O' env peer now c))"
| opened: "client_step C O' c (snd (open_message O' env now c))"

inductive client_reaches ::
    "('kp, 'pk, 'sig) crypto \<Rightarrow> ('acc, 'sess, 'prk, 'norm, 'cpk, 'pk, 'sig, 'apk, 'spk) olm \<Rightarrow>
     ('acc, 'sess) olm_client \<Rightarrow> ('acc, 'sess) olm_client \<Rightarrow> bool" for C O' where
  client_start: "client_reaches C O' c c"
| client_next: "client_reaches C O' c c1 \<Longrightarrow> client_step C O' c1 c2 \<Longrightarrow> client_reaches C O' c c2"

lemma prekey_bundle_frame:
  "displayed_messages (snd (prekey_bundle C O' v c)) = displayed_messages c \<and>
   conversation_id (snd (prekey_bundle C O' v c)) = conversation_id c \<and>
   session (snd (prekey_bundle C O' v c)) = session c"
  by (simp add: prekey_bundle_def Let_def split: list.split)

lemma start_outbound_session_frame:
  "displayed_messages (snd (start_outbound_session O' p now c)) = displayed_messages c \<and>
   conversation_id (snd (start_outbound_session O' p now c)) = conversation_id c \<and>
   (session c \<noteq> None \<longrightarrow> session (snd (start_outbound_session O' p now c)) = session c)"
  by (auto simp: start_outbound_session_def split: option.split)

lemma seal_frame:
  "displayed_messages (snd (seal O' f b t c)) = displayed_messages c \<and>
   conversation_id (snd (seal O' f b t c)) = conversation_id c \<and>
   (session c \<noteq> None \<longrightarrow> session (snd (seal O' f b t c)) \<noteq> None)"
  by (auto simp: seal_def Let_def split: option.split prod.split)

lemma client_step_frame:
  assumes "client_step C O' c c'"
  shows "displayed_messages c \<subseteq> displayed_messages c' \<and> conversation_id c' = conversation_id c \<and>
    (session c \<noteq> None \<longrightarrow> session c' \<noteq> None)"
  using assms
  by cases (simp_all add: prekey_bundle_frame start_outbound_session_frame seal_frame
      open_initial_staged.displayed_grows open_initial_staged.conversation_kept
      open_initial_staged.session_kept open_staged.displayed_grows open_staged.conversation_kept
      open_staged.session_kept)

lemma client_reaches_frame:
  assumes "client_reaches C O' c c'"
  shows "displayed_messages c \<subseteq> displayed_messages c' \<and> conversation_id c' = conversation_id c \<and>
    (session c \<noteq> None \<longrightarrow> session c' \<noteq> None)"
  using assms by (induction rule: client_reaches.induct) (auto dest!: client_step_frame)

end
