(* ===== verification/Client_Laws.thy ===== *)
theory Client_Laws
  imports Client
begin

text \<open>
  The documented behaviour of the Olm ratchet and of the JSON codec that properties of the
  client name as hypotheses, and a small ratchet that satisfies all of it, on which closed
  examples evaluate.
\<close>

section \<open>Laws of the third-party code\<close>

text \<open>The documented behaviour that the theorems rely on, each used only where it is named: curve
  keys have 32 distinguishing bytes; an account's signature verifies under its own identity,
  which key generation does not change; pickling and the JSON codecs round-trip.\<close>

definition curve_key_laws :: "('cpk \<Rightarrow> bytes) \<Rightarrow> bool" where
  "curve_key_laws cpk \<longleftrightarrow> (\<forall>k. length (cpk k) = 32) \<and> inj cpk"

definition account_laws ::
    "('kp, 'pk, 'sig) crypto \<Rightarrow> ('acc, 'sess, 'prk, 'norm, 'cpk, 'pk, 'sig, 'apk, 'spk) olm \<Rightarrow> bool"
where
  "account_laws C O' \<longleftrightarrow> (\<forall>a m. verify C (ed25519_key O' a) m (account_sign O' a m)) \<and>
     (\<forall>a n. ed25519_key O' (generate_one_time_keys O' n a) = ed25519_key O' a)"

definition pickle_laws :: "('acc, 'sess, 'prk, 'norm, 'cpk, 'pk, 'sig, 'apk, 'spk) olm \<Rightarrow> bool" where
  "pickle_laws O' \<longleftrightarrow> (\<forall>a. account_from_pickle O' (account_pickle O' a) = a) \<and>
     (\<forall>s. session_from_pickle O' (session_pickle O' s) = s)"

definition codec_laws :: "('acc, 'sess, 'prk, 'norm, 'cpk, 'pk, 'sig, 'apk, 'spk) olm \<Rightarrow> bool" where
  "codec_laws O' \<longleftrightarrow>
     (\<forall>p bs. plain_to_vec O' p = Some bs \<longrightarrow> length (conversation_id_bytes (pm_conversation_id p)) = 16 \<longrightarrow>
        message_id_ok (pm_message_id p) \<longrightarrow> plain_from_slice O' bs = Some p) \<and>
     (\<forall>m bs. olm_to_vec O' m = Some bs \<longrightarrow> olm_from_slice O' bs = Some m)"

text \<open>Two sessions are paired when the second decrypts what the first encrypts next.\<close>

definition paired ::
    "('acc, 'sess, 'prk, 'norm, 'cpk, 'pk, 'sig, 'apk, 'spk) olm \<Rightarrow> 'sess \<Rightarrow> 'sess \<Rightarrow> bool" where
  "paired O' s r \<longleftrightarrow> (\<forall>m ct s'. encrypt O' s m = (Some ct, s') \<longrightarrow> fst (decrypt O' r ct) = Some m)"

section \<open>A concrete ratchet for closed examples\<close>

definition example_plain_to_vec :: "plain_message \<Rightarrow> bytes option" where
  "example_plain_to_vec p = Some (pm_version p # conversation_id_bytes (pm_conversation_id p) @
     message_id_bytes (pm_message_id p) @ u64_to_be_bytes (pm_sent_at p) @ ascii (pm_body p))"

definition example_plain_from_slice :: "bytes \<Rightarrow> plain_message option" where
  "example_plain_from_slice bs = (case bs of [] \<Rightarrow> None | v # rest \<Rightarrow>
     Some \<lparr>pm_version = v, pm_conversation_id = ConversationId (take 16 rest),
       pm_message_id = MessageId (take 16 (drop 16 rest)),
       pm_sent_at = word_of_nat (be_value (take 8 (drop 32 rest))),
       pm_body = map (\<lambda>b. char_of (unat b)) (drop 40 rest)\<rparr>)"

definition example_olm_to_vec :: "(bytes, bytes) olm_message \<Rightarrow> bytes option" where
  "example_olm_to_vec m = Some (case m of PreKey bs \<Rightarrow> 0 # bs | Normal bs \<Rightarrow> 1 # bs)"

definition example_olm_from_slice :: "bytes \<Rightarrow> (bytes, bytes) olm_message option" where
  "example_olm_from_slice bs = (case bs of
     [] \<Rightarrow> None | t # rest \<Rightarrow> if t = 0 then Some (PreKey rest) else if t = 1 then Some (Normal rest) else None)"

definition example_olm :: "(byte, bool, bytes, bytes, byte, byte, byte, byte, bool) olm" where
  "example_olm = \<lparr>
     generate_one_time_keys = (\<lambda>n a. a),
     one_time_keys = (\<lambda>a. [a + 1]),
     mark_keys_as_published = (\<lambda>a. a),
     ed25519_key = (\<lambda>a. a),
     curve25519_key = (\<lambda>a. a + 2),
     account_sign = sign example_crypto,
     create_outbound_session = (\<lambda>a i k. Some True),
     create_inbound_session = (\<lambda>a i bs. (Some (False, bs), a)),
     account_pickle = (\<lambda>a. a), account_from_pickle = (\<lambda>a. a),
     encrypt = (\<lambda>s bs. (Some (if s then PreKey bs else Normal bs), s)),
     decrypt = (\<lambda>s m. (case m of PreKey bs \<Rightarrow> (Some bs, False) | Normal bs \<Rightarrow> (Some bs, False))),
     session_pickle = (\<lambda>s. s), session_from_pickle = (\<lambda>s. s),
     cpk_bytes = (\<lambda>k. replicate 31 0 @ [k]),
     plain_to_vec = example_plain_to_vec, plain_from_slice = example_plain_from_slice,
     olm_to_vec = example_olm_to_vec, olm_from_slice = example_olm_from_slice\<rparr>"

lemma char_of_byte [simp]: "char_of (unat (of_char c :: byte)) = c"
proof -
  have "(of_char c :: byte) = of_nat (of_char c)"
    by (cases c) (simp add: of_char_def)
  moreover have "(of_char c :: nat) < 2 ^ LENGTH(8)" by simp
  ultimately have "unat (of_char c :: byte) = of_char c"
    by (simp add: unsigned_of_nat take_bit_nat_eq_self)
  then show ?thesis by simp
qed

lemma word_of_be_value [simp]: "word_of_nat (be_value (u64_to_be_bytes w)) = w"
proof -
  have "unat w < 18446744073709551616" using unsigned_less [of w, where ?'a = nat] by simp
  then show ?thesis by (simp add: u64_to_be_bytes_def be_value_be_bytes)
qed

lemma length_u64_to_be_bytes8: "length (u64_to_be_bytes w) = 8"
  by (simp add: u64_to_be_bytes_def)

lemma example_plain_codec:
  "length (conversation_id_bytes (pm_conversation_id p)) = 16 \<Longrightarrow> message_id_ok (pm_message_id p) \<Longrightarrow>
   example_plain_to_vec p = Some bs \<Longrightarrow> example_plain_from_slice bs = Some p"
  by (auto simp: example_plain_to_vec_def example_plain_from_slice_def message_id_ok_def ascii_def
      length_u64_to_be_bytes8 o_def)

lemma example_olm_laws:
  "curve_key_laws (cpk_bytes example_olm)" "account_laws example_crypto example_olm"
  "pickle_laws example_olm" "codec_laws example_olm" "paired example_olm s r"
  by (auto simp: curve_key_laws_def account_laws_def example_olm_def example_crypto_def codec_laws_def
      example_olm_to_vec_def example_olm_from_slice_def example_plain_codec pickle_laws_def paired_def
      inj_def split: olm_message.split)

section \<open>Closed examples\<close>

definition example_conversation :: conversation_id where
  "example_conversation = ConversationId (replicate 16 9)"

definition example_plain :: plain_message where
  "example_plain = \<lparr>pm_version = 1, pm_conversation_id = example_conversation,
     pm_message_id = MessageId (replicate 16 2), pm_sent_at = 50, pm_body = ''hi''\<rparr>"

definition example_envelope :: verified_envelope where
  "example_envelope = \<lparr>ve_queue_id = QueueId (replicate 32 1), ve_message_id = MessageId (replicate 16 2),
     ve_packet = EncryptedPacket (0 # the (example_plain_to_vec example_plain)), ve_expires_at = 100\<rparr>"

definition example_peer :: "(byte, byte) verified_peer_pre_key" where
  "example_peer = \<lparr>vp_signing_identity = 5, vp_curve_identity = 7, vp_one_time_key = 6, vp_valid_until = 90\<rparr>"

definition example_fresh :: "(byte, bool) olm_client" where
  "example_fresh = olm_client_new 8 example_conversation"

definition example_open :: "(byte, bool) olm_client" where
  "example_open = example_fresh\<lparr>session := Some False,
     displayed_messages := {MessageId (replicate 16 2)}\<rparr>"

lemma example_codec_eval:
  "example_plain_from_slice (the (example_plain_to_vec example_plain)) = Some example_plain"
  by (rule example_plain_codec)
    (simp_all add: example_plain_def example_conversation_def message_id_ok_def example_plain_to_vec_def)

lemma example_plain_fields:
  "pm_version example_plain = PAYLOAD_VERSION" "pm_conversation_id example_plain = example_conversation"
  "pm_message_id example_plain = MessageId (replicate 16 2)"
  by (simp_all add: example_plain_def PAYLOAD_VERSION_def)

lemmas example_client_eval =
  example_olm_def example_envelope_def example_fresh_def example_open_def olm_client_new_def
  example_olm_from_slice_def example_olm_to_vec_def validate_plaintext_def example_codec_eval
  example_plain_fields

lemma example_open_initial:
  "open_initial example_olm example_envelope example_peer 60 example_fresh =
     (Inr \<lparr>om_message = example_plain, om_envelope = example_envelope\<rparr>, example_open)"
  by (simp add: open_initial_def example_client_eval)

end
