(* ===== verification/Client_Properties.thy ===== *)
theory Client_Properties
  imports Client_Laws
begin

text \<open>
  What the endpoint client promises: staging of a refused opening, one display per message,
  the binding of what is displayed, sessions that are never replaced, contact bundles that
  bind and verify, and the way from sealing through a mailbox capability to opening.
\<close>

lemma prekey_signing_bytes_eq_iff:
  assumes "crypto_laws C" and "curve_key_laws cpk"
  shows "peer_prekey_signing_bytes C cpk i c k v = peer_prekey_signing_bytes C cpk i' c' k' v' \<longleftrightarrow>
    i = i' \<and> c = c' \<and> k = k' \<and> v = v'"
  using assms
  by (simp add: peer_prekey_signing_bytes_def canonical_eq_iff crypto_laws_pk crypto_laws_pk_inject
      curve_key_laws_def CONTACT_BUNDLE_ACTION_def inj_eq)

lemma seal_success:
  assumes "seal O' fill_bytes body sent_at c = (Inr (mid, packet), c')"
  shows "mid = message_id_random fill_bytes \<and>
    (\<exists>s s' encoded ct. session c = Some s \<and> c' = c\<lparr>session := Some s'\<rparr> \<and>
       plain_to_vec O' \<lparr>pm_version = PAYLOAD_VERSION, pm_conversation_id = conversation_id c,
         pm_message_id = mid, pm_sent_at = sent_at, pm_body = body\<rparr> = Some encoded \<and>
       encrypt O' s encoded = (Some ct, s') \<and> olm_to_vec O' ct = Some (packet_bytes packet))"
  using assms by (auto simp: seal_def Let_def split: option.splits prod.splits)

lemma seal_failure:
  assumes "seal O' fill_bytes body sent_at c = (Inl e, c')"
  shows "e \<in> {Encoding, MissingSession, Crypto} \<and> (session c = None \<longrightarrow> c' = c \<and> e \<noteq> Crypto)"
  using assms by (auto simp: seal_def Let_def split: option.splits prod.splits)

lemma canonical_other_action:
  assumes "length a \<noteq> length b" and "\<forall>p\<in>set (a # ps). length p < 2 ^ 64"
    and "\<forall>q\<in>set (b # qs). length q < 2 ^ 64"
  shows "canonical a ps \<noteq> canonical b qs"
  using assms canonical_eq_iff by blast

lemma prekey_signing_bytes_separate:
  assumes "crypto_laws C" and "curve_key_laws cpk" and "command_ok d"
  shows "peer_prekey_signing_bytes C cpk i c k v \<noteq> command_signing_bytes C d"
  using assms unfolding peer_prekey_signing_bytes_def
  by (cases d) (simp_all add: signing_bytes_defs id_ok_defs canonical_other_action crypto_laws_pk
      crypto_laws_packet_digest_length curve_key_laws_def CONTACT_BUNDLE_ACTION_def)

text \<open>A body sealed on an established session, authorised with the send capability of a mailbox,
  verified with its receive capability and opened by the peer's paired session is displayed as
  it was written.\<close>

lemma sealed_message_opens:
  assumes "crypto_laws C" and "codec_laws O'" and "pickle_laws O'"
    and "session alice = Some s" and "session bob = Some r" and "paired O' s r"
    and "conversation_id bob = conversation_id alice"
    and "length (conversation_id_bytes (conversation_id alice)) = 16"
    and "length (fill_bytes 16) = 16"
    and sealed: "fst (seal O' fill_bytes body sent_at alice) = Inr (mid, packet)"
    and "mid \<notin> displayed_messages bob" and "now < expires_at"
  shows "\<exists>v om. verify_envelope C (receiver_capability C owner) (envelope_of_request
        (authorize C (sender_capability owner) mid packet expires_at)) now = Inr v \<and>
    fst (open_message O' v now bob) = Inr om \<and> pm_body (om_message om) = body \<and>
    pm_sent_at (om_message om) = sent_at \<and> pm_message_id (om_message om) = mid"
proof -
  let ?p = "\<lparr>pm_version = PAYLOAD_VERSION, pm_conversation_id = conversation_id alice,
      pm_message_id = mid, pm_sent_at = sent_at, pm_body = body\<rparr>"
  let ?v = "\<lparr>ve_queue_id = mo_queue_id owner, ve_message_id = mid, ve_packet = packet,
      ve_expires_at = expires_at\<rparr>"
  obtain encoded ct s' where e: "plain_to_vec O' ?p = Some encoded"
      "encrypt O' s encoded = (Some ct, s')" "olm_to_vec O' ct = Some (packet_bytes packet)"
      "mid = message_id_random fill_bytes"
    using sealed assms(4) by (auto simp: seal_def Let_def split: option.splits prod.splits)
  have "message_id_ok mid"
    using e(4) assms(9) by (simp add: message_id_ok_def message_id_random_def)
  then have parsed: "plain_from_slice O' encoded = Some ?p"
      "olm_from_slice O' (packet_bytes packet) = Some ct"
    using assms(2,8) e by (simp_all add: codec_laws_def)
  have "verify_envelope C (receiver_capability C owner) (envelope_of_request
      (authorize C (sender_capability owner) mid packet expires_at)) now = Inr ?v"
    using assms(1,12)
    by (simp add: verify_envelope_def envelope_of_request_def authorize_def sender_capability_def
        receiver_capability_def send_signing_bytes_def crypto_laws_verify Let_def not_less)
  moreover obtain r' where "decrypt O' r ct = (Some encoded, r')"
    using assms(6) e(2) unfolding paired_def by (metis prod.collapse)
  then have "fst (open_message O' ?v now bob) = Inr \<lparr>om_message = ?p, om_envelope = ?v\<rparr>"
    using assms(3,5,7,11,12) parsed
    by (simp add: open_message_def pickle_laws_def validate_plaintext_def not_le)
  ultimately show ?thesis by simp
qed

text \<open>C18. A refused packet costs nothing: when \<^verbatim>\<open>open_initial\<close> or \<^verbatim>\<open>open\<close> returns an error, the
  account with its one-time keys, the ratchet session, the conversation and the set of
  displayed messages are exactly what they were, whatever the ratchet did to its staged
  copies.\<close>

theorem refused_opening_leaves_client:
  assumes "try_open = open_initial O' env peer now \<or> try_open = open_message O' env now"
    and "fst (try_open c) = Inl e"
  shows "snd (try_open c) = c"
proof -
  have opened: "try_open c = (Inl e, snd (try_open c))"
    using assms(2) by (metis prod.collapse)
  from assms(1) show ?thesis
  proof
    assume "try_open = open_initial O' env peer now"
    with opened show ?thesis by (metis open_initial_staged.failure_unchanged)
  next
    assume "try_open = open_message O' env now"
    with opened show ?thesis by (metis open_staged.failure_unchanged)
  qed
qed

theorem refused_opening_leaves_client_witness:
  "snd (open_message example_olm example_envelope 100 example_open) = example_open \<and>
   snd (open_initial example_olm (example_envelope\<lparr>ve_message_id := MessageId (replicate 16 3)\<rparr>)
     example_peer 60 example_fresh) = example_fresh"
  using refused_opening_leaves_client [of "open_message example_olm example_envelope 100"
      example_olm example_envelope example_peer 100 example_open Unauthorized]
    refused_opening_leaves_client [of "open_initial example_olm
        (example_envelope\<lparr>ve_message_id := MessageId (replicate 16 3)\<rparr>) example_peer 60" example_olm
      "example_envelope\<lparr>ve_message_id := MessageId (replicate 16 3)\<rparr>" example_peer 60 example_fresh
      MessageIdMismatch]
  by (simp add: open_message_def open_initial_def example_client_eval)

text \<open>C12. A message is displayed at most once: after one successful opening, in every later state
  of the client, no packet under the same message identifier is opened again by either
  operation, whatever is exported, sealed, started or opened in between.\<close>

theorem message_displayed_at_most_once:
  assumes "open_initial O' env peer now c = (Inr om, c1) \<or> open_message O' env now c = (Inr om, c1)"
    and "client_reaches C O' c1 c2" and "ve_message_id env' = ve_message_id env"
  shows "fst (open_initial O' env' peer' now' c2) \<noteq> Inr om' \<and>
    fst (open_message O' env' now' c2) \<noteq> Inr om'"
proof -
  have "ve_message_id env \<in> displayed_messages c1"
    using assms(1) open_initial_staged.success_fresh open_staged.success_fresh by blast
  then have "ve_message_id env' \<in> displayed_messages c2"
    using client_reaches_frame [OF assms(2)] assms(3) by auto
  then show ?thesis
    using open_initial_staged.displayed_refused open_staged.displayed_refused by blast
qed

theorem message_displayed_at_most_once_witness:
  "fst (open_message example_olm example_envelope 61
     (snd (seal example_olm (\<lambda>n. replicate n 4) ''reply'' 60 example_open))) \<noteq>
     Inr \<lparr>om_message = example_plain, om_envelope = example_envelope\<rparr>"
  using message_displayed_at_most_once [OF disjI1, OF example_open_initial
      client_next [OF client_start sealing]]
  by blast

text \<open>C30. What is displayed is bound to what was delivered: an opened message has the payload
  version, the conversation of the client in which it was opened, since that client was
  created, and the message identifier of its outer envelope, whose expiry has not passed.\<close>

theorem opened_message_is_bound:
  assumes "client_reaches C O' (olm_client_new a conv) c"
    and "fst (open_initial O' env peer now c) = Inr om \<or> fst (open_message O' env now c) = Inr om"
  shows "om_envelope om = env \<and> now < ve_expires_at env \<and>
    pm_version (om_message om) = PAYLOAD_VERSION \<and> pm_conversation_id (om_message om) = conv \<and>
    pm_message_id (om_message om) = ve_message_id env"
proof -
  have "conversation_id c = conv"
    using client_reaches_frame [OF assms(1)] by (simp add: olm_client_new_def)
  moreover obtain c' where
    "open_initial O' env peer now c = (Inr om, c') \<or> open_message O' env now c = (Inr om, c')"
    using assms(2) by (metis prod.collapse)
  ultimately show ?thesis
    by (elim disjE) (auto dest: open_initial_staged.success_bound open_staged.success_bound)
qed

theorem opened_message_is_bound_witness:
  "pm_conversation_id example_plain = example_conversation \<and>
   pm_message_id example_plain = ve_message_id example_envelope"
  using opened_message_is_bound [of example_crypto example_olm 8 example_conversation example_fresh
      example_envelope example_peer 60 "\<lparr>om_message = example_plain, om_envelope = example_envelope\<rparr>"]
    client_start [of example_crypto example_olm example_fresh]
  by (simp add: example_fresh_def [symmetric] example_open_initial)

text \<open>Sealing fails closed: a packet leaves the client only as the encoding of what the
  established session encrypted, the encrypted payload being the versioned message with the
  client's conversation and the returned identifier; without a session nothing is returned
  and nothing changes.\<close>

lemma seal_only_encrypts:
  assumes "seal O' fill_bytes body sent_at c = (r, c')"
  shows "case r of
      Inl e \<Rightarrow> e \<in> {Encoding, MissingSession, Crypto} \<and>
        (session c = None \<longrightarrow> c' = c \<and> e \<noteq> Crypto)
    | Inr (mid, packet) \<Rightarrow> mid = message_id_random fill_bytes \<and>
        (\<exists>s s' encoded ct. session c = Some s \<and> c' = c\<lparr>session := Some s'\<rparr> \<and>
           plain_to_vec O' \<lparr>pm_version = PAYLOAD_VERSION, pm_conversation_id = conversation_id c,
             pm_message_id = mid, pm_sent_at = sent_at, pm_body = body\<rparr> = Some encoded \<and>
           encrypt O' s encoded = (Some ct, s') \<and> olm_to_vec O' ct = Some (packet_bytes packet))"
proof (cases r)
  case (Inl e)
  then show ?thesis
    using assms seal_failure [of O' fill_bytes body sent_at c e c'] by simp
next
  case (Inr x)
  then show ?thesis
    using assms seal_success [of O' fill_bytes body sent_at c "fst x" "snd x" c']
    unfolding Inr sum.case case_prod_beta prod.collapse by blast
qed

theorem seal_only_encrypts_witness:
  "\<exists>e. seal example_olm (\<lambda>n. replicate n 4) ''hi'' 60 example_fresh = (Inl e, example_fresh) \<and>
     e \<noteq> Crypto"
  using seal_only_encrypts [of example_olm "\<lambda>n. replicate n 4" "''hi''" 60 example_fresh
      "Inl MissingSession" example_fresh]
  by (simp add: seal_def example_fresh_def olm_client_new_def example_olm_def
      example_plain_to_vec_def Let_def)

text \<open>C31. A session is never replaced: once a client has one, in every later state both ways of
  establishing a session are refused with \<open>SessionAlreadyExists\<close> and leave the client
  unchanged; and no session is ever started from a contact bundle that has expired.\<close>

theorem session_never_replaced:
  assumes "session c \<noteq> None" and "client_reaches C O' c c'"
  shows "start_outbound_session O' peer now c' = (Inl SessionAlreadyExists, c') \<and>
    open_initial O' env peer now c' = (Inl SessionAlreadyExists, c')"
  using client_reaches_frame [OF assms(2)] assms(1)
  by (simp add: start_outbound_session_def open_initial_def)

theorem session_never_replaced_witness:
  "start_outbound_session example_olm example_peer 60
     (snd (seal example_olm (\<lambda>n. replicate n 4) ''reply'' 60 example_open)) =
   (Inl SessionAlreadyExists, snd (seal example_olm (\<lambda>n. replicate n 4) ''reply'' 60 example_open))"
  using session_never_replaced [OF _ client_next [OF client_start sealing],
      of example_open example_olm example_peer 60]
  by (simp add: example_open_def)

text \<open>C32. Contact bundles: what \<^verbatim>\<open>prekey_bundle\<close> exports is accepted by \<^verbatim>\<open>verify\<close> against the
  exporting client's identity exactly in the window of five minutes that ends at its
  \<^verbatim>\<open>valid_until\<close>, as integers, and is refused against every other identity.\<close>

theorem exported_bundle_verifies:
  assumes "account_laws C O'" and "fst (prekey_bundle C O' valid_until c) = Inr p"
  shows "peer_pre_key_verify C (cpk_bytes O') p pinned now =
    (if pinned = ed25519_key O' (account c) \<and> uint now < uint valid_until \<and>
        uint valid_until \<le> uint now + 300
     then Inr \<lparr>vp_signing_identity = pp_signing_identity p, vp_curve_identity = pp_curve_identity p,
               vp_one_time_key = pp_one_time_key p, vp_valid_until = valid_until\<rparr>
     else Inl PeerVerificationFailed)"
proof -
  let ?a = "generate_one_time_keys O' 1 (account c)"
  have key: "ed25519_key O' ?a = ed25519_key O' (account c)"
    and signs: "\<And>m. verify C (ed25519_key O' ?a) m (account_sign O' ?a m)"
    using assms(1) unfolding account_laws_def by blast+
  have p: "pp_signing_identity p = ed25519_key O' (account c)" "pp_valid_until p = valid_until"
      "verify C (ed25519_key O' (account c)) (peer_prekey_signing_bytes C (cpk_bytes O')
        (pp_signing_identity p) (pp_curve_identity p) (pp_one_time_key p) (pp_valid_until p))
        (pp_signature p)"
    using assms(2) signs
    by (auto simp: prekey_bundle_def Let_def key [symmetric] split: list.splits)
  have "valid_until > u64_saturating_add now CONTACT_BUNDLE_MAX_VALIDITY_SECONDS \<longleftrightarrow>
      uint valid_until > uint now + 300"
    using uint_lt2p [of valid_until]
    by (auto simp: word_less_def uint_saturating_add CONTACT_BUNDLE_MAX_VALIDITY_SECONDS_def)
  then show ?thesis
    using p by (auto simp: peer_pre_key_verify_def word_le_def word_less_def not_le)
qed

theorem exported_bundle_verifies_witness:
  "\<exists>p. fst (prekey_bundle example_crypto example_olm 360 example_fresh) = Inr p \<and>
     (\<exists>v. peer_pre_key_verify example_crypto (cpk_bytes example_olm) p 8 60 = Inr v) \<and>
     peer_pre_key_verify example_crypto (cpk_bytes example_olm) p 8 59 = Inl PeerVerificationFailed"
  using exported_bundle_verifies [OF example_olm_laws(2), of 360 example_fresh]
  by (simp add: prekey_bundle_def example_fresh_def olm_client_new_def example_olm_def Let_def)

text \<open>C33. The signature of a contact bundle binds all of it and nothing else: two bundles have the
  same signing bytes exactly when identity, curve identity, one-time key and deadline agree,
  and no relay command is ever signed over the same bytes.\<close>

theorem bundle_signature_binds:
  assumes "crypto_laws C" and "curve_key_laws cpk" and "command_ok d"
  shows "(peer_prekey_signing_bytes C cpk i c k v = peer_prekey_signing_bytes C cpk i' c' k' v' \<longleftrightarrow>
      i = i' \<and> c = c' \<and> k = k' \<and> v = v') \<and>
    peer_prekey_signing_bytes C cpk i c k v \<noteq> command_signing_bytes C d"
  using assms by (simp add: prekey_signing_bytes_eq_iff prekey_signing_bytes_separate)

theorem bundle_signature_binds_witness:
  "peer_prekey_signing_bytes example_crypto (cpk_bytes example_olm) 1 2 3 60 \<noteq>
   peer_prekey_signing_bytes example_crypto (cpk_bytes example_olm) 1 3 2 60"
  using bundle_signature_binds [OF crypto_laws_example example_olm_laws(1),
      of "CFetch \<lparr>ftc_queue_id = QueueId (replicate 32 1), ftc_nonce = Nonce (replicate 16 2),
        ftc_valid_until = 60, ftc_signature = 4\<rparr>" 1 2 3 60 1 3 2 60]
  by (simp add: id_ok_defs)

text \<open>C34. The two ways to establish a session treat an expired contact bundle differently: from
  its deadline on \<^verbatim>\<open>start_outbound_session\<close> refuses it, while \<^verbatim>\<open>open_initial\<close> returns the
  same result and the same client as for any other deadline of the bundle.\<close>

theorem expired_bundle_boundary:
  assumes "session c = None" and "v \<le> now"
  shows "start_outbound_session O' (peer\<lparr>vp_valid_until := v\<rparr>) now c =
      (Inl PeerVerificationFailed, c) \<and>
    open_initial O' env (peer\<lparr>vp_valid_until := v\<rparr>) now c = open_initial O' env peer now c"
  using assms
  by (simp add: start_outbound_session_def open_initial_def Let_def
      cong: option.case_cong olm_message.case_cong)

theorem expired_bundle_boundary_witness:
  "open_initial example_olm example_envelope (example_peer\<lparr>vp_valid_until := 1\<rparr>) 60 example_fresh =
     (Inr \<lparr>om_message = example_plain, om_envelope = example_envelope\<rparr>, example_open)"
  using expired_bundle_boundary [of example_fresh 1 60 example_olm example_peer example_envelope]
    example_open_initial
  by (simp add: example_fresh_def olm_client_new_def)

end
