(* ===== verification/State_Envelope.thy ===== *)
theory State_Envelope
  imports Capability
begin

text \<open>
  The outer envelope of the encrypted client state, \<^verbatim>\<open>src/src/persistence/envelope.rs\<close>, and the
  profile binding of \<^verbatim>\<open>src/src/persistence/protector.rs\<close>. XChaCha20-Poly1305 and SHA-256 are
  third-party code and enter as the record \<open>aead\<close>; the associated data and its framing are
  the code's own.
\<close>

section \<open>Third-party cryptography\<close>

text \<open>\<open>aead_encrypt\<close> and \<open>aead_decrypt\<close> take the key, the nonce, the associated data and the
  message; \<open>None\<close> is an \<^verbatim>\<open>Err\<close>.\<close>

record aead =
  aead_encrypt :: "bytes \<Rightarrow> bytes \<Rightarrow> bytes \<Rightarrow> bytes \<Rightarrow> bytes option"
  aead_decrypt :: "bytes \<Rightarrow> bytes \<Rightarrow> bytes \<Rightarrow> bytes \<Rightarrow> bytes option"
  aead_sha256 :: "bytes \<Rightarrow> bytes"

definition aead_laws :: "aead \<Rightarrow> bool" where
  "aead_laws A \<longleftrightarrow>
     (\<forall>k n a m c. aead_encrypt A k n a m = Some c \<longrightarrow>
        aead_decrypt A k n a c = Some m \<and> length c = length m + 16) \<and>
     (\<forall>bs. length (aead_sha256 A bs) = 32)"

section \<open>The profile binding\<close>

record profile_binding =
  pb_profile_id :: bytes
  pb_key_ref :: bytes

definition binding_ok :: "profile_binding \<Rightarrow> bool" where
  "binding_ok b \<longleftrightarrow> length (pb_profile_id b) = 16 \<and> length (pb_key_ref b) = 16"

section \<open>Envelope\<close>

definition ENVELOPE_VERSION :: int where "ENVELOPE_VERSION = 1"
definition CRYPTO_SUITE :: int where "CRYPTO_SUITE = 1"
definition STATE_SCHEMA_VERSION :: int where "STATE_SCHEMA_VERSION = 1"
definition MAX_CIPHERTEXT_BYTES :: nat where "MAX_CIPHERTEXT_BYTES = 8 * 1024 * 1024"
definition NONCE_BYTES :: nat where "NONCE_BYTES = 24"
definition MAX_PLAINTEXT_BYTES :: nat where "MAX_PLAINTEXT_BYTES = MAX_CIPHERTEXT_BYTES - 16"
definition MAX_WRAPPED_DEK_BYTES :: nat where "MAX_WRAPPED_DEK_BYTES = 8192"

definition STATE_DOMAIN :: bytes where
  "STATE_DOMAIN = ascii ''secure-messenger-lab/client-state''"

definition VODOZEMAC_VERSION :: bytes where
  "VODOZEMAC_VERSION = ascii ''0.10.0''"

definition state_append_part :: "bytes \<Rightarrow> bytes \<Rightarrow> bytes result" where
  "state_append_part encoded part =
     (if length part < 2 ^ 32 then Inr (encoded @ be_bytes 4 (length part) @ part)
      else Inl Storage)"

text \<open>The loop over the parts.\<close>

primrec state_append_parts :: "bytes \<Rightarrow> bytes list \<Rightarrow> bytes result" where
  "state_append_parts encoded [] = Inr encoded"
| "state_append_parts encoded (part # parts) =
     and_then (state_append_part encoded part) (\<lambda>encoded'. state_append_parts encoded' parts)"

definition aad_parts :: "aead \<Rightarrow> profile_binding \<Rightarrow> u64 \<Rightarrow> bytes \<Rightarrow> bytes list" where
  "aad_parts A binding generation wrapped_dek =
     [STATE_DOMAIN, i64_to_be_bytes ENVELOPE_VERSION, i64_to_be_bytes CRYPTO_SUITE,
      pb_profile_id binding, u64_to_be_bytes generation, pb_key_ref binding,
      aead_sha256 A wrapped_dek, PROTOCOL_DOMAIN, VODOZEMAC_VERSION,
      i64_to_be_bytes STATE_SCHEMA_VERSION]"

definition aad :: "aead \<Rightarrow> profile_binding \<Rightarrow> u64 \<Rightarrow> bytes \<Rightarrow> bytes result" where
  "aad A binding generation wrapped_dek =
     state_append_parts [] (aad_parts A binding generation wrapped_dek)"

definition validate_header :: "u64 \<Rightarrow> bytes \<Rightarrow> nat \<Rightarrow> unit result" where
  "validate_header generation wrapped_dek plaintext_len =
     (if generation = 0 \<or> i64_try_from generation = None \<or> wrapped_dek = [] \<or>
         length wrapped_dek > MAX_WRAPPED_DEK_BYTES \<or> plaintext_len > MAX_PLAINTEXT_BYTES
      then Inl Storage else Inr ())"

text \<open>\<^verbatim>\<open>XChaCha20Poly1305::new_from_slice\<close> fails unless the key has 32 bytes.\<close>

definition state_seal ::
    "aead \<Rightarrow> profile_binding \<Rightarrow> u64 \<Rightarrow> bytes \<Rightarrow> bytes \<Rightarrow> bytes \<Rightarrow> bytes \<Rightarrow> bytes result" where
  "state_seal A binding generation wrapped_dek dek nonce plaintext =
     and_then (validate_header generation wrapped_dek (length plaintext)) (\<lambda>_.
     and_then (aad A binding generation wrapped_dek) (\<lambda>ad.
     if length dek \<noteq> 32 then Inl Storage
     else and_then (ok_or (aead_encrypt A dek nonce ad plaintext) Storage) (\<lambda>ciphertext.
     if length ciphertext > MAX_CIPHERTEXT_BYTES then Inl Storage else Inr ciphertext)))"

definition state_open ::
    "aead \<Rightarrow> profile_binding \<Rightarrow> u64 \<Rightarrow> bytes \<Rightarrow> bytes \<Rightarrow> bytes \<Rightarrow> bytes \<Rightarrow> bytes result" where
  "state_open A binding generation wrapped_dek dek nonce ciphertext =
     (if length ciphertext < 16 \<or> length ciphertext > MAX_CIPHERTEXT_BYTES then Inl Storage
      else and_then (validate_header generation wrapped_dek (length ciphertext - 16)) (\<lambda>_.
      and_then (aad A binding generation wrapped_dek) (\<lambda>ad.
      if length dek \<noteq> 32 then Inl Storage
      else ok_or (aead_decrypt A dek nonce ad ciphertext) Storage)))"

section \<open>Lemmas\<close>

lemmas state_limits =
  MAX_CIPHERTEXT_BYTES_def MAX_PLAINTEXT_BYTES_def MAX_WRAPPED_DEK_BYTES_def NONCE_BYTES_def

lemma state_append_parts_frames:
  "\<forall>p\<in>set parts. length p < 2 ^ 32 \<Longrightarrow>
   state_append_parts encoded parts = Inr (encoded @ u32_frame.frames parts)"
  by (induction parts arbitrary: encoded)
    (simp_all add: state_append_part_def u32_frame.frames_Cons u32_frame.frame_def)

lemma aad_parts_short:
  assumes "aead_laws A" and "binding_ok b"
  shows "\<forall>p\<in>set (aad_parts A b g w). length p < 2 ^ 32"
  using assms
  by (simp add: aad_parts_def aead_laws_def binding_ok_def STATE_DOMAIN_def VODOZEMAC_VERSION_def)

lemma aad_frames:
  "aead_laws A \<Longrightarrow> binding_ok b \<Longrightarrow> aad A b g w = Inr (u32_frame.frames (aad_parts A b g w))"
  by (simp add: aad_def state_append_parts_frames [OF aad_parts_short])

lemma aad_eq_iff:
  assumes "aead_laws A" and "binding_ok b" and "binding_ok b'"
  shows "aad A b g w = aad A b' g' w' \<longleftrightarrow>
    b = b' \<and> g = g' \<and> aead_sha256 A w = aead_sha256 A w'"
proof
  assume "aad A b g w = aad A b' g' w'"
  then have "u32_frame.frames (aad_parts A b g w) = u32_frame.frames (aad_parts A b' g' w')"
    using assms by (simp add: aad_frames)
  then have "aad_parts A b g w = aad_parts A b' g' w'"
    using u32_frame.frames_inject aad_parts_short assms by blast
  then show "b = b' \<and> g = g' \<and> aead_sha256 A w = aead_sha256 A w'"
    by (simp add: aad_parts_def)
qed (simp add: aad_def aad_parts_def)

lemma state_seal_Inr_iff:
  "state_seal A b g w dek n m = Inr c \<longleftrightarrow>
     validate_header g w (length m) = Inr () \<and> length dek = 32 \<and>
     (\<exists>ad. aad A b g w = Inr ad \<and> aead_encrypt A dek n ad m = Some c) \<and>
     length c \<le> MAX_CIPHERTEXT_BYTES"
  by (cases "length c \<le> MAX_CIPHERTEXT_BYTES")
    (auto simp: state_seal_def and_then_eq_Inr_iff ok_or_eq_Inr_iff not_less split: if_splits)

lemma state_open_Inr_iff:
  "state_open A b g w dek n c = Inr m \<longleftrightarrow>
     16 \<le> length c \<and> length c \<le> MAX_CIPHERTEXT_BYTES \<and>
     validate_header g w (length c - 16) = Inr () \<and> length dek = 32 \<and>
     (\<exists>ad. aad A b g w = Inr ad \<and> aead_decrypt A dek n ad c = Some m)"
  by (auto simp: state_open_def and_then_eq_Inr_iff ok_or_eq_Inr_iff split: if_splits)

lemma state_seal_open:
  assumes "aead_laws A" and "state_seal A b g w dek n m = Inr c"
  shows "state_open A b g w dek n c = Inr m \<and> length c = length m + 16"
  using assms by (auto simp: state_seal_Inr_iff state_open_Inr_iff aead_laws_def)

lemma state_seal_total:
  assumes "aead_laws A" and "binding_ok b" and "length dek = 32" and "0 < g" and "uint g < 2 ^ 63"
    and "w \<noteq> []" and "length w \<le> MAX_WRAPPED_DEK_BYTES" and "length m \<le> MAX_PLAINTEXT_BYTES"
    and "\<And>ad. aead_encrypt A dek n ad m \<noteq> None"
  shows "\<exists>c. state_seal A b g w dek n m = Inr c"
proof -
  obtain ad where ad: "aad A b g w = Inr ad"
    using assms(1,2) by (simp add: aad_frames)
  obtain c where c: "aead_encrypt A dek n ad m = Some c"
    using assms(9) by blast
  then have "length c \<le> MAX_CIPHERTEXT_BYTES"
    using assms(1,8) by (auto simp: aead_laws_def state_limits)
  then show ?thesis
    using assms ad c by (auto simp: state_seal_Inr_iff validate_header_def i64_try_from_def)
qed

end
