(* ===== verification/Companion.thy ===== *)
theory Companion
  imports Lab_Prelude
begin

text \<open>
  The companion-file inspection of \<^verbatim>\<open>src/src/companion.rs\<close>, which both stores run before
  SQLite opens a database. The file system is what \<^verbatim>\<open>std::fs\<close> shows of it: resolved paths,
  file metadata, and files that can be opened and read, each possibly failing.
\<close>

section \<open>The file system\<close>

datatype io_error = NotFound | UnexpectedEof | OtherIo

record open_file =
  file_content :: bytes
  file_unreadable :: bool

record file_metadata =
  fm_is_file :: bool
  fm_len :: nat

record file_system =
  fs_canonicalize :: "string \<Rightarrow> string option"
  fs_metadata :: "string \<Rightarrow> io_error + file_metadata"
  fs_open :: "string \<Rightarrow> io_error + open_file"

text \<open>\<^verbatim>\<open>Read::read_exact\<close> on a freshly opened file.\<close>

definition read_exact :: "nat \<Rightarrow> open_file \<Rightarrow> io_error + bytes" where
  "read_exact n f =
     (if file_unreadable f then Inl OtherIo
      else if length (file_content f) < n then Inl UnexpectedEof
      else Inr (take n (file_content f)))"

section \<open>The inspection\<close>

definition nonempty_companion :: "file_system \<Rightarrow> string \<Rightarrow> string \<Rightarrow> bool result" where
  "nonempty_companion fs path suffix =
     (case fs_metadata fs (path @ suffix) of
        Inr metadata \<Rightarrow> Inr (fm_len metadata > 0)
      | Inl error \<Rightarrow> if error = NotFound then Inr False else Inl Storage)"

definition SQLITE_MAGIC :: bytes where
  "SQLITE_MAGIC = ascii ''SQLite format 3'' @ [0]"

definition database_header_uses_wal :: "file_system \<Rightarrow> string \<Rightarrow> bool result" where
  "database_header_uses_wal fs path =
     (case fs_open fs path of
        Inl _ \<Rightarrow> Inl Storage
      | Inr file \<Rightarrow>
          (case read_exact 20 file of
             Inr header \<Rightarrow>
               Inr (take 16 header = SQLITE_MAGIC \<and> header ! 18 = 2 \<and> header ! 19 = 2)
           | Inl error \<Rightarrow> if error = UnexpectedEof then Inr False else Inl Storage))"

definition reject_anomalous_wal :: "file_system \<Rightarrow> string \<Rightarrow> unit result" where
  "reject_anomalous_wal fs path =
     (let resolved = (case fs_canonicalize fs path of Some p \<Rightarrow> p | None \<Rightarrow> path) in
      and_then (nonempty_companion fs resolved ''-wal'') (\<lambda>nonempty.
      if \<not> nonempty then Inr ()
      else and_then (database_header_uses_wal fs resolved) (\<lambda>wal.
      if wal then Inr () else Inl Storage)))"

section \<open>What is accepted\<close>

text \<open>\<open>wal_header bs\<close>: the first twenty bytes of a database file declare WAL mode.\<close>

definition wal_header :: "bytes \<Rightarrow> bool" where
  "wal_header bs \<longleftrightarrow> 20 \<le> length bs \<and> take 16 bs = SQLITE_MAGIC \<and> bs ! 18 = 2 \<and> bs ! 19 = 2"

definition resolved_path :: "file_system \<Rightarrow> string \<Rightarrow> string" where
  "resolved_path fs path = (case fs_canonicalize fs path of Some p \<Rightarrow> p | None \<Rightarrow> path)"

lemma database_header_uses_wal_True_iff:
  "database_header_uses_wal fs path = Inr True \<longleftrightarrow>
     (\<exists>f. fs_open fs path = Inr f \<and> \<not> file_unreadable f \<and> wal_header (file_content f))"
  by (auto simp: database_header_uses_wal_def read_exact_def wal_header_def split: sum.splits if_splits)

lemma nonempty_companion_False_iff:
  "nonempty_companion fs path suffix = Inr False \<longleftrightarrow>
     fs_metadata fs (path @ suffix) = Inl NotFound \<or>
     (\<exists>m. fs_metadata fs (path @ suffix) = Inr m \<and> fm_len m = 0)"
  by (auto simp: nonempty_companion_def split: sum.splits)

lemma nonempty_companion_True_iff:
  "nonempty_companion fs path suffix = Inr True \<longleftrightarrow>
     (\<exists>m. fs_metadata fs (path @ suffix) = Inr m \<and> 0 < fm_len m)"
  by (auto simp: nonempty_companion_def split: sum.splits)

lemma reject_anomalous_wal_Inl: "reject_anomalous_wal fs path = Inl e \<Longrightarrow> e = Storage"
  by (auto simp: reject_anomalous_wal_def Let_def and_then_def nonempty_companion_def
      database_header_uses_wal_def split: sum.splits if_splits option.splits)

text \<open>C38. The guard accepts a database exactly when the companion \<^verbatim>\<open>-wal\<close> of the resolved path is
  absent or empty, or is a non-empty companion of a readable database file whose own header
  declares WAL mode; everything else, an undecidable file system included, is refused with
  \<open>Storage\<close>.\<close>

theorem anomalous_wal_guard_exact:
  "reject_anomalous_wal fs path =
    (if fs_metadata fs (resolved_path fs path @ ''-wal'') = Inl NotFound \<or>
        (\<exists>m. fs_metadata fs (resolved_path fs path @ ''-wal'') = Inr m \<and>
          (fm_len m = 0 \<or> (\<exists>f. fs_open fs (resolved_path fs path) = Inr f \<and>
             \<not> file_unreadable f \<and> wal_header (file_content f))))
     then Inr () else Inl Storage)"
  by (auto simp: reject_anomalous_wal_def resolved_path_def [symmetric] Let_def and_then_def
      nonempty_companion_def database_header_uses_wal_def read_exact_def wal_header_def
      split: sum.splits if_splits)

end
