(* ===== verification/State_Store.thy ===== *)
theory State_Store
  imports State_Envelope Companion Sql_Transaction Sql_Table
begin

text \<open>
  The encrypted client-state store of \<^verbatim>\<open>src/src/persistence/sqlite.rs\<close>: the one-row database
  with its exact schema, creation, opening, and the commit that replaces a snapshot by an
  exact compare-and-swap. The platform key protector is the record \<open>protector\<close>; what SQLite
  reports about a database image (\<^verbatim>\<open>pragma_table_list\<close> and the like) is the record \<open>catalog\<close>.
\<close>

section \<open>The database\<close>

definition APPLICATION_ID :: int where "APPLICATION_ID = 0x534D534C"
definition USER_VERSION :: int where "USER_VERSION = 1"
definition SLOT :: int where "SLOT = 1"
definition DEK_BYTES :: nat where "DEK_BYTES = 32"
definition WRAPPED_DEK_MAX_BYTES :: nat where "WRAPPED_DEK_MAX_BYTES = 8192"

definition CLIENT_STATE_SQL :: string where
  "CLIENT_STATE_SQL =
     ''CREATE TABLE client_state ('' @
     ''slot                 INTEGER PRIMARY KEY NOT NULL CHECK(slot = 1),'' @
     ''profile_id           BLOB NOT NULL CHECK(length(profile_id) = 16),'' @
     ''generation           INTEGER NOT NULL CHECK(generation >= 1),'' @
     ''envelope_version     INTEGER NOT NULL CHECK(envelope_version = 1),'' @
     ''state_schema_version INTEGER NOT NULL CHECK(state_schema_version = 1),'' @
     ''crypto_suite         INTEGER NOT NULL CHECK(crypto_suite = 1),'' @
     ''key_ref              BLOB NOT NULL CHECK(length(key_ref) = 16),'' @
     ''wrapped_dek          BLOB NOT NULL CHECK(length(wrapped_dek) BETWEEN 1 AND 8192),'' @
     ''nonce                BLOB NOT NULL CHECK(length(nonce) = 24),'' @
     ''ciphertext           BLOB NOT NULL CHECK(length(ciphertext) BETWEEN 16 AND 8388608)'' @
     '') STRICT''"

record client_row =
  cr_slot :: int
  cr_profile_id :: bytes
  cr_generation :: int
  cr_envelope_version :: int
  cr_state_schema_version :: int
  cr_crypto_suite :: int
  cr_key_ref :: bytes
  cr_wrapped_dek :: bytes
  cr_nonce :: bytes
  cr_ciphertext :: bytes

definition client_check :: "client_row \<Rightarrow> bool" where
  "client_check r \<longleftrightarrow> cr_slot r = 1 \<and> length (cr_profile_id r) = 16 \<and> 1 \<le> cr_generation r \<and>
     cr_envelope_version r = 1 \<and> cr_state_schema_version r = 1 \<and> cr_crypto_suite r = 1 \<and>
     length (cr_key_ref r) = 16 \<and>
     1 \<le> length (cr_wrapped_dek r) \<and> length (cr_wrapped_dek r) \<le> 8192 \<and>
     length (cr_nonce r) = 24 \<and>
     16 \<le> length (cr_ciphertext r) \<and> length (cr_ciphertext r) \<le> 8388608"

text \<open>\<open>schema_objects\<close> are the rows \<^verbatim>\<open>type, name, tbl_name, sql\<close> of \<^verbatim>\<open>sqlite_schema\<close> ordered by
  name; \<open>client_state\<close> are the rows of the table.\<close>

record state_db =
  application_id :: int
  user_version :: int
  schema_objects :: "(string \<times> string \<times> string \<times> string option) list"
  client_state :: "client_row list"

definition empty_state_db :: state_db where
  "empty_state_db =
     \<lparr>application_id = 0, user_version = 0, schema_objects = [], client_state = []\<rparr>"

definition expected_objects :: "(string \<times> string \<times> string \<times> string option) list" where
  "expected_objects =
     [(''table'', ''client_state'', ''client_state'', Some CLIENT_STATE_SQL)]"

section \<open>Third-party code\<close>

text \<open>What SQLite answers about an image: \<^verbatim>\<open>pragma_table_list\<close> of the main schema by name,
  \<^verbatim>\<open>table_xinfo(client_state)\<close>, the number of indexes and of foreign keys of \<^verbatim>\<open>client_state\<close>,
  \<^verbatim>\<open>integrity_check\<close> and whether \<^verbatim>\<open>foreign_key_check\<close> reports a row.\<close>

record catalog =
  table_list :: "state_db \<Rightarrow> (string \<times> string \<times> int \<times> int \<times> int) list"
  table_xinfo ::
    "state_db \<Rightarrow> (int \<times> string \<times> string \<times> int \<times> string option \<times> int \<times> int) list"
  index_count :: "state_db \<Rightarrow> int"
  foreign_key_count :: "state_db \<Rightarrow> int"
  integrity_check :: "state_db \<Rightarrow> string"
  foreign_key_problem :: "state_db \<Rightarrow> bool"

text \<open>\<^verbatim>\<open>trait StateKeyProtector\<close>. \<open>unwrap_dek\<close> returns what it writes to its output buffer.\<close>

datatype protection_level = StrongBox | TrustedEnvironment | SoftwareBacked | Indeterminate

record protector =
  expected_binding :: "profile_binding result"
  p_protection_level :: protection_level
  wrap_dek :: "bytes \<Rightarrow> bytes result"
  unwrap_dek :: "bytes \<Rightarrow> bytes result"

section \<open>Validation\<close>

definition fill :: "bytes option \<Rightarrow> bytes result" where
  "fill drawn = ok_or drawn Storage"

definition validate_ciphertext_len :: "nat \<Rightarrow> unit result" where
  "validate_ciphertext_len n =
     (if \<not> (16 \<le> n \<and> n \<le> MAX_CIPHERTEXT_BYTES) then Inl Storage else Inr ())"

definition validate_empty_database :: "catalog \<Rightarrow> ((state_db, 'z) conn_scheme, unit) prog" where
  "validate_empty_database L =
     attempt (query application_id) (\<lambda>application_id.
     attempt (query user_version) (\<lambda>user_version.
     attempt (query (\<lambda>db. length (schema_objects db))) (\<lambda>object_count.
     attempt (query (integrity_check L)) (\<lambda>integrity.
     if application_id \<noteq> 0 \<or> user_version \<noteq> 0 \<or> object_count \<noteq> 0 \<or> integrity \<noteq> ''ok''
     then throw Storage else ret ()))))"

definition validate_table_list :: "catalog \<Rightarrow> ((state_db, 'z) conn_scheme, unit) prog" where
  "validate_table_list L =
     attempt (query (table_list L)) (\<lambda>tables.
     if tables \<noteq> [(''client_state'', ''table'', 10, 0, 1), (''sqlite_schema'', ''table'', 5, 0, 0)]
     then throw Storage else ret ())"

definition column_names :: "(string \<times> string \<times> int) list" where
  "column_names =
     [(''slot'', ''INTEGER'', 1), (''profile_id'', ''BLOB'', 0), (''generation'', ''INTEGER'', 0),
      (''envelope_version'', ''INTEGER'', 0), (''state_schema_version'', ''INTEGER'', 0),
      (''crypto_suite'', ''INTEGER'', 0), (''key_ref'', ''BLOB'', 0), (''wrapped_dek'', ''BLOB'', 0),
      (''nonce'', ''BLOB'', 0), (''ciphertext'', ''BLOB'', 0)]"

text \<open>The loop over the expected columns, from an index on; the lengths have been compared.\<close>

fun check_columns ::
    "nat \<Rightarrow> (string \<times> string \<times> int) list \<Rightarrow>
     (int \<times> string \<times> string \<times> int \<times> string option \<times> int \<times> int) list \<Rightarrow> bool" where
  "check_columns index [] actual \<longleftrightarrow> True"
| "check_columns index ((name, type_name, pk) # names) actual \<longleftrightarrow>
     (case actual ! index of (r0, r1, r2, r3, r4, r5, r6) \<Rightarrow>
        \<not> (r0 \<noteq> int index \<or> r1 \<noteq> name \<or> r2 \<noteq> type_name \<or> r3 \<noteq> 1 \<or> r4 \<noteq> None \<or> r5 \<noteq> pk \<or> r6 \<noteq> 0)) \<and>
     check_columns (Suc index) names actual"

definition validate_table_xinfo :: "catalog \<Rightarrow> ((state_db, 'z) conn_scheme, unit) prog" where
  "validate_table_xinfo L =
     attempt (query (table_xinfo L)) (\<lambda>actual.
     if length actual \<noteq> length column_names then throw Storage
     else if \<not> check_columns 0 column_names actual then throw Storage else ret ())"

definition validate_no_indexes_or_foreign_keys ::
    "catalog \<Rightarrow> ((state_db, 'z) conn_scheme, unit) prog" where
  "validate_no_indexes_or_foreign_keys L =
     attempt (query (index_count L)) (\<lambda>indexes.
     attempt (query (foreign_key_count L)) (\<lambda>foreign_keys.
     if indexes \<noteq> 0 \<or> foreign_keys \<noteq> 0 then throw Storage else ret ()))"

definition validate_schema :: "catalog \<Rightarrow> ((state_db, 'z) conn_scheme, unit) prog" where
  "validate_schema L =
     attempt (query application_id) (\<lambda>application_id.
     attempt (query user_version) (\<lambda>user_version.
     if application_id \<noteq> APPLICATION_ID \<or> user_version \<noteq> USER_VERSION then throw Storage
     else attempt (query schema_objects) (\<lambda>objects.
     if objects \<noteq> expected_objects then throw Storage
     else attempt (validate_table_list L) (\<lambda>_.
     attempt (validate_table_xinfo L) (\<lambda>_.
     attempt (validate_no_indexes_or_foreign_keys L) (\<lambda>_.
     attempt (query (integrity_check L)) (\<lambda>integrity.
     if integrity \<noteq> ''ok'' then throw Storage
     else attempt (query (foreign_key_problem L)) (\<lambda>problem.
     if problem then throw Storage else ret ()))))))))"

section \<open>Statements\<close>

text \<open>\<^verbatim>\<open>create_schema\<close> fails when the table exists; \<^verbatim>\<open>INSERT\<close> and \<^verbatim>\<open>UPDATE\<close> fail on a violated
  constraint.\<close>

definition create_schema_db :: "state_db \<Rightarrow> (unit \<times> state_db) result" where
  "create_schema_db db =
     (if list_ex (\<lambda>(_, name, _, _). name = ''client_state'') (schema_objects db) then Inl Storage
      else Inr ((), db\<lparr>application_id := APPLICATION_ID, user_version := USER_VERSION,
        schema_objects := schema_objects db @ expected_objects\<rparr>))"

definition create_schema :: "((state_db, 'z) conn_scheme, unit) prog" where
  "create_schema = execute create_schema_db"

definition insert_client_row :: "client_row \<Rightarrow> state_db \<Rightarrow> (unit \<times> state_db) result" where
  "insert_client_row r db =
     and_then (insert_row cr_slot client_check r (client_state db)) (\<lambda>rows.
     Inr ((), db\<lparr>client_state := rows\<rparr>))"

definition state_row :: "profile_binding \<Rightarrow> int \<Rightarrow> bytes \<Rightarrow> bytes \<Rightarrow> bytes \<Rightarrow> client_row" where
  "state_row binding gen wrapped nonce ciphertext =
     \<lparr>cr_slot = SLOT, cr_profile_id = pb_profile_id binding, cr_generation = gen,
      cr_envelope_version = ENVELOPE_VERSION, cr_state_schema_version = STATE_SCHEMA_VERSION,
      cr_crypto_suite = CRYPTO_SUITE, cr_key_ref = pb_key_ref binding, cr_wrapped_dek = wrapped,
      cr_nonce = nonce, cr_ciphertext = ciphertext\<rparr>"

text \<open>The \<^verbatim>\<open>WHERE\<close> clause of the commit names every column, so it selects the row that equals
  \<open>expected\<close>.\<close>

definition matches_row :: "client_row \<Rightarrow> client_row \<Rightarrow> bool" where
  "matches_row expected r \<longleftrightarrow> cr_slot r = cr_slot expected \<and>
     cr_generation r = cr_generation expected \<and> cr_profile_id r = cr_profile_id expected \<and>
     cr_key_ref r = cr_key_ref expected \<and> cr_envelope_version r = cr_envelope_version expected \<and>
     cr_state_schema_version r = cr_state_schema_version expected \<and>
     cr_crypto_suite r = cr_crypto_suite expected \<and> cr_wrapped_dek r = cr_wrapped_dek expected \<and>
     cr_nonce r = cr_nonce expected \<and> cr_ciphertext r = cr_ciphertext expected"

definition swap_client_row ::
    "client_row \<Rightarrow> int \<Rightarrow> bytes \<Rightarrow> bytes \<Rightarrow> state_db \<Rightarrow> (nat \<times> state_db) result" where
  "swap_client_row expected next nonce ciphertext db =
     and_then (update_where client_check (matches_row expected)
         (\<lambda>r. r\<lparr>cr_generation := next, cr_nonce := nonce, cr_ciphertext := ciphertext\<rparr>)
         (client_state db)) (\<lambda>(changed, rows).
     Inr (changed, db\<lparr>client_state := rows\<rparr>))"

section \<open>Reading the row\<close>

record stored_row =
  sr_generation :: u64
  sr_wrapped_dek :: bytes
  sr_nonce :: bytes
  sr_ciphertext :: bytes

definition lengths_ok :: "client_row \<Rightarrow> bool" where
  "lengths_ok r \<longleftrightarrow>
     \<not> (length (cr_profile_id r) \<noteq> 16 \<or> cr_generation r < 1 \<or>
        cr_envelope_version r \<noteq> ENVELOPE_VERSION \<or>
        cr_state_schema_version r \<noteq> STATE_SCHEMA_VERSION \<or> cr_crypto_suite r \<noteq> CRYPTO_SUITE \<or>
        length (cr_key_ref r) \<noteq> 16 \<or> length (cr_wrapped_dek r) < 1 \<or>
        length (cr_wrapped_dek r) > WRAPPED_DEK_MAX_BYTES \<or> length (cr_nonce r) \<noteq> NONCE_BYTES \<or>
        length (cr_ciphertext r) < 16 \<or> length (cr_ciphertext r) > MAX_CIPHERTEXT_BYTES)"

definition read_row :: "profile_binding \<Rightarrow> ((state_db, 'z) conn_scheme, stored_row) prog" where
  "read_row binding =
     attempt (query (\<lambda>db. find (\<lambda>r. cr_slot r = SLOT) (client_state db))) (\<lambda>found.
     attempt (pure_result (ok_or found Storage)) (\<lambda>lengths.
     if \<not> lengths_ok lengths then throw Storage
     else attempt (query (\<lambda>db. find (\<lambda>r. cr_slot r = SLOT) (client_state db))) (\<lambda>found'.
     attempt (pure_result (ok_or found' Storage)) (\<lambda>row.
     if cr_profile_id row \<noteq> pb_profile_id binding \<or> cr_key_ref row \<noteq> pb_key_ref binding
     then throw Storage
     else if length (cr_nonce row) \<noteq> NONCE_BYTES then throw Storage
     else attempt (pure_result (ok_or (u64_try_from (cr_generation row)) Storage)) (\<lambda>generation.
     ret \<lparr>sr_generation = generation, sr_wrapped_dek = cr_wrapped_dek row,
          sr_nonce = cr_nonce row, sr_ciphertext = cr_ciphertext row\<rparr>)))))"

section \<open>The store\<close>

text \<open>\<^verbatim>\<open>ClientStateStore\<close> is a connection with the fields below; creating and opening return
  the fields over the connection they were given.\<close>

record state_handle =
  sh_binding :: profile_binding
  sh_dek :: bytes
  sh_wrapped_dek :: bytes
  sh_nonce :: bytes
  sh_ciphertext :: bytes
  sh_generation :: u64
  sh_state :: bytes
  sh_poisoned :: bool

record client_state_store = "state_db conn" +
  handle :: state_handle

definition open_connection :: "file_system \<Rightarrow> string \<Rightarrow> ((state_db, 'z) conn_scheme, unit) prog" where
  "open_connection fs path =
     attempt (pure_result (reject_anomalous_wal fs path)) (\<lambda>_.
     attempt run_settings (\<lambda>_.
     run_settings))"

definition activate_storage_settings :: "((state_db, 'z) conn_scheme, unit) prog" where
  "activate_storage_settings = run_settings"

definition create_with_rng ::
    "aead \<Rightarrow> catalog \<Rightarrow> file_system \<Rightarrow> string \<Rightarrow> protector \<Rightarrow> bytes \<Rightarrow> bytes option \<Rightarrow> bytes option \<Rightarrow>
     ((state_db, 'z) conn_scheme, state_handle) prog" where
  "create_with_rng A L fs path P state dek_draw nonce_draw =
     attempt (pure_result (expected_binding P)) (\<lambda>binding.
     attempt (open_connection fs path) (\<lambda>_.
     attempt (autocommit (validate_empty_database L)) (\<lambda>_.
     attempt (pure_result (fill dek_draw)) (\<lambda>dek.
     attempt (pure_result (wrap_dek P dek)) (\<lambda>wrapped.
     if wrapped = [] \<or> length wrapped > WRAPPED_DEK_MAX_BYTES then throw Storage
     else attempt (pure_result (fill nonce_draw)) (\<lambda>nonce.
     attempt (pure_result (state_seal A binding 1 wrapped dek nonce state)) (\<lambda>ciphertext.
     attempt (pure_result (validate_ciphertext_len (length ciphertext))) (\<lambda>_.
     attempt activate_storage_settings (\<lambda>_.
     attempt begin_immediate (\<lambda>_.
     attempt (validate_empty_database L) (\<lambda>_.
     attempt create_schema (\<lambda>_.
     attempt (execute (insert_client_row (state_row binding 1 wrapped nonce ciphertext))) (\<lambda>_.
     attempt (validate_schema L) (\<lambda>_.
     attempt commit (\<lambda>_.
     ret \<lparr>sh_binding = binding, sh_dek = dek, sh_wrapped_dek = wrapped, sh_nonce = nonce,
          sh_ciphertext = ciphertext, sh_generation = 1, sh_state = state,
          sh_poisoned = False\<rparr>)))))))))))))))"

definition open_store ::
    "aead \<Rightarrow> catalog \<Rightarrow> file_system \<Rightarrow> string \<Rightarrow> protector \<Rightarrow>
     ((state_db, 'z) conn_scheme, state_handle) prog" where
  "open_store A L fs path P =
     attempt (pure_result (expected_binding P)) (\<lambda>binding.
     attempt (open_connection fs path) (\<lambda>_.
     attempt begin_deferred (\<lambda>_.
     attempt (validate_schema L) (\<lambda>_.
     attempt (read_row binding) (\<lambda>row.
     attempt commit (\<lambda>_.
     attempt (pure_result (unwrap_dek P (sr_wrapped_dek row))) (\<lambda>dek.
     attempt (pure_result (state_open A binding (sr_generation row) (sr_wrapped_dek row) dek
         (sr_nonce row) (sr_ciphertext row))) (\<lambda>state.
     attempt activate_storage_settings (\<lambda>_.
     ret \<lparr>sh_binding = binding, sh_dek = dek, sh_wrapped_dek = sr_wrapped_dek row,
          sh_nonce = sr_nonce row, sh_ciphertext = sr_ciphertext row,
          sh_generation = sr_generation row, sh_state = state, sh_poisoned = False\<rparr>)))))))))"

definition ensure_usable :: "state_handle \<Rightarrow> unit result" where
  "ensure_usable h = (if sh_poisoned h then Inl Storage else Inr ())"

definition store_state :: "state_handle \<Rightarrow> bytes result" where
  "store_state h = and_then (ensure_usable h) (\<lambda>_. Inr (sh_state h))"

definition store_generation :: "state_handle \<Rightarrow> u64 result" where
  "store_generation h = and_then (ensure_usable h) (\<lambda>_. Inr (sh_generation h))"

definition store_binding :: "state_handle \<Rightarrow> profile_binding result" where
  "store_binding h = and_then (ensure_usable h) (\<lambda>_. Inr (sh_binding h))"

definition handle_row :: "state_handle \<Rightarrow> int \<Rightarrow> client_row" where
  "handle_row h expected =
     state_row (sh_binding h) expected (sh_wrapped_dek h) (sh_nonce h) (sh_ciphertext h)"

definition get_handle :: "(client_state_store, state_handle) prog" where
  "get_handle = (\<lambda>s. (Inr (handle s), s))"

definition commit_inner ::
    "aead \<Rightarrow> catalog \<Rightarrow> bytes \<Rightarrow> bytes option \<Rightarrow> (client_state_store, unit) prog" where
  "commit_inner A L state nonce_draw =
     attempt get_handle (\<lambda>h.
     attempt (pure_result (ok_or (u64_checked_add (sh_generation h) 1) Storage)) (\<lambda>next_generation.
     attempt (pure_result (fill nonce_draw)) (\<lambda>nonce.
     attempt (pure_result (state_seal A (sh_binding h) next_generation (sh_wrapped_dek h)
         (sh_dek h) nonce state)) (\<lambda>ciphertext.
     attempt (pure_result (validate_ciphertext_len (length ciphertext))) (\<lambda>_.
     attempt (pure_result (ok_or (i64_try_from (sh_generation h)) Storage)) (\<lambda>expected.
     attempt (pure_result (ok_or (i64_try_from next_generation) Storage)) (\<lambda>next.
     attempt begin_immediate (\<lambda>_.
     attempt (validate_schema L) (\<lambda>_.
     attempt (execute (swap_client_row (handle_row h expected) next nonce ciphertext)) (\<lambda>changed.
     if changed \<noteq> 1 then throw Storage
     else attempt commit (\<lambda>_.
     modify_state (\<lambda>s. s\<lparr>handle := (handle s)\<lparr>sh_generation := next_generation,
       sh_state := state, sh_nonce := nonce, sh_ciphertext := ciphertext\<rparr>\<rparr>))))))))))))"

definition commit_with_rng ::
    "aead \<Rightarrow> catalog \<Rightarrow> bytes \<Rightarrow> bytes option \<Rightarrow> (client_state_store, unit) prog" where
  "commit_with_rng A L state nonce_draw = (\<lambda>s.
     if sh_poisoned (handle s) then (Inl Storage, s)
     else let (r, s') = commit_inner A L state nonce_draw s in
       case r of
         Inl e \<Rightarrow> (Inl e, s'\<lparr>handle := (handle s')\<lparr>sh_poisoned := True\<rparr>\<rparr>)
       | Inr _ \<Rightarrow> (r, s'))"

end
