(* ===== verification/State_Store_Facts.thy ===== *)
theory State_Store_Facts
  imports State_Store
begin

text \<open>
  How the operations of the state store run: the image predicates its validations decide, the
  transactional contract of creation and commit, the handles that are sound for a protector,
  and what a successful creation, opening and commit do to the database and the handle.
\<close>

section \<open>Evaluation of the validations\<close>

text \<open>The image predicates that the two validations decide.\<close>

definition schema_valid :: "catalog \<Rightarrow> state_db \<Rightarrow> bool" where
  "schema_valid L db \<longleftrightarrow> application_id db = APPLICATION_ID \<and> user_version db = USER_VERSION \<and>
     schema_objects db = expected_objects \<and>
     table_list L db = [(''client_state'', ''table'', 10, 0, 1), (''sqlite_schema'', ''table'', 5, 0, 0)] \<and>
     length (table_xinfo L db) = length column_names \<and>
     check_columns 0 column_names (table_xinfo L db) \<and>
     index_count L db = 0 \<and> foreign_key_count L db = 0 \<and>
     integrity_check L db = ''ok'' \<and> \<not> foreign_key_problem L db"

definition database_empty :: "catalog \<Rightarrow> state_db \<Rightarrow> bool" where
  "database_empty L db \<longleftrightarrow> application_id db = 0 \<and> user_version db = 0 \<and> schema_objects db = [] \<and>
     integrity_check L db = ''ok''"

lemma validate_schema_eval [sql_simps]:
  "calls s = [] \<Longrightarrow> attempt (validate_schema L) f s =
     (if schema_valid L (working s) then f () s else (Inl Storage, s))"
  by (simp add: validate_schema_def validate_table_list_def validate_table_xinfo_def
      validate_no_indexes_or_foreign_keys_def schema_valid_def sql_simps)

lemma validate_empty_database_eval [sql_simps]:
  "calls s = [] \<Longrightarrow> attempt (validate_empty_database L) f s =
     (if database_empty L (working s) then f () s else (Inl Storage, s))"
  by (simp add: validate_empty_database_def database_empty_def sql_simps)

lemma autocommit_empty_eval [sql_simps]:
  "calls s = [] \<Longrightarrow> attempt (autocommit (validate_empty_database L)) f s =
     (if database_empty L (durable s) then f () (s\<lparr>working := durable s\<rparr>)
      else (Inl Storage, s\<lparr>working := durable s\<rparr>))"
  using validate_empty_database_eval [of "s\<lparr>working := durable s\<rparr>" L f]
  by (simp add: attempt_def autocommit_def)

lemma open_connection_eval [sql_simps]:
  "calls s = [] \<Longrightarrow> attempt (open_connection fs path) f s =
     (case reject_anomalous_wal fs path of Inl e \<Rightarrow> (Inl e, s) | Inr _ \<Rightarrow> f () s)"
  by (simp add: open_connection_def sql_simps split: sum.split)

definition row_of_binding :: "profile_binding \<Rightarrow> client_row \<Rightarrow> stored_row option" where
  "row_of_binding b r =
     (if lengths_ok r \<and> cr_profile_id r = pb_profile_id b \<and> cr_key_ref r = pb_key_ref b
      then Some \<lparr>sr_generation = word_of_int (cr_generation r), sr_wrapped_dek = cr_wrapped_dek r,
         sr_nonce = cr_nonce r, sr_ciphertext = cr_ciphertext r\<rparr>
      else None)"

lemma read_row_eval [sql_simps]:
  "calls s = [] \<Longrightarrow> attempt (read_row b) f s =
     (case find (\<lambda>r. cr_slot r = SLOT) (client_state (working s)) of
        None \<Rightarrow> (Inl Storage, s)
      | Some r \<Rightarrow> (case row_of_binding b r of None \<Rightarrow> (Inl Storage, s) | Some x \<Rightarrow> f x s))"
  by (auto simp: read_row_def row_of_binding_def lengths_ok_def u64_try_from_def ok_or_def sql_simps
      split: option.split)

lemma get_handle_eval [sql_simps]: "attempt get_handle f s = f (handle s) s"
  by (simp add: get_handle_def attempt_def)

section \<open>The transactional contract of the commit\<close>

lemma validations_quiet [sql_intros]:
  "quiet (validate_schema L)" "quiet (validate_empty_database L)" "quiet (open_connection fs path)"
  "quiet (read_row b)" "quiet get_handle" "quiet create_schema" "quiet activate_storage_settings"
  unfolding validate_schema_def validate_empty_database_def open_connection_def read_row_def
    validate_table_list_def validate_table_xinfo_def validate_no_indexes_or_foreign_keys_def
    create_schema_def activate_storage_settings_def
  by (intro sql_intros | simp add: quiet_def get_handle_def)+

lemma validations_tolerant:
  "tolerant (validate_schema L)" "tolerant (validate_empty_database L)"
  "tolerant (open_connection fs path)" "tolerant (read_row b)" "tolerant get_handle"
  "tolerant create_schema" "tolerant activate_storage_settings"
  unfolding validate_schema_def validate_empty_database_def open_connection_def read_row_def
    validate_table_list_def validate_table_xinfo_def validate_no_indexes_or_foreign_keys_def
    create_schema_def activate_storage_settings_def
  by (intro tolerant_rules | simp add: tolerant_def get_handle_def)+

lemma commit_inner_atomic: "atomic (commit_inner A L state draw)"
  unfolding commit_inner_def by (intro atomic_rules validations_quiet infallible_modify) simp

lemma commit_inner_tolerant: "tolerant (commit_inner A L state draw)"
  unfolding commit_inner_def
  by (intro tolerant_rules validations_tolerant tolerant_modify) simp

lemma commit_inner_settled: "settled (commit_inner A L state draw)"
  unfolding commit_inner_def
  by (intro settled_rules validations_quiet validations_tolerant infallible_modify) simp

interpretation commit_tx: transactional "commit_inner A L state draw" for A L state draw
  by unfold_locales (rule commit_inner_atomic commit_inner_tolerant commit_inner_settled)+

lemma create_atomic: "atomic (create_with_rng A L fs path P state d n)"
  unfolding create_with_rng_def by (intro atomic_rules validations_quiet)

lemma create_tolerant: "tolerant (create_with_rng A L fs path P state d n)"
  unfolding create_with_rng_def by (intro tolerant_rules validations_tolerant)

lemma create_settled: "settled (create_with_rng A L fs path P state d n)"
  unfolding create_with_rng_def
  by (intro settled_rules validations_quiet validations_tolerant)

interpretation create_tx: transactional "create_with_rng A L fs path P state d n"
  for A L fs path P state d n
  by unfold_locales (rule create_atomic create_tolerant create_settled)+

section \<open>Images and handles\<close>

text \<open>Documented behaviour of SQLite: for the table of the code's own DDL the catalogue reports
  the declared columns, no index and no foreign key, and the integrity check passes when the
  rows satisfy the declared constraints; an image without objects passes it too.\<close>

definition catalog_laws :: "catalog \<Rightarrow> bool" where
  "catalog_laws L \<longleftrightarrow>
     (\<forall>db. schema_objects db = [] \<longrightarrow> integrity_check L db = ''ok'') \<and>
     (\<forall>db. schema_objects db = expected_objects \<longrightarrow>
        table_list L db =
          [(''client_state'', ''table'', 10, 0, 1), (''sqlite_schema'', ''table'', 5, 0, 0)] \<and>
        table_xinfo L db =
          map (\<lambda>(i, name, type_name, pk). (int i, name, type_name, 1, None, pk, 0))
            (enumerate 0 column_names) \<and>
        index_count L db = 0 \<and> foreign_key_count L db = 0 \<and>
        (unique_key cr_slot (client_state db) \<and> list_all client_check (client_state db) \<longrightarrow>
           integrity_check L db = ''ok'' \<and> \<not> foreign_key_problem L db))"

text \<open>The invariant of a store's image: the code's schema with one row that satisfies the
  constraints.\<close>

definition store_image :: "state_db \<Rightarrow> client_row \<Rightarrow> bool" where
  "store_image db r \<longleftrightarrow> application_id db = APPLICATION_ID \<and> user_version db = USER_VERSION \<and>
     schema_objects db = expected_objects \<and> client_state db = [r] \<and> client_check r"

lemma columns_checked:
  "check_columns 0 column_names
     (map (\<lambda>(i, name, type_name, pk). (int i, name, type_name, 1, None, pk, 0))
       (enumerate 0 column_names))"
  by (simp add: column_names_def)

lemma store_image_valid:
  "catalog_laws L \<Longrightarrow> store_image db r \<Longrightarrow> schema_valid L db"
  using columns_checked
  by (simp add: catalog_laws_def store_image_def schema_valid_def unique_key_def
      expected_objects_def)

text \<open>A handle is sound for a protector when its fields are what that protector and the
  envelope give: \<open>handle_ok\<close>. \<open>handle_image h\<close> is the row it expects in the database.\<close>

definition handle_ok :: "aead \<Rightarrow> protector \<Rightarrow> state_handle \<Rightarrow> bool" where
  "handle_ok A P h \<longleftrightarrow> expected_binding P = Inr (sh_binding h) \<and> binding_ok (sh_binding h) \<and>
     unwrap_dek P (sh_wrapped_dek h) = Inr (sh_dek h) \<and> length (sh_nonce h) = 24 \<and>
     state_open A (sh_binding h) (sh_generation h) (sh_wrapped_dek h) (sh_dek h) (sh_nonce h)
       (sh_ciphertext h) = Inr (sh_state h)"

abbreviation handle_image :: "state_handle \<Rightarrow> client_row" where
  "handle_image h \<equiv> handle_row h (uint (sh_generation h))"

lemma handle_generation:
  assumes "handle_ok A P h"
  shows "1 \<le> uint (sh_generation h) \<and> uint (sh_generation h) < 2 ^ 63"
proof -
  have "sh_generation h \<noteq> 0" "i64_try_from (sh_generation h) \<noteq> None"
    using assms by (auto simp: handle_ok_def state_open_Inr_iff validate_header_def split: if_splits)
  then show ?thesis
    by (auto simp: i64_try_from_def word_neq_0_conv word_less_def split: if_splits)
qed

lemma handle_row_check:
  assumes "handle_ok A P h"
  shows "client_check (handle_image h) \<and> lengths_ok (handle_image h)"
  using assms handle_generation [OF assms]
  by (auto simp: handle_ok_def state_open_Inr_iff validate_header_def handle_row_def state_row_def
      client_check_def lengths_ok_def binding_ok_def state_limits SLOT_def ENVELOPE_VERSION_def
      STATE_SCHEMA_VERSION_def CRYPTO_SUITE_def WRAPPED_DEK_MAX_BYTES_def Suc_le_eq
      split: if_splits)

lemma open_store_of_image:
  assumes "catalog_laws L" and "reject_anomalous_wal fs path = Inr ()" and "calls c = []"
    and "handle_ok A P h" and "store_image (durable c) (handle_image h)"
  shows "open_store A L fs path P c =
    (Inr (h\<lparr>sh_poisoned := False\<rparr>), c\<lparr>working := durable c\<rparr>)"
proof -
  have "schema_valid L (durable c)"
    using assms(1,5) by (rule store_image_valid)
  moreover have "row_of_binding (sh_binding h) (handle_image h) =
      Some \<lparr>sr_generation = sh_generation h, sr_wrapped_dek = sh_wrapped_dek h,
        sr_nonce = sh_nonce h, sr_ciphertext = sh_ciphertext h\<rparr>"
    using handle_row_check [OF assms(4)]
    by (simp add: row_of_binding_def) (simp add: handle_row_def state_row_def)
  ultimately show ?thesis
    using assms(2-5)
    by (simp add: open_store_def sql_simps store_image_def handle_ok_def
        activate_storage_settings_def) (simp add: handle_row_def state_row_def)
qed

section \<open>Successful operations\<close>

lemma matches_row_iff: "matches_row e r \<longleftrightarrow> r = e"
  by (cases e, cases r) (auto simp: matches_row_def)

definition next_handle :: "state_handle \<Rightarrow> u64 \<Rightarrow> bytes \<Rightarrow> bytes \<Rightarrow> bytes \<Rightarrow> state_handle" where
  "next_handle h gen state nonce ciphertext =
     h\<lparr>sh_generation := gen, sh_state := state, sh_nonce := nonce, sh_ciphertext := ciphertext\<rparr>"

lemma u64_checked_add_1:
  assumes "u64_checked_add g 1 = Some g'"
  shows "uint g' = uint g + 1"
proof -
  have g: "unat g + 1 < 2 ^ 64" "g' = g + 1"
    using assms by (auto simp: u64_checked_add_def split: if_splits)
  then have "unat g' = unat g + 1"
    by (simp add: unat_word_ariths)
  then show ?thesis
    using uint_nat [of g] uint_nat [of g'] by linarith
qed

lemma commit_inner_faultless:
  assumes "commit_inner A L state draw s = (Inr (), s')" and "calls s = []"
  shows "\<exists>nonce ct gen. draw = Some nonce \<and> u64_checked_add (sh_generation (handle s)) 1 = Some gen \<and>
    state_seal A (sh_binding (handle s)) gen (sh_wrapped_dek (handle s)) (sh_dek (handle s)) nonce state
      = Inr ct \<and> uint gen < 2 ^ 63 \<and> schema_valid L (durable s) \<and>
    swap_client_row (handle_image (handle s)) (uint gen) nonce ct (durable s) = Inr (1, durable s') \<and>
    handle s' = next_handle (handle s) gen state nonce ct"
  using assms
  by (auto simp: commit_inner_def fill_def sql_simps ok_or_def i64_try_from_def next_handle_def
      modify_state_def split: option.splits if_splits sum.splits prod.splits)

lemma commit_inner_success:
  assumes "commit_inner A L state draw s = (Inr (), s')"
  shows "\<exists>nonce ct gen. draw = Some nonce \<and> u64_checked_add (sh_generation (handle s)) 1 = Some gen \<and>
    state_seal A (sh_binding (handle s)) gen (sh_wrapped_dek (handle s)) (sh_dek (handle s)) nonce state
      = Inr ct \<and> uint gen < 2 ^ 63 \<and> schema_valid L (durable s) \<and>
    swap_client_row (handle_image (handle s)) (uint gen) nonce ct (durable s) = Inr (1, durable s') \<and>
    handle s' = next_handle (handle s) gen state nonce ct"
  using commit_inner_faultless [OF commit_tx.success_without_faults [OF assms]] by simp

lemma swap_client_row_single:
  assumes "swap_client_row e gen nonce ct db = Inr (1, db')" and "client_state db = [r]"
  shows "r = e \<and> db' = db\<lparr>client_state := [e\<lparr>cr_generation := gen, cr_nonce := nonce,
    cr_ciphertext := ct\<rparr>]\<rparr> \<and> client_check (e\<lparr>cr_generation := gen, cr_nonce := nonce, cr_ciphertext := ct\<rparr>)"
  using assms
  by (auto simp: swap_client_row_def update_where_def matches_row_iff and_then_eq_Inr_iff
      split: if_splits)

lemma commit_with_rng_Inr:
  "commit_with_rng A L state draw s = (Inr (), s') \<longleftrightarrow>
     \<not> sh_poisoned (handle s) \<and> commit_inner A L state draw s = (Inr (), s')"
  by (auto simp: commit_with_rng_def Let_def split: prod.splits sum.splits)

lemma commit_success:
  assumes "commit_with_rng A L state draw s = (Inr (), s')" and "store_image (durable s) r"
  shows "r = handle_image (handle s) \<and> store_image (durable s') (handle_image (handle s')) \<and>
    uint (sh_generation (handle s')) = uint (sh_generation (handle s)) + 1 \<and>
    sh_state (handle s') = state \<and> \<not> sh_poisoned (handle s')"
proof -
  obtain nonce ct gen where
      g: "u64_checked_add (sh_generation (handle s)) 1 = Some gen"
    and w: "swap_client_row (handle_image (handle s)) (uint gen) nonce ct (durable s) = Inr (1, durable s')"
    and h: "handle s' = next_handle (handle s) gen state nonce ct"
    using assms(1) commit_inner_success unfolding commit_with_rng_Inr by blast
  have r: "r = handle_image (handle s) \<and> durable s' = (durable s)\<lparr>client_state :=
      [(handle_image (handle s))\<lparr>cr_generation := uint gen, cr_nonce := nonce, cr_ciphertext := ct\<rparr>]\<rparr> \<and>
      client_check ((handle_image (handle s))\<lparr>cr_generation := uint gen, cr_nonce := nonce, cr_ciphertext := ct\<rparr>)"
    using swap_client_row_single [OF w] assms(2) by (simp add: store_image_def)
  moreover have "(handle_image (handle s))\<lparr>cr_generation := uint gen, cr_nonce := nonce, cr_ciphertext := ct\<rparr>
      = handle_image (handle s')"
    using h by (simp add: handle_row_def state_row_def next_handle_def)
  moreover have "\<not> sh_poisoned (handle s)"
    using assms(1) by (simp add: commit_with_rng_Inr)
  ultimately show ?thesis
    using assms(2) h u64_checked_add_1 [OF g]
    by (simp add: store_image_def next_handle_def)
qed

lemma commit_keeps_handle_ok:
  assumes "aead_laws A" and "commit_with_rng A L state draw s = (Inr (), s')"
    and "handle_ok A P (handle s)" and "\<forall>nonce. draw = Some nonce \<longrightarrow> length nonce = 24"
  shows "handle_ok A P (handle s')"
proof -
  obtain nonce ct gen where "draw = Some nonce"
    and "state_seal A (sh_binding (handle s)) gen (sh_wrapped_dek (handle s)) (sh_dek (handle s)) nonce state
      = Inr ct" and h: "handle s' = next_handle (handle s) gen state nonce ct"
    using assms(2) commit_inner_success unfolding commit_with_rng_Inr by blast
  then show ?thesis
    using assms(3,4) state_seal_open [OF assms(1)] by (simp add: handle_ok_def next_handle_def)
qed

text \<open>\<open>uncertain_commit\<close>: a usable handle's commit was carried out and only its answer was lost, so
  that the image is the one of the commit without failing calls.\<close>

definition uncertain_commit ::
    "aead \<Rightarrow> catalog \<Rightarrow> bytes \<Rightarrow> bytes option \<Rightarrow> client_state_store \<Rightarrow> client_state_store \<Rightarrow> bool" where
  "uncertain_commit A L state draw s s' \<longleftrightarrow> \<not> certain s \<and>
     (\<exists>s1. commit_with_rng A L state draw (s\<lparr>calls := []\<rparr>) = (Inr (), s1) \<and> durable s1 = durable s')"

lemma commit_failure:
  assumes "commit_with_rng A L state draw s = (Inl e, s')"
  shows "handle s' = (handle s)\<lparr>sh_poisoned := True\<rparr> \<and>
    (durable s' = durable s \<or>
     e = Storage \<and> \<not> sh_poisoned (handle s) \<and> uncertain_commit A L state draw s s')"
proof (cases "sh_poisoned (handle s)")
  case True
  then show ?thesis
    using assms by (simp add: commit_with_rng_def)
next
  case False
  then obtain s1 where s1: "commit_inner A L state draw s = (Inl e, s1)"
    and s': "s' = s1\<lparr>handle := (handle s1)\<lparr>sh_poisoned := True\<rparr>\<rparr>"
    using assms by (auto simp: commit_with_rng_def Let_def split: prod.splits sum.splits)
  have "handle s1 = handle s"
    using commit_tx.error_old_or_done [OF s1] by (cases s, cases s1) simp
  moreover have "durable s1 = durable s \<or> e = Storage \<and> \<not> certain s \<and>
      (\<exists>t. commit_inner A L state draw (s\<lparr>calls := []\<rparr>) = (Inr (), t) \<and> durable t = durable s1)"
    using commit_tx.error_old_or_done [OF s1] commit_tx.error_keeps_store [OF s1] by auto
  ultimately show ?thesis
    using s' False by (auto simp: uncertain_commit_def commit_with_rng_Inr)
qed

lemma create_faultless:
  assumes "create_with_rng A L fs path P state d n c = (Inr h, c')" and "calls c = []"
    and "schema_objects (durable c) = [] \<longrightarrow> client_state (durable c) = []"
  shows "\<exists>dek nonce. d = Some dek \<and> n = Some nonce \<and> expected_binding P = Inr (sh_binding h) \<and>
    wrap_dek P dek = Inr (sh_wrapped_dek h) \<and> sh_dek h = dek \<and> sh_nonce h = nonce \<and>
    sh_generation h = 1 \<and> sh_state h = state \<and> \<not> sh_poisoned h \<and>
    state_seal A (sh_binding h) 1 (sh_wrapped_dek h) dek nonce state = Inr (sh_ciphertext h) \<and>
    database_empty L (durable c) \<and> reject_anomalous_wal fs path = Inr () \<and>
    store_image (durable c') (handle_image h)"
  using assms
  by (auto simp: create_with_rng_def fill_def sql_simps ok_or_def create_schema_def create_schema_db_def
      insert_client_row_def and_then_eq_Inr_iff insert_row_Inr_iff store_image_def schema_valid_def
      handle_row_def activate_storage_settings_def database_empty_def
      split: option.splits if_splits sum.splits prod.splits)

end
