(* ===== verification/State_Store_History.thy ===== *)
theory State_Store_History
  imports State_Store_Facts
begin

text \<open>
  Opening as a transactional operation that never writes, histories of one handle and of one
  database under commits of any handles, and the operations' success on healthy inputs.
\<close>

section \<open>Opening\<close>

lemma open_store_quiet: "quiet (open_store A L fs path P)"
proof -
  have "read_only (validate_schema L)" "read_only (read_row b)" for b
    unfolding validate_schema_def validate_table_list_def validate_table_xinfo_def
      validate_no_indexes_or_foreign_keys_def read_row_def
    by (intro read_only_rules)+
  then have "quiet (attempt begin_deferred (\<lambda>_. attempt
      (attempt (validate_schema L) (\<lambda>_. read_row b)) (\<lambda>row. attempt commit (\<lambda>_. f row))))"
    if "\<And>row. quiet (f row)" for b f
    using that by (intro quiet_read_transaction read_only_attempt)
  moreover have "attempt begin_deferred (\<lambda>_. attempt
      (attempt (validate_schema L) (\<lambda>_. read_row b)) (\<lambda>row. attempt commit (\<lambda>_. f row))) =
    attempt begin_deferred (\<lambda>_. attempt (validate_schema L) (\<lambda>_. attempt (read_row b) (\<lambda>row.
      attempt commit (\<lambda>_. f row))))" for b and f :: "stored_row \<Rightarrow> ((state_db, 'z) conn_scheme, 'b) prog"
    by (simp add: fun_eq_iff attempt_assoc attempt_def split: prod.split sum.split)
  ultimately have reading: "quiet (attempt begin_deferred (\<lambda>_. attempt (validate_schema L) (\<lambda>_.
      attempt (read_row b) (\<lambda>row. attempt commit (\<lambda>_. f row)))))"
    if "\<And>row. quiet (f row)" for b f
    using that by metis
  show ?thesis
    unfolding open_store_def
    by (rule quiet_attempt, rule quiet_basic, rule quiet_attempt, rule validations_quiet, rule reading)
      (intro quiet_attempt quiet_basic validations_quiet)
qed

lemma open_store_tolerant: "tolerant (open_store A L fs path P)"
  unfolding open_store_def by (intro tolerant_rules validations_tolerant)

interpretation open_tx: transactional "open_store A L fs path P" for A L fs path P
  by unfold_locales
    (rule atomic_quiet [OF open_store_quiet] open_store_tolerant settled_quiet [OF open_store_quiet])+

lemma open_store_success:
  assumes "open_store A L fs path P c = (Inr h, c')"
  shows "expected_binding P = Inr (sh_binding h) \<and> unwrap_dek P (sh_wrapped_dek h) = Inr (sh_dek h) \<and>
    state_open A (sh_binding h) (sh_generation h) (sh_wrapped_dek h) (sh_dek h) (sh_nonce h)
      (sh_ciphertext h) = Inr (sh_state h) \<and> length (sh_nonce h) = 24 \<and> \<not> sh_poisoned h \<and>
    schema_valid L (durable c) \<and> reject_anomalous_wal fs path = Inr ()"
proof -
  have "open_store A L fs path P (c\<lparr>calls := []\<rparr>) = (Inr h, c'\<lparr>calls := []\<rparr>)"
    using assms by (rule open_tx.success_without_faults)
  then show ?thesis
    by (auto simp: open_store_def sql_simps row_of_binding_def lengths_ok_def NONCE_BYTES_def
        activate_storage_settings_def split: option.splits if_splits sum.splits)
qed

section \<open>Histories\<close>

text \<open>\<open>store_reaches\<close>: one handle over time, with any pattern of failing calls and lost answers
  before each commit, together with the state of the commit that failed, if one did.
  \<open>db_reaches\<close>: one database over time, committed to by any handles whatsoever.\<close>

definition failed_state :: "bytes option \<Rightarrow> bytes \<Rightarrow> client_state_store \<Rightarrow> unit result \<Rightarrow> bytes option" where
  "failed_state lost state s r = (if sh_poisoned (handle s) then lost else
     case r of Inl _ \<Rightarrow> Some state | Inr _ \<Rightarrow> None)"

inductive store_reaches ::
    "aead \<Rightarrow> catalog \<Rightarrow> client_state_store \<Rightarrow> bytes option \<Rightarrow> client_state_store \<Rightarrow> bool"
  for A L where
  store_start: "store_reaches A L s None s"
| store_faults: "store_reaches A L s lost s1 \<Longrightarrow> store_reaches A L s lost (s1\<lparr>calls := cs\<rparr>)"
| store_commit: "store_reaches A L s lost s1 \<Longrightarrow> \<forall>nonce. draw = Some nonce \<longrightarrow> length nonce = 24 \<Longrightarrow>
    store_reaches A L s (failed_state lost state s1 (fst (commit_with_rng A L state draw s1)))
      (snd (commit_with_rng A L state draw s1))"

inductive db_reaches :: "aead \<Rightarrow> catalog \<Rightarrow> state_db \<Rightarrow> state_db \<Rightarrow> bool" for A L where
  db_start: "db_reaches A L db db"
| db_commit: "db_reaches A L db (durable s) \<Longrightarrow>
    db_reaches A L db (durable (snd (commit_with_rng A L state draw s)))"

lemma commit_cases:
  obtains (success) s' where "commit_with_rng A L state draw s = (Inr (), s')"
    | (failure) e s' where "commit_with_rng A L state draw s = (Inl e, s')"
  by (cases "commit_with_rng A L state draw s"; cases "fst (commit_with_rng A L state draw s)") auto

definition synced :: "aead \<Rightarrow> protector \<Rightarrow> client_state_store \<Rightarrow> bool" where
  "synced A P s \<longleftrightarrow> handle_ok A P (handle s) \<and> store_image (durable s) (handle_image (handle s))"

lemma handle_ok_poisoned [simp]: "handle_ok A P (h\<lparr>sh_poisoned := b\<rparr>) = handle_ok A P h"
  by (simp add: handle_ok_def)

lemma handle_row_poisoned [simp]: "handle_row (h\<lparr>sh_poisoned := b\<rparr>) g = handle_row h g"
  by (simp add: handle_row_def)

text \<open>\<open>next_version h state h'\<close>: the handle \<open>h'\<close> is what a commit of the state makes of \<open>h\<close>.\<close>

definition next_version :: "state_handle \<Rightarrow> bytes \<Rightarrow> state_handle \<Rightarrow> bool" where
  "next_version h state h' \<longleftrightarrow> sh_generation h' = sh_generation h + 1 \<and> sh_state h' = state \<and>
     sh_binding h' = sh_binding h \<and> sh_dek h' = sh_dek h \<and> sh_wrapped_dek h' = sh_wrapped_dek h"

lemma next_version_poisoned [simp]:
  "next_version (h\<lparr>sh_poisoned := b\<rparr>) state h' = next_version h state h'"
  by (simp add: next_version_def)

lemma commit_next_version:
  assumes "aead_laws A" and "handle_ok A P (handle s)" and "store_image (durable s) r"
    and "\<forall>nonce. draw = Some nonce \<longrightarrow> length nonce = 24"
    and run: "commit_with_rng A L state draw s = (Inr (), s')"
  shows "r = handle_image (handle s) \<and> synced A P s \<and> synced A P s' \<and>
    next_version (handle s) state (handle s') \<and> \<not> sh_poisoned (handle s')"
proof -
  obtain nonce ct gen where "u64_checked_add (sh_generation (handle s)) 1 = Some gen"
    and "handle s' = next_handle (handle s) gen state nonce ct"
    using run commit_inner_success unfolding commit_with_rng_Inr by blast
  then have "next_version (handle s) state (handle s')"
    by (auto simp: next_version_def next_handle_def u64_checked_add_def split: if_splits)
  then show ?thesis
    using commit_success [OF run assms(3)] commit_keeps_handle_ok [OF assms(1) run assms(2,4)] assms(2,3)
    by (auto simp: synced_def)
qed

text \<open>The image holds the handle's own row, or, once a commit has failed, possibly the row of
  the next version with the state that commit was given.\<close>

definition in_step :: "aead \<Rightarrow> protector \<Rightarrow> bytes option \<Rightarrow> client_state_store \<Rightarrow> bool" where
  "in_step A P lost s \<longleftrightarrow> handle_ok A P (handle s) \<and> (sh_poisoned (handle s) \<longleftrightarrow> lost \<noteq> None) \<and>
     (store_image (durable s) (handle_image (handle s)) \<or>
      (\<exists>h' state. lost = Some state \<and> handle_ok A P h' \<and> next_version (handle s) state h' \<and>
         store_image (durable s) (handle_image h')))"

lemma in_step_commit:
  assumes "aead_laws A" and "in_step A P lost s" and "\<forall>nonce. draw = Some nonce \<longrightarrow> length nonce = 24"
  shows "in_step A P (failed_state lost state s (fst (commit_with_rng A L state draw s)))
    (snd (commit_with_rng A L state draw s))"
proof (cases "sh_poisoned (handle s)")
  case True
  then show ?thesis
    using assms(2) by (simp add: commit_with_rng_def failed_state_def)
next
  case False
  then have lost: "lost = None" and h: "handle_ok A P (handle s)"
    and img: "store_image (durable s) (handle_image (handle s))"
    using assms(2) by (auto simp: in_step_def)
  show ?thesis
  proof (cases rule: commit_cases [of A L state draw s])
    case (success s')
    then show ?thesis
      using commit_next_version [OF assms(1) h img assms(3) success] False
      by (simp add: in_step_def failed_state_def synced_def)
  next
    case (failure e s')
    have "store_image (durable s') (handle_image (handle s)) \<or>
        (\<exists>h'. handle_ok A P h' \<and> next_version (handle s) state h' \<and>
           store_image (durable s') (handle_image h'))"
    proof (cases "durable s' = durable s")
      case True
      then show ?thesis
        using img by simp
    next
      case False
      then obtain s1 where s1: "commit_with_rng A L state draw (s\<lparr>calls := []\<rparr>) = (Inr (), s1)"
        and d: "durable s1 = durable s'"
        using commit_failure [OF failure] unfolding uncertain_commit_def by blast
      have "handle_ok A P (handle (s\<lparr>calls := []\<rparr>))"
          "store_image (durable (s\<lparr>calls := []\<rparr>)) (handle_image (handle s))"
        using h img by simp_all
      from commit_next_version [OF assms(1) this assms(3) s1] show ?thesis
        using d by (auto simp: synced_def)
    qed
    then show ?thesis
      using commit_failure [OF failure] failure False h by (simp add: in_step_def failed_state_def)
  qed
qed

lemma in_step_reaches:
  assumes "store_reaches A L s lost s'" and "aead_laws A" and "synced A P s" and "\<not> sh_poisoned (handle s)"
  shows "in_step A P lost s'"
  using assms
proof (induction rule: store_reaches.induct)
  case (store_start s)
  then show ?case by (simp add: in_step_def synced_def)
next
  case (store_faults s lost s1 cs)
  then show ?case by (simp add: in_step_def)
next
  case (store_commit s lost s1 draw state)
  then show ?case by (simp add: in_step_commit)
qed

text \<open>The generation stored in an image never decreases.\<close>

lemma db_reaches_image:
  assumes "db_reaches A L db db'" and "store_image db r"
  shows "\<exists>r'. store_image db' r' \<and> cr_generation r \<le> cr_generation r'"
  using assms
proof (induction rule: db_reaches.induct)
  case (db_commit db s state draw)
  then obtain r1 where r1: "store_image (durable s) r1" "cr_generation r \<le> cr_generation r1"
    by blast
  have advanced: "\<exists>r'. store_image (durable t') r' \<and> cr_generation r \<le> cr_generation r'"
    if "commit_with_rng A L state draw t = (Inr (), t')" "durable t = durable s" for t t'
  proof -
    have "r1 = handle_image (handle t) \<and> store_image (durable t') (handle_image (handle t')) \<and>
        uint (sh_generation (handle t')) = uint (sh_generation (handle t)) + 1"
      using commit_success [OF that(1), of r1] that(2) r1(1) by metis
    then show ?thesis
      using r1(2) by (auto simp: handle_row_def state_row_def intro!: exI [of _ "handle_image (handle t')"])
  qed
  show ?case
  proof (cases rule: commit_cases [of A L state draw s])
    case (success s')
    then show ?thesis
      using advanced [OF success] by simp
  next
    case (failure e s')
    then show ?thesis
      using commit_failure [OF failure] r1 advanced [of "s\<lparr>calls := []\<rparr>"]
      by (auto simp: uncertain_commit_def)
  qed
qed auto

section \<open>Operations that succeed\<close>

text \<open>Documented behaviour of a platform protector: its binding has the declared lengths, and
  it unwraps a key that it wrapped.\<close>

definition protector_laws :: "protector \<Rightarrow> bool" where
  "protector_laws P \<longleftrightarrow> (\<forall>b. expected_binding P = Inr b \<longrightarrow> binding_ok b) \<and>
     (\<forall>dek w. length dek = 32 \<longrightarrow> wrap_dek P dek = Inr w \<longrightarrow> unwrap_dek P w = Inr dek)"

lemma create_synced:
  assumes "create_with_rng A L fs path P state d n c = (Inr h, c')"
    and "schema_objects (durable c) = [] \<longrightarrow> client_state (durable c) = []"
    and "aead_laws A" and "protector_laws P" and "\<forall>nonce. n = Some nonce \<longrightarrow> length nonce = 24"
  shows "handle_ok A P h \<and> store_image (durable c') (handle_image h)"
proof -
  have "create_with_rng A L fs path P state d n (c\<lparr>calls := []\<rparr>) = (Inr h, c'\<lparr>calls := []\<rparr>)"
    using assms(1) by (rule create_tx.success_without_faults)
  from create_faultless [OF this] assms(2)
  obtain dek nonce where "n = Some nonce" "expected_binding P = Inr (sh_binding h)"
      "wrap_dek P dek = Inr (sh_wrapped_dek h)" "sh_dek h = dek" "sh_nonce h = nonce"
      "sh_generation h = 1" "sh_state h = state"
      "state_seal A (sh_binding h) 1 (sh_wrapped_dek h) dek nonce state = Inr (sh_ciphertext h)"
      "store_image (durable c') (handle_image h)"
    by auto
  moreover from this have "length (sh_dek h) = 32"
    by (simp add: state_seal_Inr_iff)
  ultimately show ?thesis
    using assms(3-5) state_seal_open [OF assms(3)] by (auto simp: handle_ok_def protector_laws_def)
qed

lemma create_usable:
  assumes "create_with_rng A L fs path P state d n c = (Inr h, c')"
    and "schema_objects (durable c) = [] \<longrightarrow> client_state (durable c) = []"
  shows "\<not> sh_poisoned h"
  using create_faultless [OF create_tx.success_without_faults [OF assms(1)]] assms(2) by auto

lemma state_row_check:
  assumes "binding_ok b" and "1 \<le> g" and "w \<noteq> []" and "length w \<le> WRAPPED_DEK_MAX_BYTES"
    and "length nonce = 24" and "16 \<le> length ct" and "length ct \<le> MAX_CIPHERTEXT_BYTES"
  shows "client_check (state_row b g w nonce ct)"
  using assms
  by (simp add: client_check_def state_row_def binding_ok_def SLOT_def ENVELOPE_VERSION_def
      STATE_SCHEMA_VERSION_def CRYPTO_SUITE_def WRAPPED_DEK_MAX_BYTES_def state_limits Suc_le_eq)

lemma create_succeeds:
  assumes "aead_laws A" and "catalog_laws L" and "reject_anomalous_wal fs path = Inr ()"
    and "calls c = []" and "durable c = empty_state_db"
    and "expected_binding P = Inr b" and "binding_ok b" and "wrap_dek P dek = Inr w"
    and "w \<noteq> []" and "length w \<le> WRAPPED_DEK_MAX_BYTES" and "length dek = 32" and "length nonce = 24"
    and "length state \<le> MAX_PLAINTEXT_BYTES" and "\<And>ad. aead_encrypt A dek nonce ad state \<noteq> None"
  shows "\<exists>h c'. create_with_rng A L fs path P state (Some dek) (Some nonce) c = (Inr h, c')"
proof -
  obtain ct where ct: "state_seal A b 1 w dek nonce state = Inr ct"
    using state_seal_total [OF assms(1,7,11) _ _ assms(9) _ assms(13,14), of 1] assms(10)
    by (auto simp: MAX_WRAPPED_DEK_BYTES_def WRAPPED_DEK_MAX_BYTES_def)
  then have len: "16 \<le> length ct" "length ct \<le> MAX_CIPHERTEXT_BYTES"
    using state_seal_open [OF assms(1) ct] by (auto simp: state_seal_Inr_iff)
  let ?db = "empty_state_db\<lparr>application_id := APPLICATION_ID, user_version := USER_VERSION,
      schema_objects := expected_objects, client_state := [state_row b 1 w nonce ct]\<rparr>"
  have check: "client_check (state_row b 1 w nonce ct)"
    using assms len by (intro state_row_check) simp_all
  then have "store_image ?db (state_row b 1 w nonce ct)"
    by (simp add: store_image_def)
  then have valid: "schema_valid L ?db"
    by (rule store_image_valid [OF assms(2)])
  have empty: "database_empty L empty_state_db"
    using assms(2) by (simp add: database_empty_def catalog_laws_def empty_state_db_def)
  have ins: "insert_row cr_slot client_check (state_row b 1 w nonce ct) [] =
      Inr [state_row b 1 w nonce ct]"
    using check by (simp add: insert_row_Inr_iff has_key_def)
  show ?thesis
    using assms(3-6,8-12) ct len empty valid ins
    by (simp add: create_with_rng_def sql_simps fill_def activate_storage_settings_def
        create_schema_def create_schema_db_def insert_client_row_def validate_ciphertext_len_def)
      (simp add: empty_state_db_def sql_simps)
qed

lemma commit_succeeds:
  assumes "aead_laws A" and "catalog_laws L" and "calls s = []" and "synced A P s"
    and "\<not> sh_poisoned (handle s)" and "uint (sh_generation (handle s)) + 1 < 2 ^ 63"
    and "length nonce = 24" and "length state \<le> MAX_PLAINTEXT_BYTES"
    and "\<And>ad. aead_encrypt A (sh_dek (handle s)) nonce ad state \<noteq> None"
  shows "\<exists>s'. commit_with_rng A L state (Some nonce) s = (Inr (), s')"
proof -
  let ?h = "handle s"
  have h: "handle_ok A P ?h" and img: "store_image (durable s) (handle_image ?h)"
    using assms(4) by (simp_all add: synced_def)
  have opens: "validate_header (sh_generation ?h) (sh_wrapped_dek ?h) (length (sh_ciphertext ?h) - 16)
      = Inr ()" "length (sh_dek ?h) = 32" "binding_ok (sh_binding ?h)"
    using h by (auto simp: handle_ok_def state_open_Inr_iff)
  then have w: "sh_wrapped_dek ?h \<noteq> []" "length (sh_wrapped_dek ?h) \<le> MAX_WRAPPED_DEK_BYTES"
    by (auto simp: validate_header_def split: if_splits)
  have "int (unat (sh_generation ?h) + 1) < int (2 ^ 64)"
    using assms(6) by simp
  then have "unat (sh_generation ?h) + 1 < 2 ^ 64"
    by (simp only: of_nat_less_iff)
  then obtain gen where add: "u64_checked_add (sh_generation ?h) 1 = Some gen"
    by (simp add: u64_checked_add_def)
  note gen = u64_checked_add_1 [OF add]
  have pos: "0 < gen"
    using gen handle_generation [OF h] by (simp add: word_less_def)
  obtain ct where ct: "state_seal A (sh_binding ?h) gen (sh_wrapped_dek ?h) (sh_dek ?h) nonce state = Inr ct"
    using state_seal_total [OF assms(1) opens(3,2) pos _ w assms(8,9)] gen assms(6) by auto
  then have len: "16 \<le> length ct" "length ct \<le> MAX_CIPHERTEXT_BYTES"
    using state_seal_open [OF assms(1) ct] by (auto simp: state_seal_Inr_iff)
  have upd: "(handle_image ?h)\<lparr>cr_generation := uint gen, cr_nonce := nonce, cr_ciphertext := ct\<rparr> =
      state_row (sh_binding ?h) (uint gen) (sh_wrapped_dek ?h) nonce ct"
    by (simp add: handle_row_def state_row_def)
  have "client_check (state_row (sh_binding ?h) (uint gen) (sh_wrapped_dek ?h) nonce ct)"
    using opens w len assms(7) gen handle_generation [OF h]
    by (intro state_row_check) (simp_all add: MAX_WRAPPED_DEK_BYTES_def WRAPPED_DEK_MAX_BYTES_def)
  then have "\<exists>db. swap_client_row (handle_image ?h) (uint gen) nonce ct (durable s) = Inr (1, db)"
    using img by (simp add: swap_client_row_def update_where_def matches_row_iff store_image_def upd)
  moreover have "schema_valid L (durable s)"
    using assms(2) img by (rule store_image_valid)
  moreover have "i64_try_from gen = Some (uint gen)"
      "i64_try_from (sh_generation ?h) = Some (uint (sh_generation ?h))"
    using gen assms(6) by (simp_all add: i64_try_from_def)
  ultimately show ?thesis
    using assms(3,5) add ct len
    by (auto simp: commit_with_rng_def commit_inner_def sql_simps fill_def validate_ciphertext_len_def
        modify_state_def Let_def)
qed

end
