(* ===== verification/State_Properties.thy ===== *)
theory State_Properties
  imports State_Store_History
begin

text \<open>
  What the encrypted state store promises: reopening gives back the last committed state,
  the commit is a compare-and-swap on generations, a stale handle never overwrites a newer
  state, a failed commit poisons the handle and changes nothing unless its answer was lost, opening never writes, and
  an opened state is one that was sealed for the same profile, key and generation.
\<close>

section \<open>A concrete instance\<close>

definition example_tag :: "bytes \<Rightarrow> bytes" where
  "example_tag bs = replicate 15 0 @ [checksum bs]"

definition example_aead :: aead where
  "example_aead = \<lparr>
     aead_encrypt = (\<lambda>k n a m. Some (m @ example_tag (k @ n @ a @ m))),
     aead_decrypt = (\<lambda>k n a c.
       let m = take (length c - 16) c in
       if drop (length c - 16) c = example_tag (k @ n @ a @ m) then Some m else None),
     aead_sha256 = (\<lambda>bs. replicate 31 0 @ [checksum bs])\<rparr>"

definition example_catalog :: catalog where
  "example_catalog = \<lparr>
     table_list = (\<lambda>_. [(''client_state'', ''table'', 10, 0, 1), (''sqlite_schema'', ''table'', 5, 0, 0)]),
     table_xinfo = (\<lambda>_. map (\<lambda>(i, name, type_name, pk). (int i, name, type_name, 1, None, pk, 0))
       (enumerate 0 column_names)),
     index_count = (\<lambda>_. 0), foreign_key_count = (\<lambda>_. 0),
     integrity_check = (\<lambda>db. if schema_objects db = [] \<or> list_all client_check (client_state db)
       then ''ok'' else ''corrupt''),
     foreign_key_problem = (\<lambda>_. False)\<rparr>"

definition example_protector :: protector where
  "example_protector = \<lparr>
     expected_binding = Inr \<lparr>pb_profile_id = replicate 16 1, pb_key_ref = replicate 16 2\<rparr>,
     p_protection_level = SoftwareBacked,
     wrap_dek = (\<lambda>dek. Inr (7 # dek)),
     unwrap_dek = (\<lambda>w. case w of [] \<Rightarrow> Inl Storage | t # dek \<Rightarrow> if t = 7 then Inr dek else Inl Storage)\<rparr>"

definition example_fs :: file_system where
  "example_fs = \<lparr>fs_canonicalize = Some, fs_metadata = (\<lambda>_. Inl NotFound), fs_open = (\<lambda>_. Inl NotFound)\<rparr>"

definition example_conn :: "state_db conn" where
  "example_conn = \<lparr>durable = empty_state_db, working = empty_state_db, calls = []\<rparr>"

lemma example_aead_laws: "aead_laws example_aead"
  by (simp add: aead_laws_def example_aead_def example_tag_def Let_def)

lemma example_catalog_laws: "catalog_laws example_catalog"
  by (simp add: catalog_laws_def example_catalog_def)

lemma example_protector_laws: "protector_laws example_protector"
  by (simp add: protector_laws_def example_protector_def binding_ok_def)

lemma example_guard: "reject_anomalous_wal example_fs path = Inr ()"
  by (simp add: reject_anomalous_wal_def example_fs_def nonempty_companion_def)

text \<open>A store as the creation leaves it.\<close>

definition example_create :: "state_handle result \<times> state_db conn" where
  "example_create = create_with_rng example_aead example_catalog example_fs ''state.sqlite''
     example_protector [5, 6] (Some (replicate 32 3)) (Some (replicate 24 4)) example_conn"

definition example_store :: client_state_store where
  "example_store = (case example_create of (Inr h, c) \<Rightarrow>
     \<lparr>durable = durable c, working = durable c, calls = [], handle = h\<rparr>)"

lemma example_create_Inr:
  obtains h c where "example_create = (Inr h, c)"
  using create_succeeds [OF example_aead_laws example_catalog_laws example_guard,
      of example_conn example_protector "\<lparr>pb_profile_id = replicate 16 1, pb_key_ref = replicate 16 2\<rparr>"
        "replicate 32 3" "7 # replicate 32 3" "replicate 24 4" "[5, 6]" "''state.sqlite''"]
  by (auto simp: example_create_def example_conn_def example_protector_def binding_ok_def
      WRAPPED_DEK_MAX_BYTES_def state_limits example_aead_def)

lemma example_store_fields:
  assumes "example_create = (Inr h, c)"
  shows "handle example_store = h \<and> durable example_store = durable c \<and> calls example_store = []"
  unfolding example_store_def assms by simp

lemma example_created:
  assumes "example_create = (Inr h, c)"
  shows "sh_state h = [5, 6] \<and> sh_generation h = 1 \<and> \<not> sh_poisoned h \<and> sh_dek h = replicate 32 3 \<and>
    handle_ok example_aead example_protector h \<and> store_image (durable c) (handle_image h)"
proof -
  have "schema_objects (durable example_conn) = [] \<longrightarrow> client_state (durable example_conn) = []"
    by (simp add: example_conn_def empty_state_db_def)
  moreover have "calls example_conn = []"
    by (simp add: example_conn_def)
  ultimately show ?thesis
    using create_faultless [OF assms [unfolded example_create_def]]
      create_synced [OF assms [unfolded example_create_def] _ example_aead_laws example_protector_laws]
    by auto
qed

lemma example_synced: "synced example_aead example_protector example_store"
  using example_create_Inr example_created example_store_fields by (metis synced_def)

lemma example_commit:
  assumes "length state \<le> 100"
  shows "\<exists>s'. commit_with_rng example_aead example_catalog state (Some (replicate 24 9)) example_store =
    (Inr (), s')"
proof -
  obtain h c where h: "example_create = (Inr h, c)"
    by (rule example_create_Inr)
  show ?thesis
    using assms example_created [OF h] example_store_fields [OF h]
    by (intro commit_succeeds [OF example_aead_laws example_catalog_laws _ example_synced])
      (simp_all add: state_limits example_aead_def)
qed

section \<open>The abstract register\<close>

text \<open>The register of an image is the generation and the state that its row opens to; the
  specification of a commit is a compare-and-swap on it.\<close>

definition register_of :: "aead \<Rightarrow> protector \<Rightarrow> state_db \<Rightarrow> (u64 \<times> bytes) option" where
  "register_of A P db = (case client_state db of
     [r] \<Rightarrow> (case (expected_binding P, unwrap_dek P (cr_wrapped_dek r)) of
       (Inr b, Inr dek) \<Rightarrow>
         (case state_open A b (word_of_int (cr_generation r)) (cr_wrapped_dek r) dek (cr_nonce r)
            (cr_ciphertext r) of
            Inr state \<Rightarrow> Some (word_of_int (cr_generation r), state)
          | Inl _ \<Rightarrow> None)
     | _ \<Rightarrow> None)
   | _ \<Rightarrow> None)"

definition spec_compare_and_swap ::
    "u64 \<times> bytes \<Rightarrow> bytes \<Rightarrow> (u64 \<times> bytes) option \<Rightarrow> (u64 \<times> bytes) option" where
  "spec_compare_and_swap expected state register =
     (if register = Some expected then Some (fst expected + 1, state) else register)"

lemma register_of_synced:
  "synced A P s \<Longrightarrow> register_of A P (durable s) = Some (sh_generation (handle s), sh_state (handle s))"
  by (simp add: synced_def register_of_def store_image_def handle_ok_def)
    (simp add: handle_row_def state_row_def)

lemma register_swapped:
  assumes "aead_laws A" and "handle_ok A P (handle s)" and "store_image (durable s) r"
    and "\<forall>nonce. draw = Some nonce \<longrightarrow> length nonce = 24"
    and "commit_with_rng A L state draw s = (Inr (), s')"
  shows "register_of A P (durable s) = Some (sh_generation (handle s), sh_state (handle s)) \<and>
    register_of A P (durable s') = spec_compare_and_swap
      (sh_generation (handle s), sh_state (handle s)) state (register_of A P (durable s))"
  using commit_next_version [OF assms]
  by (simp add: register_of_synced spec_compare_and_swap_def next_version_def)

section \<open>Properties\<close>

text \<open>C5. Nothing that was committed is lost and nothing else appears: after a creation and any
  sequence of commits on the handle, each under any pattern of failing database calls and lost
  answers, opening the database again gives exactly the handle that the commits left behind,
  with the last committed state and its generation, and clears only the poison mark. Only when
  a commit failed may the opening give the next generation instead, under the same binding and
  keys, and then with exactly the state that this commit was given. A process that dies at a
  call leaves the image of a run in which this call fails or loses its answer, so this also
  covers death at any point.\<close>

theorem reopened_store_is_the_last_commit:
  assumes "create_with_rng A L fs path P state d n c = (Inr h, c')"
    and "schema_objects (durable c) = [] \<longrightarrow> client_state (durable c) = []"
    and "aead_laws A" and "catalog_laws L" and "protector_laws P"
    and "\<forall>nonce. n = Some nonce \<longrightarrow> length nonce = 24"
    and "handle s0 = h" and "durable s0 = durable c'" and "store_reaches A L s0 lost s"
    and "durable k = durable s" and "calls k = []" and "reject_anomalous_wal fs' path' = Inr ()"
  shows "fst (open_store A L fs' path' P k) = Inr ((handle s)\<lparr>sh_poisoned := False\<rparr>) \<or>
    (\<exists>state' h'. lost = Some state' \<and> sh_poisoned (handle s) \<and> next_version (handle s) state' h' \<and>
       fst (open_store A L fs' path' P k) = Inr h')"
proof -
  have "synced A P s0" and "\<not> sh_poisoned (handle s0)"
    using create_synced [OF assms(1-3,5,6)] create_usable [OF assms(1,2)] assms(7,8)
    by (simp_all add: synced_def)
  then have step: "in_step A P lost s"
    using in_step_reaches assms(3,9) by blast
  note reopened = open_store_of_image [OF assms(4,12,11), of A P]
  from step consider "handle_ok A P (handle s)" "store_image (durable s) (handle_image (handle s))"
    | h' state' where "lost = Some state'" "sh_poisoned (handle s)" "handle_ok A P h'"
        "next_version (handle s) state' h'" "store_image (durable s) (handle_image h')"
    by (auto simp: in_step_def)
  then show ?thesis
  proof cases
    case 1
    then show ?thesis
      using reopened assms(10) by simp
  next
    case 2
    moreover have "next_version (handle s) state' (h'\<lparr>sh_poisoned := False\<rparr>)"
      using 2(4) by (simp add: next_version_def)
    ultimately show ?thesis
      using reopened [of h'] assms(10) by auto
  qed
qed

theorem reopened_store_is_the_last_commit_witness:
  "\<exists>s h. s = snd (commit_with_rng example_aead example_catalog [8, 8, 8] (Some (replicate 24 9))
       example_store) \<and>
     fst (open_store example_aead example_catalog example_fs ''state.sqlite'' example_protector
       \<lparr>durable = durable s, working = empty_state_db, calls = []\<rparr>) = Inr h \<and>
     sh_state h = [8, 8, 8]"
proof -
  obtain h c where h: "example_create = (Inr h, c)"
    by (rule example_create_Inr)
  let ?s = "snd (commit_with_rng example_aead example_catalog [8, 8, 8] (Some (replicate 24 9))
      example_store)"
  obtain s1 where s1: "commit_with_rng example_aead example_catalog [8, 8, 8] (Some (replicate 24 9))
      example_store = (Inr (), s1)"
    using example_commit [of "[8, 8, 8]"] by auto
  have "store_reaches example_aead example_catalog example_store
      (failed_state None [8, 8, 8] example_store (Inr ())) ?s"
    using store_commit [OF store_start, where draw = "Some (replicate 24 9)" and A = example_aead
        and L = example_catalog and state = "[8, 8, 8]"] s1 by (metis fst_conv length_replicate option.inject)
  then have reach: "store_reaches example_aead example_catalog example_store None ?s"
    using example_created [OF h] example_store_fields [OF h] by (simp add: failed_state_def)
  have "fst (open_store example_aead example_catalog example_fs ''state.sqlite'' example_protector
      \<lparr>durable = durable ?s, working = empty_state_db, calls = []\<rparr>) =
      Inr ((handle ?s)\<lparr>sh_poisoned := False\<rparr>)"
    using reopened_store_is_the_last_commit [OF h [unfolded example_create_def] _
          example_aead_laws example_catalog_laws example_protector_laws _ _ _ reach _ _ example_guard,
        of "\<lparr>durable = durable ?s, working = empty_state_db, calls = []\<rparr>" "''state.sqlite''"]
    by (simp add: example_store_fields [OF h] example_conn_def empty_state_db_def)
  moreover have "sh_state (handle ?s) = [8, 8, 8]"
    using s1 commit_success [OF s1] example_synced unfolding synced_def by fastforce
  ultimately show ?thesis by auto
qed

text \<open>C4. The commit implements a compare-and-swap on a versioned register. The register of an
  image is the generation and the state that its row opens to. For a handle that is sound for
  the protector, a commit either succeeds, and then the register held exactly the handle's
  generation and state and now holds the next generation and the new state, or it fails and
  the register is as it was, for every pattern of failing database calls. A commit that reports
  \<open>Storage\<close> because an answer was lost may have swapped, but then it was the same swap.\<close>

theorem commit_is_compare_and_swap:
  assumes "aead_laws A" and "handle_ok A P (handle s)" and "store_image (durable s) r"
    and "\<forall>nonce. draw = Some nonce \<longrightarrow> length nonce = 24"
  shows "case commit_with_rng A L state draw s of
      (Inr _, s') \<Rightarrow> register_of A P (durable s) = Some (sh_generation (handle s), sh_state (handle s)) \<and>
        register_of A P (durable s') = spec_compare_and_swap
          (sh_generation (handle s), sh_state (handle s)) state (register_of A P (durable s))
    | (Inl e, s') \<Rightarrow> register_of A P (durable s') = register_of A P (durable s) \<or>
        e = Storage \<and> \<not> certain s \<and>
        register_of A P (durable s) = Some (sh_generation (handle s), sh_state (handle s)) \<and>
        register_of A P (durable s') = spec_compare_and_swap
          (sh_generation (handle s), sh_state (handle s)) state (register_of A P (durable s))"
proof (cases rule: commit_cases [of A L state draw s])
  case (success s')
  then show ?thesis
    using register_swapped [OF assms success] by simp
next
  case (failure e s')
  have "register_of A P (durable s) = Some (sh_generation (handle s), sh_state (handle s)) \<and>
      register_of A P (durable s') = spec_compare_and_swap
        (sh_generation (handle s), sh_state (handle s)) state (register_of A P (durable s))"
    if u: "uncertain_commit A L state draw s s'"
  proof -
    obtain s1 where s1: "commit_with_rng A L state draw (s\<lparr>calls := []\<rparr>) = (Inr (), s1)"
        "durable s1 = durable s'"
      using u by (auto simp: uncertain_commit_def)
    show ?thesis
      using register_swapped [OF assms(1) _ _ assms(4) s1(1), of P r] assms(2,3) s1(2) by simp
  qed
  then show ?thesis
    using commit_failure [OF failure] failure by (auto simp: uncertain_commit_def)
qed

theorem commit_is_compare_and_swap_witness:
  "register_of example_aead example_protector (durable (snd (commit_with_rng example_aead
     example_catalog [8] (Some (replicate 24 9)) example_store))) = Some (2, [8])"
proof -
  obtain h c where h: "example_create = (Inr h, c)"
    by (rule example_create_Inr)
  obtain s' where s': "commit_with_rng example_aead example_catalog [8] (Some (replicate 24 9))
      example_store = (Inr (), s')"
    using example_commit [of "[8]"] by auto
  have "store_image (durable example_store) (handle_image (handle example_store))"
    and "handle_ok example_aead example_protector (handle example_store)"
    using example_synced by (simp_all add: synced_def)
  then show ?thesis
    using commit_is_compare_and_swap [OF example_aead_laws, where P = example_protector and
        s = example_store and draw = "Some (replicate 24 9)" and L = example_catalog and
        state = "[8]"] s'
      example_created [OF h] example_store_fields [OF h]
    by (simp add: spec_compare_and_swap_def)
qed

text \<open>C35. A commit succeeds exactly when it should: on a usable handle that is sound for the
  protector, with a fresh nonce, a state within the size limit, room for the next generation
  and no failing database call, the commit succeeds if and only if the row in the database is
  the one the handle last read or wrote.\<close>

theorem commit_succeeds_iff_current:
  assumes "aead_laws A" and "catalog_laws L" and "calls s = []" and "handle_ok A P (handle s)"
    and "\<not> sh_poisoned (handle s)" and "uint (sh_generation (handle s)) + 1 < 2 ^ 63"
    and "length nonce = 24" and "length state \<le> MAX_PLAINTEXT_BYTES"
    and "\<And>ad. aead_encrypt A (sh_dek (handle s)) nonce ad state \<noteq> None"
    and "store_image (durable s) r"
  shows "fst (commit_with_rng A L state (Some nonce) s) = Inr () \<longleftrightarrow> r = handle_image (handle s)"
proof
  assume "fst (commit_with_rng A L state (Some nonce) s) = Inr ()"
  then show "r = handle_image (handle s)"
    using commit_success assms(10) by (metis prod.collapse)
next
  assume "r = handle_image (handle s)"
  then have "synced A P s"
    using assms(4,10) by (simp add: synced_def)
  then show "fst (commit_with_rng A L state (Some nonce) s) = Inr ()"
    using commit_succeeds [OF assms(1-3) _ assms(5-9)] by fastforce
qed

theorem commit_succeeds_iff_current_witness:
  "fst (commit_with_rng example_aead example_catalog [8] (Some (replicate 24 9)) example_store) = Inr ()"
proof -
  obtain h c where h: "example_create = (Inr h, c)"
    by (rule example_create_Inr)
  show ?thesis
    using commit_succeeds_iff_current [OF example_aead_laws example_catalog_laws, of example_store
        example_protector "replicate 24 9" "[8]" "handle_image (handle example_store)"]
      example_synced example_created [OF h] example_store_fields [OF h]
    by (simp add: synced_def state_limits example_aead_def)
qed

text \<open>C17. No lost update: once a commit of one handle has succeeded, a handle that still holds a
  generation no later than the one replaced never commits successfully to that database
  again, whatever other handles commit in between.\<close>

theorem stale_handle_never_commits:
  assumes "commit_with_rng A L state draw s = (Inr (), s1)" and "store_image (durable s) r"
    and "db_reaches A L (durable s1) (durable t)"
    and "uint (sh_generation (handle t)) \<le> uint (sh_generation (handle s))"
  shows "fst (commit_with_rng A L state' draw' t) \<noteq> Inr ()"
proof
  assume "fst (commit_with_rng A L state' draw' t) = Inr ()"
  then obtain t' where t': "commit_with_rng A L state' draw' t = (Inr (), t')"
    by (metis prod.collapse)
  have s1: "store_image (durable s1) (handle_image (handle s1))"
      "uint (sh_generation (handle s1)) = uint (sh_generation (handle s)) + 1"
    using commit_success [OF assms(1,2)] by blast+
  then obtain r' where r': "store_image (durable t) r'"
      "cr_generation (handle_image (handle s1)) \<le> cr_generation r'"
    using db_reaches_image [OF assms(3)] by blast
  then have "r' = handle_image (handle t)"
    using commit_success [OF t'] by blast
  then show False
    using r'(2) s1(2) assms(4) by (simp add: handle_row_def state_row_def)
qed

theorem stale_handle_never_commits_witness:
  "\<exists>s1. commit_with_rng example_aead example_catalog [8] (Some (replicate 24 9)) example_store =
      (Inr (), s1) \<and>
    fst (commit_with_rng example_aead example_catalog [7] (Some (replicate 24 1))
      (example_store\<lparr>durable := durable s1\<rparr>)) \<noteq> Inr ()"
proof -
  obtain s1 where s1: "commit_with_rng example_aead example_catalog [8] (Some (replicate 24 9))
      example_store = (Inr (), s1)"
    using example_commit [of "[8]"] by auto
  have "store_image (durable example_store) (handle_image (handle example_store))"
    using example_synced by (simp add: synced_def)
  moreover have "db_reaches example_aead example_catalog (durable s1)
      (durable (example_store\<lparr>durable := durable s1\<rparr>))"
    by (simp add: db_start)
  ultimately have "fst (commit_with_rng example_aead example_catalog [7] (Some (replicate 24 1))
      (example_store\<lparr>durable := durable s1\<rparr>)) \<noteq> Inr ()"
    using stale_handle_never_commits [OF s1, of _ "example_store\<lparr>durable := durable s1\<rparr>"] by simp
  then show ?thesis
    using s1 by blast
qed

text \<open>C36. A failed commit poisons the handle and keeps every other field of it. The database is as it
  was, or, when the answer of a call was lost, as the same commit leaves it without failing
  calls. From then on the state, the generation and the
  binding are withheld and every further commit is refused without touching anything.\<close>

theorem failed_commit_poisons:
  assumes "commit_with_rng A L state draw s = (Inl e, s')"
  shows "(durable s' = durable s \<or> e = Storage \<and> uncertain_commit A L state draw s s') \<and>
    handle s' = (handle s)\<lparr>sh_poisoned := True\<rparr> \<and>
    store_state (handle s') = Inl Storage \<and> store_generation (handle s') = Inl Storage \<and>
    store_binding (handle s') = Inl Storage \<and>
    commit_with_rng A L state' draw' s' = (Inl Storage, s')"
  using commit_failure [OF assms]
  by (auto simp: store_state_def store_generation_def store_binding_def ensure_usable_def
      commit_with_rng_def)

theorem failed_commit_poisons_witness:
  "store_state (handle (snd (commit_with_rng example_aead example_catalog [8] None example_store))) =
     Inl Storage"
proof -
  have "commit_with_rng example_aead example_catalog [8] None example_store \<noteq> (Inr (), s')" for s'
    using commit_inner_success unfolding commit_with_rng_Inr by blast
  then obtain e s' where
    "commit_with_rng example_aead example_catalog [8] None example_store = (Inl e, s')"
    by (cases rule: commit_cases [of example_aead example_catalog "[8]" None example_store]) auto
  from failed_commit_poisons [OF this] this show ?thesis by (metis snd_conv)
qed

text \<open>Opening only reads: whatever the database holds, whichever of its calls fail and whatever
  it returns, opening a store leaves the committed image as it was.\<close>

lemma opening_never_writes:
  "durable (snd (open_store A L fs path P c)) = durable c"
  using quietD(1) [OF open_store_quiet, unfolded same_store_def] by blast

text \<open>C37. An opened state is authentic: if the ciphertext that was read is not a forgery under the
  data key (when it decrypts, it is one of the states sealed under that key with that
  associated data), then the opened handle carries the binding of the platform registry, and
  its state was sealed for this very profile, key reference and generation and for a wrapped
  key of the same hash; a row of another profile, an older generation under a newer header or
  a swapped wrapped key is not accepted.\<close>

theorem opened_state_is_authentic:
  assumes "aead_laws A" and "protector_laws P" and "open_store A L fs path P c = (Inr h, c')"
    and not_forged: "\<And>ad m. aad A (sh_binding h) (sh_generation h) (sh_wrapped_dek h) = Inr ad \<Longrightarrow>
      aead_decrypt A (sh_dek h) (sh_nonce h) ad (sh_ciphertext h) = Some m \<Longrightarrow>
      \<exists>(b, g, w, m')\<in>issued. binding_ok b \<and> aad A b g w = Inr ad \<and> m' = m"
  shows "expected_binding P = Inr (sh_binding h) \<and>
    (\<exists>w. (sh_binding h, sh_generation h, w, sh_state h) \<in> issued \<and>
       aead_sha256 A w = aead_sha256 A (sh_wrapped_dek h))"
proof -
  have o: "expected_binding P = Inr (sh_binding h)"
      "state_open A (sh_binding h) (sh_generation h) (sh_wrapped_dek h) (sh_dek h) (sh_nonce h)
        (sh_ciphertext h) = Inr (sh_state h)"
    using open_store_success [OF assms(3)] by simp_all
  then have b: "binding_ok (sh_binding h)"
    using assms(2) by (simp add: protector_laws_def)
  obtain ad where ad: "aad A (sh_binding h) (sh_generation h) (sh_wrapped_dek h) = Inr ad"
      "aead_decrypt A (sh_dek h) (sh_nonce h) ad (sh_ciphertext h) = Some (sh_state h)"
    using o(2) by (auto simp: state_open_Inr_iff)
  then obtain b' g w where i: "(b', g, w, sh_state h) \<in> issued" "binding_ok b'" "aad A b' g w = Inr ad"
    using not_forged [OF ad] by blast
  then have "b' = sh_binding h \<and> g = sh_generation h \<and> aead_sha256 A w = aead_sha256 A (sh_wrapped_dek h)"
    using aad_eq_iff [OF assms(1) i(2) b, of g w "sh_generation h" "sh_wrapped_dek h"] ad(1)
      i(3) by metis
  then show ?thesis
    using o(1) i(1) by blast
qed

theorem opened_state_is_authentic_witness:
  "\<exists>h. fst (open_store example_aead example_catalog example_fs ''state.sqlite'' example_protector
       \<lparr>durable = durable example_store, working = empty_state_db, calls = []\<rparr>) = Inr h \<and>
     expected_binding example_protector = Inr (sh_binding h) \<and> sh_state h = [5, 6]"
proof -
  obtain h c where h: "example_create = (Inr h, c)"
    by (rule example_create_Inr)
  let ?k = "\<lparr>durable = durable example_store, working = empty_state_db, calls = []\<rparr>"
  have ok: "handle_ok example_aead example_protector h" "store_image (durable c) (handle_image h)"
    using example_created [OF h] by blast+
  have o: "open_store example_aead example_catalog example_fs ''state.sqlite'' example_protector ?k =
      (Inr (h\<lparr>sh_poisoned := False\<rparr>), ?k\<lparr>working := durable ?k\<rparr>)"
    by (rule open_store_of_image [OF example_catalog_laws example_guard _ ok(1)])
      (use ok(2) example_store_fields [OF h] in simp_all)
  let ?h = "h\<lparr>sh_poisoned := False\<rparr>"
  have "expected_binding example_protector = Inr (sh_binding ?h) \<and>
    (\<exists>w. (sh_binding ?h, sh_generation ?h, w, sh_state ?h) \<in>
         {(sh_binding h, sh_generation h, sh_wrapped_dek h, sh_state h)} \<and>
       aead_sha256 example_aead w = aead_sha256 example_aead (sh_wrapped_dek ?h))"
    by (rule opened_state_is_authentic [OF example_aead_laws example_protector_laws o])
      (use ok(1) in \<open>auto simp: handle_ok_def state_open_Inr_iff\<close>)
  then show ?thesis
    using o example_created [OF h] by simp
qed

end
