(* ===== verification/Relay_Open.thy ===== *)
theory Relay_Open
  imports Relay_Invariant Companion "HOL-Library.Char_ord" "HOL-Library.List_Lexorder"
    "HOL-Library.Option_ord" "HOL-Library.Product_Lexorder"
begin

text \<open>
  Opening a relay database, \<^verbatim>\<open>Relay::open_at\<close> and \<^verbatim>\<open>initialize\<close> of \<^verbatim>\<open>src/src/relay.rs\<close>: the
  preflight of an existing file, the schema manifest and its classification, the migration of
  an empty or a legacy database, and the sweep that ends the opening. What SQLite reports about
  a schema, what a DDL script adds to it and what crash recovery makes of a file are third-party
  code and enter as the record \<open>sqlite\<close>.
\<close>

section \<open>Schema manifests\<close>

datatype schema_object =
  SchemaObject (so_type: string) (so_name: string) (so_tbl_name: string) (so_sql: "string option")

definition so_key :: "schema_object \<Rightarrow> string \<times> string \<times> string \<times> string option" where
  "so_key x = (so_type x, so_name x, so_tbl_name x, so_sql x)"

text \<open>The derived order of \<^verbatim>\<open>SchemaObject\<close>: lexicographic, an absent text first.\<close>

instantiation schema_object :: linorder
begin

definition less_eq_schema_object :: "schema_object \<Rightarrow> schema_object \<Rightarrow> bool" where
  "less_eq_schema_object x y \<longleftrightarrow> so_key x \<le> so_key y"

definition less_schema_object :: "schema_object \<Rightarrow> schema_object \<Rightarrow> bool" where
  "less_schema_object x y \<longleftrightarrow> so_key x < so_key y"

instance
proof
  show "x = y" if "x \<le> y" "y \<le> x" for x y :: schema_object
    using order_antisym [OF that [unfolded less_eq_schema_object_def]]
    by (cases x, cases y) (simp add: so_key_def)
qed (auto simp: less_eq_schema_object_def less_schema_object_def)

end

type_synonym table_column = "int \<times> string \<times> string \<times> int \<times> string option \<times> int \<times> int"
type_synonym foreign_key = "int \<times> int \<times> string \<times> string \<times> string \<times> string \<times> string \<times> string"
type_synonym table_list_row = "string \<times> string \<times> string \<times> int \<times> int \<times> int"
type_synonym index_list_row = "int \<times> string \<times> int \<times> string \<times> int"
type_synonym index_column = "int \<times> int \<times> string option \<times> int \<times> string \<times> int"

record index_shape =
  ix_list :: index_list_row
  ix_columns :: "index_column list"

record table_shape =
  tb_table_list :: table_list_row
  tb_columns :: "table_column list"
  tb_indexes :: "index_shape list"
  tb_foreign_keys :: "foreign_key list"

text \<open>The \<^verbatim>\<open>BTreeMap\<close> of the tables is an association list in key order.\<close>

record schema_manifest =
  sm_objects :: "schema_object list"
  sm_tables :: "(string \<times> table_shape) list"

definition default_manifest :: schema_manifest where
  "default_manifest = \<lparr>sm_objects = [], sm_tables = []\<rparr>"

datatype schema_kind = Empty | Legacy | Current | Unknown

fun btree_insert :: "string \<Rightarrow> 'a \<Rightarrow> (string \<times> 'a) list \<Rightarrow> (string \<times> 'a) list" where
  "btree_insert k v [] = [(k, v)]"
| "btree_insert k v ((k', v') # rest) =
     (if k < k' then (k, v) # (k', v') # rest
      else if k = k' then (k, v) # rest
      else (k', v') # btree_insert k v rest)"

section \<open>The file and SQLite\<close>

record legacy_message_row =
  lm_queue_id :: bytes
  lm_message_id :: bytes
  lm_ciphertext :: bytes
  lm_expires_at :: int

text \<open>An image of the file: \<^verbatim>\<open>user_version\<close>, the rows of \<^verbatim>\<open>sqlite_schema\<close>, the rows of the six
  tables, and the rows of a \<^verbatim>\<open>messages\<close> table that still has the legacy shape.\<close>

record relay_file =
  rf_user_version :: int
  rf_schema :: "schema_object list"
  rf_tables :: relay_db
  rf_legacy_messages :: "legacy_message_row list"

text \<open>\<open>recover fs path f\<close> is the image that SQLite makes of the file when it replays the journal or
  the write-ahead log beside it.\<close>

record sqlite =
  pragma_table_list :: "schema_object list \<Rightarrow> string \<Rightarrow> table_list_row option"
  pragma_table_xinfo :: "schema_object list \<Rightarrow> string \<Rightarrow> table_column list"
  pragma_index_list :: "schema_object list \<Rightarrow> string \<Rightarrow> index_list_row list"
  pragma_index_xinfo :: "schema_object list \<Rightarrow> string \<Rightarrow> index_column list"
  pragma_foreign_key_list :: "schema_object list \<Rightarrow> string \<Rightarrow> foreign_key list"
  run_ddl :: "string \<Rightarrow> schema_object list \<Rightarrow> schema_object list option"
  foreign_key_violation :: "relay_file \<Rightarrow> bool"
  integrity_rows :: "relay_file \<Rightarrow> string list"
  recover :: "file_system \<Rightarrow> string \<Rightarrow> relay_file \<Rightarrow> relay_file"

section \<open>DDL\<close>

definition nl :: string where "nl = [CHR 0x0A]"

definition MAILBOXES_DDL :: string where
  "MAILBOXES_DDL =
     ''        CREATE TABLE mailboxes ('' @ nl @
     ''            queue_id BLOB PRIMARY KEY NOT NULL CHECK(length(queue_id) = 32),'' @ nl @
     ''            send_key BLOB NOT NULL CHECK(length(send_key) = 32),'' @ nl @
     ''            receive_key BLOB NOT NULL CHECK(length(receive_key) = 32),'' @ nl @
     ''            manage_key BLOB NOT NULL CHECK(length(manage_key) = 32),'' @ nl @
     ''            created_at INTEGER NOT NULL'' @ nl @
     ''        ) STRICT;'' @ nl"

definition MESSAGES_DDL :: string where
  "MESSAGES_DDL =
     ''        CREATE TABLE messages ('' @ nl @
     ''            queue_id BLOB NOT NULL,'' @ nl @
     ''            message_id BLOB NOT NULL CHECK(length(message_id) = 16),'' @ nl @
     ''            ciphertext BLOB NOT NULL,'' @ nl @
     ''            expires_at INTEGER NOT NULL,'' @ nl @
     ''            sender_signature BLOB NOT NULL CHECK(length(sender_signature) = 64),'' @ nl @
     ''            PRIMARY KEY (queue_id, message_id),'' @ nl @
     ''            FOREIGN KEY (queue_id) REFERENCES mailboxes(queue_id) ON DELETE CASCADE'' @ nl @
     ''        ) STRICT;'' @ nl"

definition LEGACY_MESSAGES_DDL :: string where
  "LEGACY_MESSAGES_DDL =
     ''        CREATE TABLE messages ('' @ nl @
     ''            queue_id BLOB NOT NULL,'' @ nl @
     ''            message_id BLOB NOT NULL CHECK(length(message_id) = 16),'' @ nl @
     ''            ciphertext BLOB NOT NULL,'' @ nl @
     ''            expires_at INTEGER NOT NULL,'' @ nl @
     ''            PRIMARY KEY (queue_id, message_id),'' @ nl @
     ''            FOREIGN KEY (queue_id) REFERENCES mailboxes(queue_id) ON DELETE CASCADE'' @ nl @
     ''        ) STRICT;'' @ nl"

definition OTHER_TABLES_DDL :: string where
  "OTHER_TABLES_DDL =
     ''        CREATE TABLE tombstones ('' @ nl @
     ''            queue_id BLOB NOT NULL,'' @ nl @
     ''            message_id BLOB NOT NULL CHECK(length(message_id) = 16),'' @ nl @
     ''            delete_after INTEGER NOT NULL,'' @ nl @
     ''            PRIMARY KEY (queue_id, message_id),'' @ nl @
     ''            FOREIGN KEY (queue_id) REFERENCES mailboxes(queue_id) ON DELETE CASCADE'' @ nl @
     ''        ) STRICT;'' @ nl @ nl @
     ''        CREATE TABLE request_nonces ('' @ nl @
     ''            queue_id BLOB NOT NULL,'' @ nl @
     ''            role TEXT NOT NULL,'' @ nl @
     ''            nonce BLOB NOT NULL CHECK(length(nonce) = 16),'' @ nl @
     ''            delete_after INTEGER NOT NULL,'' @ nl @
     ''            PRIMARY KEY (queue_id, role, nonce),'' @ nl @
     ''            FOREIGN KEY (queue_id) REFERENCES mailboxes(queue_id) ON DELETE CASCADE'' @ nl @
     ''        ) STRICT;'' @ nl @ nl @
     ''        CREATE TABLE registration_nonces ('' @ nl @
     ''            queue_id BLOB NOT NULL CHECK(length(queue_id) = 32),'' @ nl @
     ''            nonce BLOB NOT NULL CHECK(length(nonce) = 16),'' @ nl @
     ''            delete_after INTEGER NOT NULL,'' @ nl @
     ''            PRIMARY KEY (queue_id, nonce)'' @ nl @
     ''        ) STRICT;'' @ nl @ nl @
     ''        CREATE TABLE retired_queues ('' @ nl @
     ''            queue_hash BLOB PRIMARY KEY NOT NULL CHECK(length(queue_hash) = 32),'' @ nl @
     ''            retired_at INTEGER NOT NULL'' @ nl @
     ''        ) STRICT;'' @ nl @
     ''        ''"

definition CURRENT_SCHEMA_DDL :: string where
  "CURRENT_SCHEMA_DDL = nl @ MAILBOXES_DDL @ nl @ MESSAGES_DDL @ nl @ OTHER_TABLES_DDL"

definition CURRENT_MESSAGES_DDL :: string where
  "CURRENT_MESSAGES_DDL = nl @ MESSAGES_DDL @ ''        ''"

definition LEGACY_SCHEMA_DDL :: string where
  "LEGACY_SCHEMA_DDL = nl @ MAILBOXES_DDL @ nl @ LEGACY_MESSAGES_DDL @ nl @ OTHER_TABLES_DDL"

definition CURRENT_SCHEMA_VERSION :: int where "CURRENT_SCHEMA_VERSION = 2"

section \<open>Reading a schema\<close>

text \<open>Each query is one call; its answer depends on the schema \<open>sch\<close> of the connection asked.\<close>

primrec read_indexes ::
    "sqlite \<Rightarrow> schema_object list \<Rightarrow> index_list_row list \<Rightarrow> (('db, 'z) conn_scheme, index_shape list) prog"
where
  "read_indexes G sch [] = ret []"
| "read_indexes G sch (row # rows) =
     attempt (query (\<lambda>_. pragma_index_xinfo G sch (fst (snd row)))) (\<lambda>columns.
     attempt (read_indexes G sch rows) (\<lambda>indexes.
     ret (\<lparr>ix_list = row, ix_columns = columns\<rparr> # indexes)))"

definition read_table_shape ::
    "sqlite \<Rightarrow> schema_object list \<Rightarrow> string \<Rightarrow> (('db, 'z) conn_scheme, table_shape) prog" where
  "read_table_shape G sch table =
     attempt (query (\<lambda>_. pragma_table_list G sch table)) (\<lambda>row.
     attempt (pure_result (ok_or row Storage)) (\<lambda>table_list.
     attempt (query (\<lambda>_. pragma_table_xinfo G sch table)) (\<lambda>columns.
     attempt (query (\<lambda>_. pragma_index_list G sch table)) (\<lambda>index_rows.
     attempt (read_indexes G sch index_rows) (\<lambda>indexes.
     attempt (query (\<lambda>_. pragma_foreign_key_list G sch table)) (\<lambda>foreign_keys.
     ret \<lparr>tb_table_list = table_list, tb_columns = columns, tb_indexes = indexes,
          tb_foreign_keys = foreign_keys\<rparr>))))))"

primrec read_tables ::
    "sqlite \<Rightarrow> schema_object list \<Rightarrow> (string \<times> table_shape) list \<Rightarrow> string list \<Rightarrow>
     (('db, 'z) conn_scheme, (string \<times> table_shape) list) prog" where
  "read_tables G sch tables [] = ret tables"
| "read_tables G sch tables (table # names) =
     attempt (read_table_shape G sch table) (\<lambda>shape.
     read_tables G sch (btree_insert table shape tables) names)"

definition read_manifest ::
    "sqlite \<Rightarrow> schema_object list \<Rightarrow> (('db, 'z) conn_scheme, schema_manifest) prog" where
  "read_manifest G sch =
     attempt (query (\<lambda>_. sort_key (\<lambda>x. (so_type x, so_name x)) sch)) (\<lambda>rows.
     let objects = sort rows;
         table_names = map so_name (filter (\<lambda>x. so_type x = ''table'') objects)
     in attempt (read_tables G sch [] table_names) (\<lambda>tables.
        ret \<lparr>sm_objects = objects, sm_tables = tables\<rparr>))"

definition connection_manifest :: "sqlite \<Rightarrow> ((relay_file, 'z) conn_scheme, schema_manifest) prog" where
  "connection_manifest G = (\<lambda>s. read_manifest G (rf_schema (working s)) s)"

text \<open>The reference schema is built in a database in memory: opening it, its settings, the
  script, then the manifest of what the script created.\<close>

definition reference_manifest ::
    "sqlite \<Rightarrow> string \<Rightarrow> (('db, 'z) conn_scheme, schema_manifest) prog" where
  "reference_manifest G ddl =
     attempt run_settings (\<lambda>_.
     attempt run_settings (\<lambda>_.
     attempt (query (\<lambda>_. run_ddl G ddl [])) (\<lambda>created.
     attempt (pure_result (ok_or created Storage)) (\<lambda>sch.
     read_manifest G sch))))"

definition classify_schema ::
    "schema_manifest \<Rightarrow> schema_manifest \<Rightarrow> schema_manifest \<Rightarrow> schema_manifest \<Rightarrow> schema_kind" where
  "classify_schema actual empty_manifest legacy current =
     (if actual = empty_manifest then Empty else if actual = legacy then Legacy
      else if actual = current then Current else Unknown)"

section \<open>Validation and migration\<close>

definition validate_database_integrity :: "sqlite \<Rightarrow> ((relay_file, 'z) conn_scheme, unit) prog" where
  "validate_database_integrity G =
     attempt (query (foreign_key_violation G)) (\<lambda>problem.
     if problem then throw Storage
     else attempt (query (integrity_rows G)) (\<lambda>integrity.
     if integrity \<noteq> [''ok''] then throw Storage else ret ()))"

definition validate_current_schema ::
    "sqlite \<Rightarrow> schema_manifest \<Rightarrow> ((relay_file, 'z) conn_scheme, unit) prog" where
  "validate_current_schema G expected =
     attempt (connection_manifest G) (\<lambda>manifest.
     if manifest \<noteq> expected then throw Storage else validate_database_integrity G)"

definition validate_schema_for_open :: "sqlite \<Rightarrow> ((relay_file, 'z) conn_scheme, unit) prog" where
  "validate_schema_for_open G =
     attempt (query rf_user_version) (\<lambda>version.
     if \<not> (0 \<le> version \<and> version \<le> CURRENT_SCHEMA_VERSION) then throw Storage
     else attempt (connection_manifest G) (\<lambda>current.
     attempt (reference_manifest G LEGACY_SCHEMA_DDL) (\<lambda>expected_legacy.
     attempt (reference_manifest G CURRENT_SCHEMA_DDL) (\<lambda>expected_current.
     let kind = classify_schema current default_manifest expected_legacy expected_current in
     if version = CURRENT_SCHEMA_VERSION \<and> kind = Current \<or>
        (version = 0 \<or> version = 1) \<and> (kind = Empty \<or> kind = Legacy)
     then validate_database_integrity G else throw Storage))))"

definition create_schema_file :: "sqlite \<Rightarrow> relay_file \<Rightarrow> (unit \<times> relay_file) result" where
  "create_schema_file G f =
     and_then (ok_or (run_ddl G CURRENT_SCHEMA_DDL (rf_schema f)) Storage) (\<lambda>sch.
     Inr ((), f\<lparr>rf_schema := sch, rf_tables := empty_relay_db\<rparr>))"

definition create_current_schema :: "sqlite \<Rightarrow> ((relay_file, 'z) conn_scheme, unit) prog" where
  "create_current_schema G = execute (create_schema_file G)"

definition set_user_version :: "int \<Rightarrow> relay_file \<Rightarrow> (unit \<times> relay_file) result" where
  "set_user_version version f = Inr ((), f\<lparr>rf_user_version := version\<rparr>)"

definition delete_legacy_messages :: "relay_file \<Rightarrow> (nat \<times> relay_file) result" where
  "delete_legacy_messages f =
     Inr (length (rf_legacy_messages f), f\<lparr>rf_legacy_messages := []\<rparr>)"

definition drop_messages :: "relay_file \<Rightarrow> (unit \<times> relay_file) result" where
  "drop_messages f =
     Inr ((), f\<lparr>rf_schema := filter (\<lambda>x. so_tbl_name x \<noteq> ''messages'') (rf_schema f),
       rf_legacy_messages := []\<rparr>)"

definition create_messages :: "sqlite \<Rightarrow> relay_file \<Rightarrow> (unit \<times> relay_file) result" where
  "create_messages G f =
     and_then (ok_or (run_ddl G CURRENT_MESSAGES_DDL (rf_schema f)) Storage) (\<lambda>sch.
     Inr ((), f\<lparr>rf_schema := sch, rf_tables := (rf_tables f)\<lparr>messages := []\<rparr>\<rparr>))"

definition migrate_schema :: "sqlite \<Rightarrow> ((relay_file, 'z) conn_scheme, unit) prog" where
  "migrate_schema G =
     attempt (validate_schema_for_open G) (\<lambda>_.
     attempt (query rf_user_version) (\<lambda>version.
     attempt (connection_manifest G) (\<lambda>current.
     attempt (reference_manifest G LEGACY_SCHEMA_DDL) (\<lambda>expected_legacy.
     attempt (reference_manifest G CURRENT_SCHEMA_DDL) (\<lambda>expected_current.
     let kind = classify_schema current default_manifest expected_legacy expected_current in
     if version = CURRENT_SCHEMA_VERSION \<and> kind = Current then ret ()
     else if (version = 0 \<or> version = 1) \<and> kind = Empty
     then attempt (create_current_schema G) (\<lambda>_.
          attempt (execute (set_user_version CURRENT_SCHEMA_VERSION)) (\<lambda>_.
          validate_current_schema G expected_current))
     else if (version = 0 \<or> version = 1) \<and> kind = Legacy
     then attempt (execute delete_legacy_messages) (\<lambda>_.
          attempt (execute drop_messages) (\<lambda>_.
          attempt (execute (create_messages G)) (\<lambda>_.
          attempt (execute (set_user_version CURRENT_SCHEMA_VERSION)) (\<lambda>_.
          validate_current_schema G expected_current))))
     else throw Storage)))))"

section \<open>Opening\<close>

text \<open>\<open>on_tables m\<close> runs the statements of a relay program on the tables of the file.\<close>

definition on_tables :: "(relay, 'a) prog \<Rightarrow> ((relay_file, 'z) conn_scheme, 'a) prog" where
  "on_tables m = (\<lambda>s.
     let (r, t) = m \<lparr>durable = rf_tables (durable s), working = rf_tables (working s),
                     calls = calls s, audit_events = []\<rparr>
     in (r, s\<lparr>working := (working s)\<lparr>rf_tables := working t\<rparr>, calls := calls t\<rparr>))"

text \<open>\<^verbatim>\<open>Self\<close>: the relay over the connection, with an empty audit log.\<close>

definition relay_over :: "(relay_file, 'z) conn_scheme \<Rightarrow> relay" where
  "relay_over s = \<lparr>durable = rf_tables (durable s), working = rf_tables (working s),
     calls = calls s, audit_events = []\<rparr>"

text \<open>The batch of \<^verbatim>\<open>PRAGMA\<close> settings is one call. Of what it sets, only properties of the connection and
  of the file format change (\<^verbatim>\<open>journal_mode\<close>, \<^verbatim>\<open>auto_vacuum\<close>), which are no part of the image.\<close>

definition initialize :: "sqlite \<Rightarrow> u64 \<Rightarrow> ((relay_file, 'z) conn_scheme, unit) prog" where
  "initialize G now =
     attempt run_settings (\<lambda>_.
     attempt (autocommit (validate_schema_for_open G)) (\<lambda>_.
     attempt run_settings (\<lambda>_.
     attempt begin_immediate (\<lambda>_.
     attempt (migrate_schema G) (\<lambda>_.
     attempt (on_tables (purge_expired_in now)) (\<lambda>_.
     attempt commit (\<lambda>_.
     ret ())))))))"

definition has_nonempty_recovery_companion :: "file_system \<Rightarrow> string \<Rightarrow> bool result" where
  "has_nonempty_recovery_companion fs path =
     and_then (ok_or (fs_canonicalize fs path) Storage) (\<lambda>resolved.
     and_then (nonempty_companion fs resolved ''-journal'') (\<lambda>journal.
     if journal then Inr True
     else and_then (nonempty_companion fs resolved ''-wal'') (\<lambda>wal.
     if \<not> wal then Inr False
     else and_then (database_header_uses_wal fs resolved) (\<lambda>uses_wal.
     if uses_wal then Inr True else Inr False))))"

text \<open>\<^verbatim>\<open>Path::to_str\<close> succeeds on valid UTF-8.\<close>

definition continuation :: "byte \<Rightarrow> bool" where
  "continuation b \<longleftrightarrow> 0x80 \<le> b \<and> b \<le> 0xBF"

fun valid_utf8 :: "bytes \<Rightarrow> bool" where
  "valid_utf8 [] \<longleftrightarrow> True"
| "valid_utf8 (a # rest) \<longleftrightarrow>
     (if a < 0x80 then valid_utf8 rest
      else case rest of
        [] \<Rightarrow> False
      | b # rest1 \<Rightarrow>
          if 0xC2 \<le> a \<and> a \<le> 0xDF then continuation b \<and> valid_utf8 rest1
          else (case rest1 of
            [] \<Rightarrow> False
          | c # rest2 \<Rightarrow>
              if a = 0xE0 then 0xA0 \<le> b \<and> b \<le> 0xBF \<and> continuation c \<and> valid_utf8 rest2
              else if a = 0xED then 0x80 \<le> b \<and> b \<le> 0x9F \<and> continuation c \<and> valid_utf8 rest2
              else if 0xE1 \<le> a \<and> a \<le> 0xEF then continuation b \<and> continuation c \<and> valid_utf8 rest2
              else (case rest2 of
                [] \<Rightarrow> False
              | d # rest3 \<Rightarrow>
                  (if a = 0xF0 then 0x90 \<le> b \<and> b \<le> 0xBF
                   else if a = 0xF4 then 0x80 \<le> b \<and> b \<le> 0x8F
                   else 0xF1 \<le> a \<and> a \<le> 0xF3 \<and> continuation b) \<and>
                  continuation c \<and> continuation d \<and> valid_utf8 rest3)))"

definition unreserved :: "byte \<Rightarrow> bool" where
  "unreserved b \<longleftrightarrow> (0x30 \<le> b \<and> b \<le> 0x39) \<or> (0x41 \<le> b \<and> b \<le> 0x5A) \<or> (0x61 \<le> b \<and> b \<le> 0x7A) \<or>
     b \<in> set (ascii ''/.-_:'')"

definition HEX :: bytes where "HEX = ascii ''0123456789ABCDEF''"

definition uri_escape :: "byte \<Rightarrow> bytes" where
  "uri_escape b =
     (if unreserved b then [b]
      else ascii ''%'' @ [HEX ! unat (drop_bit 4 b)] @ [HEX ! unat (and b 0x0F)])"

definition immutable_uri :: "bytes \<Rightarrow> bytes result" where
  "immutable_uri path =
     (if \<not> valid_utf8 path then Inl Storage
      else Inr (ascii ''file:'' @ concat (map uri_escape path) @ ascii ''?mode=ro&immutable=1''))"

definition preflight_existing_database ::
    "sqlite \<Rightarrow> file_system \<Rightarrow> string \<Rightarrow> ((relay_file, 'z) conn_scheme, unit) prog" where
  "preflight_existing_database G fs path =
     (case fs_metadata fs path of
        Inl error \<Rightarrow> if error = NotFound then ret () else throw Storage
      | Inr metadata \<Rightarrow>
          if \<not> fm_is_file metadata then throw Storage
          else if fm_len metadata = 0 then pure_result (reject_anomalous_wal fs path)
          else attempt (pure_result (reject_anomalous_wal fs path)) (\<lambda>_.
          attempt (pure_result (has_nonempty_recovery_companion fs path)) (\<lambda>recovery.
          if recovery then ret ()
          else attempt (pure_result (immutable_uri (ascii path))) (\<lambda>_.
          attempt run_settings (\<lambda>_.
          autocommit (validate_schema_for_open G))))))"

text \<open>The normal connection recovers the file before anything is read through it, and what recovery
  writes stays, whatever becomes of the opening. SQLite replays at the first statement that reads; only
  \<^verbatim>\<open>busy_timeout\<close> comes before it, so that the model replays when it opens.\<close>

definition connection_open ::
    "sqlite \<Rightarrow> file_system \<Rightarrow> string \<Rightarrow> ((relay_file, 'z) conn_scheme, unit) prog" where
  "connection_open G fs path = db_call (\<lambda>s. (Inr (), s\<lparr>durable := recover G fs path (durable s)\<rparr>))"

definition open_at ::
    "sqlite \<Rightarrow> file_system \<Rightarrow> string \<Rightarrow> u64 \<Rightarrow> ((relay_file, 'z) conn_scheme, unit) prog" where
  "open_at G fs path now =
     attempt (preflight_existing_database G fs path) (\<lambda>_.
     attempt (connection_open G fs path) (\<lambda>_.
     initialize G now))"

text \<open>There is something to recover when a non-empty database file has a non-empty companion. The law
  that is relied on: SQLite leaves every other file as it is.\<close>

definition recovery_companion :: "file_system \<Rightarrow> string \<Rightarrow> bool" where
  "recovery_companion fs path \<longleftrightarrow>
     (case fs_metadata fs path of
        Inl _ \<Rightarrow> False
      | Inr m \<Rightarrow> 0 < fm_len m \<and>
          (nonempty_companion fs (resolved_path fs path) ''-journal'' \<noteq> Inr False \<or>
           nonempty_companion fs (resolved_path fs path) ''-wal'' \<noteq> Inr False))"

definition recovery_laws :: "sqlite \<Rightarrow> bool" where
  "recovery_laws G \<longleftrightarrow> (\<forall>fs path f. \<not> recovery_companion fs path \<longrightarrow> recover G fs path f = f)"

text \<open>\<^verbatim>\<open>open\<close> and \<^verbatim>\<open>open_in_memory\<close> read the clock; the latter is given a connection to a new
  database in memory.\<close>

definition open_relay ::
    "sqlite \<Rightarrow> file_system \<Rightarrow> string \<Rightarrow> system_time \<Rightarrow> ((relay_file, 'z) conn_scheme, unit) prog" where
  "open_relay G fs path t = attempt (pure_result (unix_now t)) (open_at G fs path)"

definition open_in_memory :: "sqlite \<Rightarrow> system_time \<Rightarrow> ((relay_file, 'z) conn_scheme, unit) prog" where
  "open_in_memory G t =
     attempt run_settings (\<lambda>_.
     attempt (pure_result (unix_now t)) (\<lambda>now.
     initialize G now))"

end
