(* ===== verification/Relay_Open_Facts.thy ===== *)
theory Relay_Open_Facts
  imports Relay_Open
begin

text \<open>
  How an opening of the relay runs: the manifests and the classification as functions of the
  file, the transactional contract of the whole opening, and what a successful one leaves.
\<close>

section \<open>What is read\<close>

definition shape_of :: "sqlite \<Rightarrow> schema_object list \<Rightarrow> string \<Rightarrow> table_shape option" where
  "shape_of G sch table = map_option (\<lambda>row.
     \<lparr>tb_table_list = row, tb_columns = pragma_table_xinfo G sch table,
      tb_indexes = map (\<lambda>ix. \<lparr>ix_list = ix, ix_columns = pragma_index_xinfo G sch (fst (snd ix))\<rparr>)
        (pragma_index_list G sch table),
      tb_foreign_keys = pragma_foreign_key_list G sch table\<rparr>) (pragma_table_list G sch table)"

primrec tables_of :: "sqlite \<Rightarrow> schema_object list \<Rightarrow> (string \<times> table_shape) list \<Rightarrow> string list \<Rightarrow>
    (string \<times> table_shape) list option" where
  "tables_of G sch tables [] = Some tables"
| "tables_of G sch tables (table # names) = (case shape_of G sch table of
     None \<Rightarrow> None | Some shape \<Rightarrow> tables_of G sch (btree_insert table shape tables) names)"

definition manifest_of :: "sqlite \<Rightarrow> schema_object list \<Rightarrow> schema_manifest option" where
  "manifest_of G sch =
     (let objects = sort (sort_key (\<lambda>x. (so_type x, so_name x)) sch)
      in map_option (\<lambda>tables. \<lparr>sm_objects = objects, sm_tables = tables\<rparr>)
           (tables_of G sch [] (map so_name (filter (\<lambda>x. so_type x = ''table'') objects))))"

definition reference_of :: "sqlite \<Rightarrow> string \<Rightarrow> schema_manifest option" where
  "reference_of G ddl = Option.bind (run_ddl G ddl []) (manifest_of G)"

definition file_kind :: "sqlite \<Rightarrow> relay_file \<Rightarrow> schema_kind" where
  "file_kind G f =
     (case (manifest_of G (rf_schema f), reference_of G LEGACY_SCHEMA_DDL, reference_of G CURRENT_SCHEMA_DDL) of
        (Some m, Some legacy, Some current) \<Rightarrow> classify_schema m default_manifest legacy current
      | _ \<Rightarrow> Unknown)"

definition integrity_ok :: "sqlite \<Rightarrow> relay_file \<Rightarrow> bool" where
  "integrity_ok G f \<longleftrightarrow> \<not> foreign_key_violation G f \<and> integrity_rows G f = [''ok'']"

definition accepted :: "sqlite \<Rightarrow> relay_file \<Rightarrow> bool" where
  "accepted G f \<longleftrightarrow> integrity_ok G f \<and>
     (rf_user_version f = 2 \<and> file_kind G f = Current \<or>
      rf_user_version f \<in> {0, 1} \<and> file_kind G f \<in> {Empty, Legacy})"

lemma read_indexes_eval [sql_simps]:
  "calls s = [] \<Longrightarrow> attempt (read_indexes G sch rows) f s =
     f (map (\<lambda>ix. \<lparr>ix_list = ix, ix_columns = pragma_index_xinfo G sch (fst (snd ix))\<rparr>) rows) s"
  by (induction rows arbitrary: f) (simp_all add: sql_simps)

lemma read_table_shape_eval [sql_simps]:
  "calls s = [] \<Longrightarrow> attempt (read_table_shape G sch table) f s =
     (case shape_of G sch table of None \<Rightarrow> (Inl Storage, s) | Some shape \<Rightarrow> f shape s)"
  by (simp add: read_table_shape_def shape_of_def ok_or_def sql_simps split: option.split)

lemma read_tables_eval [sql_simps]:
  "calls s = [] \<Longrightarrow> attempt (read_tables G sch tables names) f s =
     (case tables_of G sch tables names of None \<Rightarrow> (Inl Storage, s) | Some ts \<Rightarrow> f ts s)"
  by (induction names arbitrary: tables) (simp_all add: sql_simps split: option.split)

lemma read_manifest_eval [sql_simps]:
  "calls s = [] \<Longrightarrow> attempt (read_manifest G sch) f s =
     (case manifest_of G sch of None \<Rightarrow> (Inl Storage, s) | Some m \<Rightarrow> f m s)"
  by (simp add: read_manifest_def manifest_of_def Let_def sql_simps split: option.split)

lemma connection_manifest_eval [sql_simps]:
  "calls s = [] \<Longrightarrow> attempt (connection_manifest G) f s =
     (case manifest_of G (rf_schema (working s)) of None \<Rightarrow> (Inl Storage, s) | Some m \<Rightarrow> f m s)"
  using read_manifest_eval [of s G "rf_schema (working s)" f] by (simp add: connection_manifest_def attempt_def)

lemma reference_manifest_eval [sql_simps]:
  "calls s = [] \<Longrightarrow> attempt (reference_manifest G ddl) f s =
     (case reference_of G ddl of None \<Rightarrow> (Inl Storage, s) | Some m \<Rightarrow> f m s)"
  by (cases "run_ddl G ddl []") (simp_all add: reference_manifest_def reference_of_def ok_or_def sql_simps)

lemma validate_database_integrity_eval [sql_simps]:
  "calls s = [] \<Longrightarrow> validate_database_integrity G s =
     (if integrity_ok G (working s) then (Inr (), s) else (Inl Storage, s))"
  by (simp add: validate_database_integrity_def integrity_ok_def sql_simps)

lemma validate_schema_for_open_run [sql_simps]:
  "calls s = [] \<Longrightarrow> validate_schema_for_open G s =
     (if accepted G (working s) then (Inr (), s) else (Inl Storage, s))"
  by (auto simp: validate_schema_for_open_def accepted_def file_kind_def CURRENT_SCHEMA_VERSION_def
      Let_def sql_simps split: option.split)

lemma validate_schema_for_open_eval [sql_simps]:
  "calls s = [] \<Longrightarrow> attempt (validate_schema_for_open G) f s =
     (if accepted G (working s) then f () s else (Inl Storage, s))"
  by (simp add: attempt_def validate_schema_for_open_run)

lemma autocommit_validate_eval [sql_simps]:
  "calls s = [] \<Longrightarrow> attempt (autocommit (validate_schema_for_open G)) f s =
     (if accepted G (durable s) then f () (s\<lparr>working := durable s\<rparr>)
      else (Inl Storage, s\<lparr>working := durable s\<rparr>))"
  by (simp add: attempt_def autocommit_def validate_schema_for_open_run)

section \<open>What an opening does to the file\<close>

text \<open>The tables a file of each kind starts with.\<close>

definition initial_tables :: "schema_kind \<Rightarrow> relay_db \<Rightarrow> relay_db" where
  "initial_tables kind db = (case kind of
     Current \<Rightarrow> db | Legacy \<Rightarrow> db\<lparr>messages := []\<rparr> | _ \<Rightarrow> empty_relay_db)"

lemma migrate_schema_success:
  assumes "migrate_schema G s = (Inr (), s')" and "calls s = []"
  shows "accepted G (working s) \<and> calls s' = [] \<and> durable s' = durable s \<and>
    conn.more s' = conn.more s \<and>
    rf_user_version (working s') = 2 \<and> integrity_ok G (working s') \<and>
    manifest_of G (rf_schema (working s')) = reference_of G CURRENT_SCHEMA_DDL \<and>
    reference_of G CURRENT_SCHEMA_DDL \<noteq> None \<and>
    rf_tables (working s') = initial_tables (file_kind G (working s)) (rf_tables (working s)) \<and>
    (file_kind G (working s) = Current \<longrightarrow> working s' = working s)"
  using assms
  by (auto simp: migrate_schema_def sql_simps accepted_def file_kind_def CURRENT_SCHEMA_VERSION_def
      Let_def create_current_schema_def create_schema_file_def set_user_version_def
      delete_legacy_messages_def drop_messages_def create_messages_def ok_or_def
      validate_current_schema_def initial_tables_def classify_schema_def
      split: option.splits if_splits)

section \<open>The transactional contract\<close>

lemma quiet_read_indexes [sql_intros]: "quiet (read_indexes G sch rows)"
  by (induction rows) (simp_all add: sql_intros)

lemma tolerant_read_indexes: "tolerant (read_indexes G sch rows)"
  by (induction rows) (simp_all add: tolerant_rules)

lemma quiet_read_table_shape [sql_intros]: "quiet (read_table_shape G sch table)"
  unfolding read_table_shape_def by (intro sql_intros)

lemma tolerant_read_table_shape: "tolerant (read_table_shape G sch table)"
  unfolding read_table_shape_def by (intro tolerant_rules tolerant_read_indexes)

lemma quiet_read_tables [sql_intros]: "quiet (read_tables G sch tables names)"
  by (induction names arbitrary: tables) (simp_all add: sql_intros)

lemma tolerant_read_tables: "tolerant (read_tables G sch tables names)"
  by (induction names arbitrary: tables)
    (simp_all add: tolerant_rules tolerant_read_table_shape)

lemma quiet_read_manifest [sql_intros]: "quiet (read_manifest G sch)"
  unfolding read_manifest_def Let_def by (intro sql_intros)

lemma tolerant_read_manifest: "tolerant (read_manifest G sch)"
  unfolding read_manifest_def Let_def by (intro tolerant_rules tolerant_read_tables)

lemma quiet_connection_manifest [sql_intros]: "quiet (connection_manifest G)"
  using quiet_read_manifest unfolding quiet_def connection_manifest_def by blast

lemma tolerant_connection_manifest: "tolerant (connection_manifest G)"
  unfolding tolerant_def connection_manifest_def
proof
  fix s :: "(relay_file, 'a) conn_scheme"
  show "fst (read_manifest G (rf_schema (working s)) s) = Inl Storage \<or>
      read_manifest G (rf_schema (working (s\<lparr>calls := []\<rparr>))) (s\<lparr>calls := []\<rparr>) =
      (fst (read_manifest G (rf_schema (working s)) s),
       (snd (read_manifest G (rf_schema (working s)) s))\<lparr>calls := []\<rparr>)"
    using spec [OF tolerant_read_manifest [unfolded tolerant_def], of G "rf_schema (working s)" s]
    by simp
qed

lemma quiet_reference_manifest [sql_intros]: "quiet (reference_manifest G ddl)"
  unfolding reference_manifest_def by (intro sql_intros)

lemma tolerant_reference_manifest: "tolerant (reference_manifest G ddl)"
  unfolding reference_manifest_def by (intro tolerant_rules tolerant_read_manifest)

lemma quiet_validations [sql_intros]:
  "quiet (validate_database_integrity G)" "quiet (validate_current_schema G m)"
  "quiet (validate_schema_for_open G)" "quiet (migrate_schema G)"
  unfolding validate_database_integrity_def validate_current_schema_def validate_schema_for_open_def
    migrate_schema_def create_current_schema_def Let_def
  by (intro sql_intros)+

lemmas tolerant_reads =
  tolerant_read_manifest tolerant_connection_manifest tolerant_reference_manifest

lemma tolerant_validations:
  "tolerant (validate_database_integrity G)" "tolerant (validate_current_schema G m)"
  "tolerant (validate_schema_for_open G)" "tolerant (migrate_schema G)"
  unfolding validate_database_integrity_def validate_current_schema_def validate_schema_for_open_def
    migrate_schema_def create_current_schema_def Let_def
  by (intro tolerant_rules tolerant_reads)+

lemma quiet_on_tables [sql_intros]: "quiet m \<Longrightarrow> quiet (on_tables m)"
  by (auto simp: quiet_def on_tables_def same_store_def Let_def split: prod.split)
    (metis (no_types, lifting) conn.select_convs(3) snd_conv subsetD)

lemma quiet_purge [sql_intros]: "quiet (purge_expired_in now)"
  unfolding purge_expired_in_def by (intro sql_intros)

lemma tolerant_on_tables:
  fixes m :: "(relay, 'a) prog"
  assumes "tolerant m"
  shows "tolerant (on_tables m :: ((relay_file, 'z) conn_scheme, 'a) prog)"
  unfolding tolerant_def
proof
  fix s :: "(relay_file, 'z) conn_scheme"
  let ?r = "\<lparr>durable = rf_tables (durable s), working = rf_tables (working s), calls = calls s,
    audit_events = []\<rparr>"
  have "fst (m ?r) = Inl Storage \<or> m (?r\<lparr>calls := []\<rparr>) = (fst (m ?r), (snd (m ?r))\<lparr>calls := []\<rparr>)"
    using assms unfolding tolerant_def by blast
  then show "fst (on_tables m s) = Inl Storage \<or>
      on_tables m (s\<lparr>calls := []\<rparr>) = (fst (on_tables m s), (snd (on_tables m s))\<lparr>calls := []\<rparr>)"
    by (auto simp: on_tables_def Let_def split: prod.split)
qed

lemma tolerant_purge: "tolerant (purge_expired_in now)"
  unfolding purge_expired_in_def by (intro tolerant_rules)

lemma preflight_quiet [sql_intros]: "quiet (preflight_existing_database G fs path)"
  unfolding preflight_existing_database_def
  by (cases "fs_metadata fs path") (simp_all add: sql_intros)

lemma preflight_tolerant: "tolerant (preflight_existing_database G fs path)"
  unfolding preflight_existing_database_def
  by (cases "fs_metadata fs path") (simp_all add: tolerant_rules tolerant_validations)

lemma initialize_atomic: "atomic (initialize G now)"
  unfolding initialize_def by (intro atomic_rules sql_intros)

lemma initialize_tolerant: "tolerant (initialize G now)"
  unfolding initialize_def
  by (intro tolerant_rules tolerant_validations tolerant_on_tables tolerant_purge)

lemma initialize_settled: "settled (initialize G now)"
  unfolding initialize_def
  by (intro settled_rules sql_intros tolerant_validations tolerant_on_tables tolerant_purge)

interpretation initialize_tx: transactional "initialize G now" for G now
  by unfold_locales (rule initialize_atomic initialize_tolerant initialize_settled)+

lemma connection_open_tolerant: "tolerant (connection_open G fs path)"
  by (auto simp: tolerant_def connection_open_def db_call_def split: list.split call_outcome.split)

interpretation relay_open: fault_tolerant "open_at G fs path now" for G fs path now
  unfolding open_at_def
  by unfold_locales (intro tolerant_rules preflight_tolerant connection_open_tolerant initialize_tolerant)

lemma connection_open_run [sql_simps]:
  "calls s = [] \<Longrightarrow> attempt (connection_open G fs path) f s =
     f () (s\<lparr>durable := recover G fs path (durable s)\<rparr>)"
  by (simp add: connection_open_def attempt_def db_call_def)

text \<open>A refused opening has written at most what recovery writes, unless the answer to its commit was
  lost.\<close>

lemma initialize_refused:
  assumes "initialize G now s = (Inl e, s')"
  shows "durable s' = durable s \<or> e = Storage \<and> \<not> certain s \<and>
    (\<exists>s1. initialize G now (s\<lparr>calls := []\<rparr>) = (Inr (), s1) \<and> durable s' = durable s1)"
  using initialize_tx.error_keeps_store [OF assms] initialize_tx.error_old_or_done [OF assms] by auto

lemma connection_open_cases:
  obtains (refused) s1 where "connection_open G fs path s = (Inl Storage, s1)"
      "durable s1 = durable s \<or> durable s1 = recover G fs path (durable s)"
    | (opened) s1 where "connection_open G fs path s = (Inr (), s1)"
      "durable s1 = recover G fs path (durable s)" "set (calls s1) \<subseteq> set (calls s)"
  by (cases "calls s"; cases "hd (calls s)") (auto simp: connection_open_def db_call_def)

lemma open_at_refused:
  assumes "open_at G fs path now s = (Inl e, s')"
  shows "durable s' = durable s \<or> durable s' = recover G fs path (durable s) \<or>
    e = Storage \<and> \<not> certain s \<and>
    (\<exists>s1. open_at G fs path now (s\<lparr>calls := []\<rparr>) = (Inr (), s1) \<and> durable s' = durable s1)"
proof -
  let ?pre = "preflight_existing_database G fs path"
  have kept: "durable (snd (?pre s)) = durable s" "set (calls (snd (?pre s))) \<subseteq> set (calls s)"
    using preflight_quiet [of G fs path] by (auto simp: quiet_def same_store_def)
  show ?thesis
  proof (cases "fst (?pre s)")
    case (Inl e')
    then show ?thesis
      using assms kept(1) by (simp add: open_at_def attempt_Inl)
  next
    case (Inr x)
    let ?s1 = "snd (?pre s)"
    have rest: "attempt (connection_open G fs path) (\<lambda>_. initialize G now) ?s1 = (Inl e, s')"
      using assms Inr by (simp add: open_at_def attempt_Inr)
    have pre0: "?pre (s\<lparr>calls := []\<rparr>) = (Inr x, ?s1\<lparr>calls := []\<rparr>)"
      using preflight_tolerant [of G fs path] Inr unfolding tolerant_def by (metis Inl_Inr_False)
    show ?thesis
    proof (cases rule: connection_open_cases [of G fs path ?s1])
      case (refused s2)
      then show ?thesis
        using rest kept(1) by (auto simp: attempt_def)
    next
      case (opened s2)
      then have init: "initialize G now s2 = (Inl e, s')"
        using rest by (simp add: attempt_def)
      have "connection_open G fs path (?s1\<lparr>calls := []\<rparr>) = (Inr (), s2\<lparr>calls := []\<rparr>)"
        using connection_open_tolerant [of G fs path] opened(1) unfolding tolerant_def
        by (metis Inl_Inr_False fst_conv snd_conv)
      then have whole: "open_at G fs path now (s\<lparr>calls := []\<rparr>) = initialize G now (s2\<lparr>calls := []\<rparr>)"
        using pre0 by (simp add: open_at_def attempt_def)
      have "certain s2" if "certain s"
        using that opened(3) kept(2) by (auto simp: certain_def)
      then show ?thesis
        using initialize_refused [OF init] opened(2) kept(1) whole by auto
    qed
  qed
qed

section \<open>A successful opening\<close>

lemma purge_run:
  "calls s = [] \<Longrightarrow> purge_expired_in now s =
     (case to_i64 now of
        Inl e \<Rightarrow> (Inl e, s)
      | Inr t \<Rightarrow> (Inr (length (filter (\<lambda>r. ms_expires_at r \<le> t) (messages (working s)))),
          s\<lparr>working := purge_db t (working s)\<rparr>))"
  using attempt_purge [of s now ret]
  by (cases "purge_expired_in now s"; cases "fst (purge_expired_in now s)"; cases "to_i64 now")
    (auto simp: attempt_def ret_def)

lemma on_tables_purge_eval [sql_simps]:
  "calls s = [] \<Longrightarrow> attempt (on_tables (purge_expired_in now)) f s =
     (case to_i64 now of
        Inl e \<Rightarrow> (Inl e, s)
      | Inr t \<Rightarrow> f (length (filter (\<lambda>r. ms_expires_at r \<le> t) (messages (rf_tables (working s)))))
          (s\<lparr>working := (working s)\<lparr>rf_tables := purge_db t (rf_tables (working s))\<rparr>\<rparr>))"
  by (cases s) (simp add: attempt_def on_tables_def purge_run split: sum.split)

lemma attempt_Inr_iff:
  "attempt m f s = (Inr y, s') \<longleftrightarrow> (\<exists>x s1. m s = (Inr x, s1) \<and> f x s1 = (Inr y, s'))"
  by (cases "m s"; cases "fst (m s)") (auto simp: attempt_def)

lemma pure_result_apply: "pure_result r s = (r, s)"
  by (simp add: pure_result_def)

lemma preflight_run:
  assumes "preflight_existing_database G fs path s = (Inr (), s1)" and "calls s = []"
  shows "calls s1 = [] \<and> durable s1 = durable s \<and> conn.more s1 = conn.more s"
  using assms
  by (auto simp: preflight_existing_database_def sql_simps autocommit_def pure_result_apply
      split: sum.splits if_splits)

lemma open_at_success:
  assumes "open_at G fs path now s = (Inr (), s')"
  shows "accepted G (recover G fs path (durable s)) \<and> rf_user_version (durable s') = 2 \<and>
    manifest_of G (rf_schema (durable s')) = reference_of G CURRENT_SCHEMA_DDL \<and>
    rf_tables (durable s') = purge_db (uint now)
      (initial_tables (file_kind G (recover G fs path (durable s))) (rf_tables (recover G fs path (durable s))))"
proof -
  let ?f = "recover G fs path (durable s)"
  have "open_at G fs path now (s\<lparr>calls := []\<rparr>) = (Inr (), s'\<lparr>calls := []\<rparr>)"
    using assms by (rule relay_open.success_without_faults)
  then obtain s0 where "preflight_existing_database G fs path (s\<lparr>calls := []\<rparr>) = (Inr (), s0)"
    and i: "attempt (connection_open G fs path) (\<lambda>_. initialize G now) s0 = (Inr (), s'\<lparr>calls := []\<rparr>)"
    by (auto simp: open_at_def attempt_Inr_iff [of "preflight_existing_database G fs path"])
  from this(1) have s0: "calls s0 = []" "durable s0 = durable s"
    using preflight_run by fastforce+
  let ?s1 = "s0\<lparr>durable := ?f\<rparr>"
  have s1: "calls ?s1 = []" "durable ?s1 = ?f" and "initialize G now ?s1 = (Inr (), s'\<lparr>calls := []\<rparr>)"
    using i s0 by (simp_all add: sql_simps)
  then obtain s2 where a: "accepted G ?f"
    and m: "migrate_schema G (?s1\<lparr>working := ?f\<rparr>) = (Inr (), s2)"
    and c: "attempt (on_tables (purge_expired_in now)) (\<lambda>_. attempt commit (\<lambda>_. ret ())) s2 =
      (Inr (), s'\<lparr>calls := []\<rparr>)"
    by (auto simp: initialize_def sql_simps attempt_Inr_iff [of "migrate_schema G"] split: if_splits)
  have m': "calls s2 = []" "rf_user_version (working s2) = 2"
      "manifest_of G (rf_schema (working s2)) = reference_of G CURRENT_SCHEMA_DDL"
      "rf_tables (working s2) = initial_tables (file_kind G ?f) (rf_tables ?f)"
    using migrate_schema_success [OF m] s1 by simp_all
  let ?w = "(working s2)\<lparr>rf_tables := purge_db (uint now) (rf_tables (working s2))\<rparr>"
  have eq: "s'\<lparr>calls := []\<rparr> = s2\<lparr>working := ?w, durable := ?w\<rparr>"
    using c m'(1) by (auto simp: sql_simps to_i64_def i64_try_from_def ok_or_def split: if_splits)
  have "durable (s'\<lparr>calls := []\<rparr>) = ?w"
    unfolding eq by simp
  then have "durable s' = ?w"
    by simp
  then show ?thesis
    using a m' by simp
qed

lemma guard_refuses_open:
  assumes "reject_anomalous_wal fs path = Inl e" and "fs_metadata fs path = Inr m" and "fm_is_file m"
  shows "open_at G fs path now s = (Inl Storage, s)"
proof -
  have "e = Storage"
    using assms(1) by (rule reject_anomalous_wal_Inl)
  then show ?thesis
    using assms by (simp add: open_at_def preflight_existing_database_def attempt_def pure_result_def)
qed

lemma relay_inv_initial:
  "relay_inv C db \<Longrightarrow> relay_inv C (initial_tables kind db)"
  by (cases kind) (auto simp: initial_tables_def relay_inv_empty, auto simp: relay_inv_defs unique_key_def)

end
