(* ===== verification/Relay_Open_Properties.thy ===== *)
theory Relay_Open_Properties
  imports Relay_Open_Facts
begin

text \<open>
  What opening a relay database promises: exactly the accepted schemas are opened, each with
  the contents the migration and the sweep leave, and a refused file keeps its image unless a
  journal beside it is replayed.
\<close>

section \<open>A concrete SQLite\<close>

definition other_object :: schema_object where
  "other_object = SchemaObject ''table'' ''mailboxes'' ''mailboxes'' None"

definition messages_object :: "string \<Rightarrow> schema_object" where
  "messages_object sql = SchemaObject ''table'' ''messages'' ''messages'' (Some sql)"

definition example_sqlite :: sqlite where
  "example_sqlite = \<lparr>
     pragma_table_list = (\<lambda>sch table. Some (''main'', table, ''table'', 1, 0, 1)),
     pragma_table_xinfo = (\<lambda>sch table. []), pragma_index_list = (\<lambda>sch table. []),
     pragma_index_xinfo = (\<lambda>sch ix. []), pragma_foreign_key_list = (\<lambda>sch table. []),
     run_ddl = (\<lambda>ddl sch.
       if ddl = CURRENT_SCHEMA_DDL then Some (sch @ [other_object, messages_object ''current''])
       else if ddl = LEGACY_SCHEMA_DDL then Some (sch @ [other_object, messages_object ''legacy''])
       else if ddl = CURRENT_MESSAGES_DDL then Some (sch @ [messages_object ''current''])
       else None),
     foreign_key_violation = (\<lambda>f. False), integrity_rows = (\<lambda>f. [''ok'']),
     recover = (\<lambda>fs path f. if recovery_companion fs path then f\<lparr>rf_user_version := 9\<rparr> else f)\<rparr>"

definition no_files :: file_system where
  "no_files = \<lparr>fs_canonicalize = (\<lambda>_. None), fs_metadata = (\<lambda>_. Inl NotFound), fs_open = (\<lambda>_. Inl NotFound)\<rparr>"

definition planted_wal :: file_system where
  "planted_wal = \<lparr>fs_canonicalize = Some,
     fs_metadata = (\<lambda>_. Inr \<lparr>fm_is_file = True, fm_len = 4096\<rparr>),
     fs_open = (\<lambda>_. Inr \<lparr>file_content = SQLITE_MAGIC @ [16, 0, 1, 1], file_unreadable = False\<rparr>)\<rparr>"

definition hot_journal :: file_system where
  "hot_journal = \<lparr>fs_canonicalize = Some,
     fs_metadata = (\<lambda>p. if p = ''relay.sqlite'' \<or> p = ''relay.sqlite-journal''
       then Inr \<lparr>fm_is_file = True, fm_len = 4096\<rparr> else Inl NotFound),
     fs_open = (\<lambda>_. Inr \<lparr>file_content = SQLITE_MAGIC @ [16, 0, 1, 1], file_unreadable = False\<rparr>)\<rparr>"

definition example_legacy_file :: relay_file where
  "example_legacy_file = \<lparr>rf_user_version = 1,
     rf_schema = [other_object, messages_object ''legacy''],
     rf_tables = empty_relay_db\<lparr>mailboxes := [\<lparr>mb_queue_id = replicate 32 1,
       mb_send_key = replicate 32 2, mb_receive_key = replicate 32 3,
       mb_manage_key = replicate 32 4, mb_created_at = 5\<rparr>]\<rparr>,
     rf_legacy_messages = [\<lparr>lm_queue_id = replicate 32 1, lm_message_id = replicate 16 6,
       lm_ciphertext = [7], lm_expires_at = 100\<rparr>]\<rparr>"

definition example_legacy :: "relay_file conn" where
  "example_legacy =
     \<lparr>durable = example_legacy_file, working = example_legacy_file, calls = []\<rparr>"

lemma ddl_distinct:
  "LEGACY_SCHEMA_DDL \<noteq> CURRENT_SCHEMA_DDL" "CURRENT_MESSAGES_DDL \<noteq> CURRENT_SCHEMA_DDL"
  "CURRENT_MESSAGES_DDL \<noteq> LEGACY_SCHEMA_DDL"
proof -
  have "length LEGACY_MESSAGES_DDL \<noteq> length MESSAGES_DDL"
    by (simp add: LEGACY_MESSAGES_DDL_def MESSAGES_DDL_def nl_def)
  then have "length LEGACY_SCHEMA_DDL \<noteq> length CURRENT_SCHEMA_DDL"
    by (simp add: LEGACY_SCHEMA_DDL_def CURRENT_SCHEMA_DDL_def)
  then show "LEGACY_SCHEMA_DDL \<noteq> CURRENT_SCHEMA_DDL"
    by metis
  have "length OTHER_TABLES_DDL > 8" and "length LEGACY_MESSAGES_DDL + length MAILBOXES_DDL > length MESSAGES_DDL"
    by (simp_all add: OTHER_TABLES_DDL_def LEGACY_MESSAGES_DDL_def MESSAGES_DDL_def MAILBOXES_DDL_def nl_def)
  then have "length CURRENT_MESSAGES_DDL < length CURRENT_SCHEMA_DDL"
      "length CURRENT_MESSAGES_DDL < length LEGACY_SCHEMA_DDL"
    by (simp_all add: CURRENT_MESSAGES_DDL_def CURRENT_SCHEMA_DDL_def LEGACY_SCHEMA_DDL_def)
  then show "CURRENT_MESSAGES_DDL \<noteq> CURRENT_SCHEMA_DDL" "CURRENT_MESSAGES_DDL \<noteq> LEGACY_SCHEMA_DDL"
    by auto
qed

definition example_shape :: "string \<Rightarrow> table_shape" where
  "example_shape table = \<lparr>tb_table_list = (''main'', table, ''table'', 1, 0, 1), tb_columns = [],
     tb_indexes = [], tb_foreign_keys = []\<rparr>"

lemma example_manifest:
  "manifest_of example_sqlite [other_object, messages_object sql] =
     Some \<lparr>sm_objects = [other_object, messages_object sql],
       sm_tables = [(''mailboxes'', example_shape ''mailboxes''), (''messages'', example_shape ''messages'')]\<rparr>"
  by (simp add: manifest_of_def shape_of_def example_sqlite_def other_object_def messages_object_def
      example_shape_def less_eq_schema_object_def so_key_def Let_def)

lemma example_references:
  "reference_of example_sqlite CURRENT_SCHEMA_DDL =
     manifest_of example_sqlite [other_object, messages_object ''current'']"
  "reference_of example_sqlite LEGACY_SCHEMA_DDL =
     manifest_of example_sqlite [other_object, messages_object ''legacy'']"
  using ddl_distinct by (simp_all add: reference_of_def example_sqlite_def)

lemma example_runs:
  "run_ddl example_sqlite CURRENT_MESSAGES_DDL sch = Some (sch @ [messages_object ''current''])"
  "integrity_ok example_sqlite f"
  using ddl_distinct by (simp_all add: example_sqlite_def integrity_ok_def)

lemma example_objects:
  "so_tbl_name other_object = ''mailboxes''" "so_tbl_name (messages_object sql) = ''messages''"
  "messages_object sql = messages_object sql' \<longleftrightarrow> sql = sql'"
  by (simp_all add: other_object_def messages_object_def)

lemmas example_open_eval =
  example_manifest example_references example_runs example_objects example_legacy_file_def
  classify_schema_def default_manifest_def CURRENT_SCHEMA_VERSION_def

lemma example_legacy_kind: "file_kind example_sqlite example_legacy_file = Legacy"
  by (simp add: file_kind_def example_open_eval)

lemma example_accepted: "accepted example_sqlite example_legacy_file"
  by (simp add: accepted_def example_legacy_kind example_runs) (simp add: example_legacy_file_def)

lemma example_migrates:
  "migrate_schema example_sqlite example_legacy =
     (Inr (), example_legacy\<lparr>working := example_legacy_file\<lparr>rf_user_version := 2,
        rf_schema := [other_object, messages_object ''current''], rf_legacy_messages := []\<rparr>\<rparr>)"
  by (simp add: migrate_schema_def sql_simps example_accepted example_legacy_def)
    (simp add: sql_simps example_open_eval delete_legacy_messages_def drop_messages_def
      create_messages_def set_user_version_def validate_current_schema_def empty_relay_db_def Let_def)

lemma example_recovery:
  "recovery_laws example_sqlite" "recover example_sqlite no_files path f = f"
  by (simp_all add: recovery_laws_def recovery_companion_def example_sqlite_def no_files_def)

lemma example_legacy_opens:
  "\<exists>s'. open_at example_sqlite no_files ''relay.sqlite'' 10 example_legacy = (Inr (), s')"
  using example_migrates [unfolded example_legacy_def]
  by (simp add: open_at_def preflight_existing_database_def no_files_def initialize_def sql_simps
      example_accepted example_legacy_def attempt_def [of "migrate_schema example_sqlite"]
      example_recovery(2) [unfolded no_files_def]
      to_i64_def i64_try_from_def)

text \<open>Beside a journal the preflight does not run, and the opening is refused only after the replay.\<close>

lemma hot_journal_companion: "recovery_companion hot_journal ''relay.sqlite''"
  by (simp add: recovery_companion_def hot_journal_def nonempty_companion_def resolved_path_def)

lemma example_recovered_refused:
  "fst (open_at example_sqlite hot_journal ''relay.sqlite'' 10 example_legacy) = Inl Storage \<and>
   durable (snd (open_at example_sqlite hot_journal ''relay.sqlite'' 10 example_legacy)) =
     recover example_sqlite hot_journal ''relay.sqlite'' example_legacy_file"
proof -
  have r: "recover example_sqlite hot_journal ''relay.sqlite'' f = f\<lparr>rf_user_version := 9\<rparr>" for f
    using hot_journal_companion by (simp add: example_sqlite_def)
  have pre: "preflight_existing_database example_sqlite hot_journal ''relay.sqlite'' s = (Inr (), s)" for s
    by (simp add: preflight_existing_database_def hot_journal_def reject_anomalous_wal_def
        has_nonempty_recovery_companion_def nonempty_companion_def and_then_def ok_or_def Let_def
        attempt_def pure_result_def ret_def)
  have "\<not> accepted example_sqlite (example_legacy_file\<lparr>rf_user_version := 9\<rparr>)"
    by (simp add: accepted_def)
  then show ?thesis
    by (simp add: open_at_def attempt_def [of "preflight_existing_database _ _ _"] pre sql_simps
        initialize_def example_legacy_def r)
qed

section \<open>Addresses\<close>

text \<open>Percent-decoding of the path inside the address recovers it, so the immutable connection
  of the preflight opens the same path as the normal one.\<close>

fun hex_value :: "byte \<Rightarrow> nat" where
  "hex_value b = (if b \<le> 0x39 then unat b - 0x30 else unat b - 0x37)"

fun uri_decode :: "bytes \<Rightarrow> bytes" where
  "uri_decode [] = []"
| "uri_decode (a # rest) =
     (if a = 0x25 then (case rest of
        b # c # rest' \<Rightarrow> word_of_nat (16 * hex_value b + hex_value c) # uri_decode rest'
      | _ \<Rightarrow> [])
      else a # uri_decode rest)"

lemma hex_value_HEX:
  assumes "n < 16"
  shows "hex_value (HEX ! n) = n"
proof -
  have "list_all (\<lambda>k. hex_value (HEX ! k) = k) [0..<16]"
    by (simp add: HEX_def ascii_def upt_rec)
  then show ?thesis
    using assms by (simp add: list_all_iff)
qed

lemma nibbles: "unat (drop_bit 4 b) < 16" "unat (and b 0x0F) < 16"
    "16 * unat (drop_bit 4 b) + unat (and b 0x0F) = unat (b :: byte)"
proof -
  have hi: "unat (drop_bit 4 b) = unat b div 16"
    by (simp add: drop_bit_eq_div unat_div_distrib)
  have "(0x0F :: byte) = mask 4"
    by (simp add: mask_eq_exp_minus_1)
  then have "and b 0x0F = take_bit 4 b"
    by (simp only: take_bit_eq_mask)
  then have lo: "unat (and b 0x0F) = unat b mod 16"
    by (simp add: take_bit_eq_mod unat_mod_distrib)
  have "unat b < 256"
    using unsigned_less [of b, where ?'a = nat] by simp
  then show "unat (drop_bit 4 b) < 16" "unat (and b 0x0F) < 16"
      "16 * unat (drop_bit 4 b) + unat (and b 0x0F) = unat b"
    unfolding hi lo by simp_all
qed

lemma uri_decode_escape: "uri_decode (uri_escape b @ rest) = b # uri_decode rest"
proof (cases "unreserved b")
  case True
  then have "b \<noteq> 0x25"
    by (auto simp: unreserved_def ascii_def)
  with True show ?thesis
    by (simp add: uri_escape_def)
next
  case False
  have "word_of_nat (16 * hex_value (HEX ! unat (drop_bit 4 b)) + hex_value (HEX ! unat (and b 0x0F))) = b"
    unfolding hex_value_HEX [OF nibbles(1)] hex_value_HEX [OF nibbles(2)] nibbles(3) by simp
  with False show ?thesis
    by (simp add: uri_escape_def ascii_def del: hex_value.simps)
qed

lemma uri_decode_path: "uri_decode (concat (map uri_escape path)) = path"
  by (induction path) (simp_all add: uri_decode_escape)

lemma HEX_plain: "n < 16 \<Longrightarrow> HEX ! n \<noteq> 0x3F \<and> HEX ! n \<noteq> 0x23"
proof -
  have "list_all (\<lambda>k. HEX ! k \<noteq> 0x3F \<and> HEX ! k \<noteq> 0x23) [0..<16]"
    by (simp add: HEX_def ascii_def upt_rec)
  then show "n < 16 \<Longrightarrow> HEX ! n \<noteq> 0x3F \<and> HEX ! n \<noteq> 0x23"
    by (simp add: list_all_iff)
qed

lemma uri_escape_plain: "x \<in> set (uri_escape b) \<Longrightarrow> x \<noteq> 0x3F \<and> x \<noteq> 0x23"
  using HEX_plain [OF nibbles(1) [of b]] HEX_plain [OF nibbles(2) [of b]]
  by (auto simp: uri_escape_def ascii_def unreserved_def split: if_splits)

section \<open>Properties\<close>

text \<open>C19. A relay opens with exactly the contents it should have, and no unknown database is ever
  opened: when the opening succeeds, the file was at the current version with the current
  schema, or at version 0 or 1 with the empty or the legacy schema; it is left at version 2
  with the manifest of the current DDL; and its tables are those it had (current), those it had
  without the unauthenticated messages (legacy) or none (empty), after the sweep of expired
  rows. So the data invariant holds for the opened relay when it held for the tables. All of this
  is said of the image \<open>f\<close> that recovery makes of the file, which is the file itself when there is
  nothing to recover.\<close>

theorem opened_relay_contents:
  assumes "open_at G fs path now s = (Inr (), s')"
  shows "let f = recover G fs path (durable s) in
    (rf_user_version f = 2 \<and> file_kind G f = Current \<or>
      rf_user_version f \<in> {0, 1} \<and> file_kind G f \<in> {Empty, Legacy}) \<and>
    rf_user_version (durable s') = 2 \<and>
    manifest_of G (rf_schema (durable s')) = reference_of G CURRENT_SCHEMA_DDL \<and>
    durable (relay_over s') = purge_db (uint now) (case file_kind G f of
        Current \<Rightarrow> rf_tables f
      | Legacy \<Rightarrow> (rf_tables f)\<lparr>messages := []\<rparr>
      | _ \<Rightarrow> empty_relay_db) \<and>
    audit_events (relay_over s') = [] \<and>
    (relay_inv C (rf_tables f) \<longrightarrow> relay_inv C (durable (relay_over s'))) \<and>
    (recovery_laws G \<and> \<not> recovery_companion fs path \<longrightarrow> f = durable s)"
  using open_at_success [OF assms] relay_inv_purge [OF relay_inv_initial,
      of C "rf_tables (recover G fs path (durable s))" "uint now" "file_kind G (recover G fs path (durable s))"]
  by (simp add: accepted_def relay_over_def initial_tables_def recovery_laws_def Let_def)

theorem opened_relay_contents_witness:
  "\<exists>s'. open_at example_sqlite no_files ''relay.sqlite'' 10 example_legacy = (Inr (), s') \<and>
     mailboxes (durable (relay_over s')) = mailboxes (rf_tables example_legacy_file) \<and>
     messages (durable (relay_over s')) = [] \<and> rf_user_version (durable s') = 2"
proof -
  obtain s' where s': "open_at example_sqlite no_files ''relay.sqlite'' 10 example_legacy = (Inr (), s')"
    using example_legacy_opens by blast
  from opened_relay_contents [OF this, of example_crypto] s' show ?thesis
    by (simp add: example_legacy_kind example_legacy_def purge_db_def example_recovery Let_def)
qed

text \<open>C39. A refused opening writes nothing but what recovery writes. Whatever the file holds and
  whichever calls fail, an opening that returns an error leaves the committed image as it was or as
  SQLite's recovery makes it, or, only when the answer of a call was lost, as the complete opening
  leaves it. So without a non-empty journal or write-ahead log beside a non-empty file, a refusal
  without lost answers keeps the file. And when a non-empty \<^verbatim>\<open>-wal\<close> lies beside a database file that
  is not in WAL mode, the refusal comes before any call into SQLite, so that nothing is replayed and
  removing the planted file restores the relay.\<close>

theorem refused_open_writes_only_recovery:
  assumes "recovery_laws G"
  shows "(fst (open_at G fs path now s) = Inl e \<longrightarrow>
      durable (snd (open_at G fs path now s)) = durable s \<or>
      recovery_companion fs path \<and>
        durable (snd (open_at G fs path now s)) = recover G fs path (durable s) \<or>
      e = Storage \<and> \<not> certain s \<and> (\<exists>s1. open_at G fs path now (s\<lparr>calls := []\<rparr>) = (Inr (), s1) \<and>
        durable (snd (open_at G fs path now s)) = durable s1)) \<and>
    (fs_metadata fs path = Inr m \<and> fm_is_file m \<and>
     fs_metadata fs (resolved_path fs path @ ''-wal'') = Inr w \<and> 0 < fm_len w \<and>
     fs_open fs (resolved_path fs path) = Inr f \<and> \<not> wal_header (file_content f) \<longrightarrow>
     open_at G fs path now s = (Inl Storage, s))"
proof (intro conjI impI)
  assume "fst (open_at G fs path now s) = Inl e"
  then have "open_at G fs path now s = (Inl e, snd (open_at G fs path now s))"
    by (simp add: prod_eq_iff)
  moreover have "recover G fs path (durable s) = durable s" if "\<not> recovery_companion fs path"
    using assms that by (simp add: recovery_laws_def)
  ultimately show "durable (snd (open_at G fs path now s)) = durable s \<or>
      recovery_companion fs path \<and>
        durable (snd (open_at G fs path now s)) = recover G fs path (durable s) \<or>
      e = Storage \<and> \<not> certain s \<and> (\<exists>s1. open_at G fs path now (s\<lparr>calls := []\<rparr>) = (Inr (), s1) \<and>
        durable (snd (open_at G fs path now s)) = durable s1)"
    using open_at_refused by fastforce
next
  assume a: "fs_metadata fs path = Inr m \<and> fm_is_file m \<and>
     fs_metadata fs (resolved_path fs path @ ''-wal'') = Inr w \<and> 0 < fm_len w \<and>
     fs_open fs (resolved_path fs path) = Inr f \<and> \<not> wal_header (file_content f)"
  then have "\<exists>e. reject_anomalous_wal fs path = Inl e"
    by (auto simp: reject_anomalous_wal_def resolved_path_def [symmetric] nonempty_companion_def
        database_header_uses_wal_def read_exact_def wal_header_def Let_def split: if_splits)
  then show "open_at G fs path now s = (Inl Storage, s)"
    using guard_refuses_open a by blast
qed

theorem refused_open_writes_only_recovery_witness:
  "open_at example_sqlite planted_wal ''relay.sqlite'' 10 example_legacy = (Inl Storage, example_legacy) \<and>
   fst (open_at example_sqlite hot_journal ''relay.sqlite'' 10 example_legacy) = Inl Storage \<and>
   durable (snd (open_at example_sqlite hot_journal ''relay.sqlite'' 10 example_legacy)) =
     recover example_sqlite hot_journal ''relay.sqlite'' example_legacy_file"
  using example_recovered_refused refused_open_writes_only_recovery [OF example_recovery(1), of planted_wal "''relay.sqlite''" 10 example_legacy
      Storage "\<lparr>fm_is_file = True, fm_len = 4096\<rparr>" "\<lparr>fm_is_file = True, fm_len = 4096\<rparr>"
      "\<lparr>file_content = SQLITE_MAGIC @ [16, 0, 1, 1], file_unreadable = False\<rparr>"]
  by (simp add: planted_wal_def wal_header_def SQLITE_MAGIC_def ascii_def)

text \<open>C40. The address of the read-only connection names the path and nothing else: it is \<^verbatim>\<open>file:\<close>, an
  escaped path and the two fixed parameters, the escaped path contains neither \<^verbatim>\<open>?\<close> nor \<^verbatim>\<open>#\<close>, so
  that no file name can change the parameters, and percent-decoding it gives the path back.\<close>

theorem immutable_uri_names_path:
  assumes "immutable_uri path = Inr uri"
  shows "\<exists>p. uri = ascii ''file:'' @ p @ ascii ''?mode=ro&immutable=1'' \<and>
    0x3F \<notin> set p \<and> 0x23 \<notin> set p \<and> uri_decode p = path"
proof -
  have "uri = ascii ''file:'' @ concat (map uri_escape path) @ ascii ''?mode=ro&immutable=1''"
    using assms by (simp add: immutable_uri_def split: if_splits)
  then show ?thesis
    using uri_escape_plain uri_decode_path by (intro exI [of _ "concat (map uri_escape path)"]) auto
qed

theorem immutable_uri_names_path_witness:
  "\<exists>uri p. immutable_uri (ascii ''a?b%'') = Inr uri \<and>
     uri = ascii ''file:'' @ p @ ascii ''?mode=ro&immutable=1'' \<and> uri_decode p = ascii ''a?b%''"
proof -
  have "\<exists>uri. immutable_uri (ascii ''a?b%'') = Inr uri"
    by (simp add: immutable_uri_def ascii_def)
  then show ?thesis
    using immutable_uri_names_path by blast
qed

end
