(* ===== verification/Diagnostics.thy ===== *)
theory Diagnostics
  imports State_Store
begin

text \<open>
  What the program writes about its values: the \<^verbatim>\<open>Display\<close> texts of \<^verbatim>\<open>src/src/error.rs\<close> and the
  hand-written \<^verbatim>\<open>Debug\<close> implementations of the identifiers, the packet, the stored envelope,
  the profile binding and the state store, over a model of the standard library's formatter
  in its single-line form. The lemmas show what a rendered value determines, and so what it
  can reveal.
\<close>

section \<open>The formatter\<close>

text \<open>Decimal integers, and \<^verbatim>\<open>debug_struct\<close>, its non-exhaustive end and \<^verbatim>\<open>debug_tuple\<close>. The string
  literals that the program prints contain no character that \<^verbatim>\<open>Debug\<close> escapes.\<close>

definition digit :: "nat \<Rightarrow> char" where
  "digit d = char_of (48 + d)"

fun decimal :: "nat \<Rightarrow> string" where
  "decimal n = (if n < 10 then [digit n] else decimal (n div 10) @ [digit (n mod 10)])"

definition debug_str :: "string \<Rightarrow> string" where
  "debug_str s = [CHR 0x22] @ s @ [CHR 0x22]"

definition debug_bool :: "bool \<Rightarrow> string" where
  "debug_bool b = (if b then ''true'' else ''false'')"

definition debug_u64 :: "u64 \<Rightarrow> string" where
  "debug_u64 v = decimal (unat v)"

fun fields_text :: "(string \<times> string) list \<Rightarrow> string" where
  "fields_text [] = ''''"
| "fields_text [(n, v)] = n @ '': '' @ v"
| "fields_text ((n, v) # f # fs) = n @ '': '' @ v @ '', '' @ fields_text (f # fs)"

definition debug_struct :: "string \<Rightarrow> (string \<times> string) list \<Rightarrow> string" where
  "debug_struct name fs = (if fs = [] then name else name @ '' { '' @ fields_text fs @ '' }'')"

definition debug_struct_non_exhaustive :: "string \<Rightarrow> (string \<times> string) list \<Rightarrow> string" where
  "debug_struct_non_exhaustive name fs =
     (if fs = [] then name @ '' { .. }'' else name @ '' { '' @ fields_text fs @ '', .. }'')"

definition debug_tuple :: "string \<Rightarrow> string \<Rightarrow> string" where
  "debug_tuple name v = name @ ''('' @ v @ '')''"

section \<open>Errors\<close>

fun lab_error_display :: "lab_error \<Rightarrow> string" where
  "lab_error_display MissingSession = ''no encrypted session is available; sending stopped''"
| "lab_error_display SessionAlreadyExists = ''an encrypted session already exists''"
| "lab_error_display ExpectedPreKey = ''the packet did not contain the required pre-key message''"
| "lab_error_display PeerVerificationFailed = ''the peer key bundle could not be authenticated''"
| "lab_error_display Crypto = ''cryptographic operation failed''"
| "lab_error_display Encoding = ''encrypted packet encoding failed''"
| "lab_error_display InvalidPayload = ''message payload was invalid''"
| "lab_error_display WrongConversation = ''the message belongs to another conversation''"
| "lab_error_display MessageIdMismatch =
     ''the message identifier did not match its encrypted payload''"
| "lab_error_display DuplicateMessage = ''this logical message was already displayed''"
| "lab_error_display Unauthorized = ''relay authorization failed''"
| "lab_error_display RequestExpired = ''relay request expired''"
| "lab_error_display InvalidExpiry = ''message expiry is invalid''"
| "lab_error_display MailboxNotFound = ''mailbox does not exist''"
| "lab_error_display MailboxConflict =
     ''mailbox registration conflicts with an existing mailbox''"
| "lab_error_display MessageConflict =
     ''message identifier conflicts with a different envelope''"
| "lab_error_display MessageGone = ''message has already been acknowledged or expired''"
| "lab_error_display MessageNotFound = ''message does not exist''"
| "lab_error_display Storage = ''relay storage failed''"

section \<open>Values\<close>

definition queue_id_debug :: "queue_id \<Rightarrow> string" where
  "queue_id_debug q = debug_tuple ''QueueId'' (debug_str ''opaque'')"

definition message_id_debug :: "message_id \<Rightarrow> string" where
  "message_id_debug m = debug_tuple ''MessageId'' (debug_str ''opaque'')"

definition conversation_id_debug :: "conversation_id \<Rightarrow> string" where
  "conversation_id_debug c = debug_tuple ''ConversationId'' (debug_str ''opaque'')"

definition nonce_debug :: "nonce \<Rightarrow> string" where
  "nonce_debug n = debug_tuple ''Nonce'' (debug_str ''opaque'')"

definition encrypted_packet_debug :: "encrypted_packet \<Rightarrow> string" where
  "encrypted_packet_debug p = debug_struct ''EncryptedPacket''
     [(''bytes'', debug_str ''redacted''), (''length'', decimal (length (packet_bytes p)))]"

definition stored_envelope_debug :: "'sig stored_envelope \<Rightarrow> string" where
  "stored_envelope_debug e = debug_struct ''StoredEnvelope''
     [(''queue_id'', queue_id_debug (se_queue_id e)),
      (''message_id'', message_id_debug (se_message_id e)),
      (''packet'', encrypted_packet_debug (se_packet e)),
      (''expires_at'', debug_u64 (se_expires_at e)),
      (''sender_signature'', debug_str ''redacted'')]"

definition profile_binding_debug :: "profile_binding \<Rightarrow> string" where
  "profile_binding_debug b = debug_struct ''ProfileBinding''
     [(''profile_id'', debug_str ''opaque''), (''key_ref'', debug_str ''opaque'')]"

definition client_state_store_debug :: "state_handle \<Rightarrow> string" where
  "client_state_store_debug h = debug_struct_non_exhaustive ''ClientStateStore''
     [(''generation'', debug_u64 (sh_generation h)),
      (''state'', debug_str ''redacted''),
      (''state_length'', decimal (length (sh_state h))),
      (''binding'', profile_binding_debug (sh_binding h)),
      (''poisoned'', debug_bool (sh_poisoned h))]"

section \<open>Reading numbers back\<close>

declare decimal.simps [simp del]

fun undecimal :: "nat \<Rightarrow> string \<Rightarrow> nat" where
  "undecimal acc [] = acc"
| "undecimal acc (c # cs) = undecimal (10 * acc + (of_char c - 48)) cs"

lemma undecimal_append: "undecimal acc (xs @ ys) = undecimal (undecimal acc xs) ys"
  by (induction xs arbitrary: acc) simp_all

lemma of_char_digit: "d < 10 \<Longrightarrow> of_char (digit d) = (48 + d :: nat)"
  by (simp add: digit_def of_char_of)

lemma undecimal_decimal: "undecimal 0 (decimal n) = n"
proof (induction n rule: decimal.induct)
  case (1 n)
  show ?case
  proof (cases "n < 10")
    case False
    then have "undecimal 0 (decimal n) = 10 * (n div 10) + n mod 10"
      using 1 by (subst decimal.simps) (simp add: undecimal_append of_char_digit)
    then show ?thesis by presburger
  qed (simp add: of_char_digit decimal.simps)
qed

lemma decimal_inject [simp]: "decimal m = decimal n \<longleftrightarrow> m = n"
  by (metis undecimal_decimal)

text \<open>A decimal number ends at the first character that is not a digit.\<close>

definition is_digit :: "char \<Rightarrow> bool" where
  "is_digit c \<longleftrightarrow> 48 \<le> (of_char c :: nat) \<and> (of_char c :: nat) \<le> 57"

lemma is_digit_digit: "d < 10 \<Longrightarrow> is_digit (digit d)"
  by (simp add: is_digit_def of_char_digit)

lemma stop_characters:
  "\<not> is_digit (CHR '','')" "\<not> is_digit (CHR '' '')"
  by (simp_all add: is_digit_def)

lemma decimal_digits: "list_all is_digit (decimal n)"
proof (induction n rule: decimal.induct)
  case (1 n)
  then show ?case
    by (subst decimal.simps) (simp add: is_digit_digit)
qed

lemma digits_then_stop:
  assumes "xs @ c # us = ys @ d # vs" and "list_all is_digit xs" and "list_all is_digit ys"
    and "\<not> is_digit c" and "\<not> is_digit d"
  shows "xs = ys \<and> c # us = d # vs"
  using assms
proof (induction xs arbitrary: ys)
  case Nil
  then show ?case by (cases ys) auto
next
  case (Cons x xs)
  then show ?case by (cases ys) auto
qed

lemma decimal_then_stop:
  assumes "\<not> is_digit c" and "\<not> is_digit d"
  shows "decimal m @ c # us = decimal n @ d # vs \<longleftrightarrow> m = n \<and> c # us = d # vs"
proof
  assume "decimal m @ c # us = decimal n @ d # vs"
  from digits_then_stop [OF this decimal_digits decimal_digits assms]
  show "m = n \<and> c # us = d # vs" by simp
qed simp

lemma unat_inject_u64: "unat a = unat b \<longleftrightarrow> a = (b :: u64)"
  by (rule word_unat_eq_iff [symmetric])

section \<open>What is revealed\<close>

lemmas debug_defs = debug_struct_def debug_struct_non_exhaustive_def debug_tuple_def debug_str_def
  debug_u64_def debug_bool_def queue_id_debug_def message_id_debug_def encrypted_packet_debug_def
  profile_binding_debug_def

text \<open>C20. The diagnostic renderings reveal metadata only. Two state stores have the same \<^verbatim>\<open>Debug\<close>
  text exactly when their generation, the length of their state and their poison mark agree, so
  the text depends on no byte of the state, the keys, the nonce, the ciphertext or the binding.
  Two stored envelopes have the same text exactly when their expiry and the length of their
  packet agree, whatever their identifiers, packet bytes and signatures. Identifiers render
  alike, and distinct errors are told apart by their fixed texts.\<close>

theorem renderings_reveal_metadata_only:
  "(client_state_store_debug h = client_state_store_debug h' \<longleftrightarrow>
      sh_generation h = sh_generation h' \<and> length (sh_state h) = length (sh_state h') \<and>
      sh_poisoned h = sh_poisoned h') \<and>
   (stored_envelope_debug e = stored_envelope_debug e' \<longleftrightarrow>
      se_expires_at e = se_expires_at e' \<and>
      length (packet_bytes (se_packet e)) = length (packet_bytes (se_packet e'))) \<and>
   queue_id_debug q = queue_id_debug q' \<and> message_id_debug m = message_id_debug m' \<and>
   conversation_id_debug c = conversation_id_debug c' \<and> nonce_debug n = nonce_debug n' \<and>
   inj lab_error_display"
proof (intro conjI)
  show "client_state_store_debug h = client_state_store_debug h' \<longleftrightarrow>
      sh_generation h = sh_generation h' \<and> length (sh_state h) = length (sh_state h') \<and>
      sh_poisoned h = sh_poisoned h'"
    by (auto simp: client_state_store_debug_def debug_defs decimal_then_stop stop_characters
      unat_inject_u64)
  show "stored_envelope_debug e = stored_envelope_debug e' \<longleftrightarrow>
      se_expires_at e = se_expires_at e' \<and>
      length (packet_bytes (se_packet e)) = length (packet_bytes (se_packet e'))"
    by (auto simp: stored_envelope_debug_def debug_defs decimal_then_stop stop_characters
      unat_inject_u64)
  show "inj lab_error_display"
  proof (rule injI)
    fix a b
    show "lab_error_display a = lab_error_display b \<Longrightarrow> a = b"
      by (cases a; cases b) simp_all
  qed
qed (simp_all add: debug_defs conversation_id_debug_def nonce_debug_def)

end
