(* ===== verification/Demo.thy ===== *)
theory Demo
  imports Relay_Examples Relay_Open_Properties Client_Laws Diagnostics
begin

text \<open>
  The demonstration of \<^verbatim>\<open>src/src/main.rs\<close>: a relay is opened on a fresh database, two clients
  exchange contact bundles, register mailboxes, and pass one encrypted message each way with
  acknowledgements. The clock readings, the random draws and the generated keys are
  arguments.
\<close>

section \<open>State\<close>

record ('acc, 'sess) demo =
  dm_relay :: relay
  dm_alice :: "('acc, 'sess) olm_client"
  dm_bob :: "('acc, 'sess) olm_client"

definition on_relay :: "(relay, 'a) prog \<Rightarrow> (('acc, 'sess) demo, 'a) prog" where
  "on_relay m = (\<lambda>d. case m (dm_relay d) of (r, x) \<Rightarrow> (r, d\<lparr>dm_relay := x\<rparr>))"

definition on_alice :: "(('acc, 'sess) olm_client, 'a) prog \<Rightarrow> (('acc, 'sess) demo, 'a) prog" where
  "on_alice m = (\<lambda>d. case m (dm_alice d) of (r, x) \<Rightarrow> (r, d\<lparr>dm_alice := x\<rparr>))"

definition on_bob :: "(('acc, 'sess) olm_client, 'a) prog \<Rightarrow> (('acc, 'sess) demo, 'a) prog" where
  "on_bob m = (\<lambda>d. case m (dm_bob d) of (r, x) \<Rightarrow> (r, d\<lparr>dm_bob := x\<rparr>))"

section \<open>The exchange\<close>

text \<open>\<open>rnd k\<close> is the \<open>k\<close>-th use of the system's random source after the conversation identifier;
  \<open>finished_at\<close> is the clock read by \<^verbatim>\<open>queued_message_count\<close>.\<close>

definition first_message ::
    "('kp, 'pk, 'sig) crypto \<Rightarrow>
     ('acc, 'sess, 'prk, 'norm, 'cpk, 'pk, 'sig, 'apk, 'spk) olm \<Rightarrow> (nat \<Rightarrow> nat \<Rightarrow> bytes) \<Rightarrow>
     'kp mailbox_owner \<Rightarrow> ('pk, 'cpk) verified_peer_pre_key \<Rightarrow> ('pk, 'cpk) verified_peer_pre_key \<Rightarrow>
     u64 \<Rightarrow> (('acc, 'sess) demo, unit) prog" where
  "first_message C O' rnd bob_inbox verified_alice verified_bob now =
     attempt (on_alice (start_outbound_session O' verified_bob now)) (\<lambda>_.
     attempt (on_alice (seal O' (rnd 4) ''phase-zero-demo-message'' now)) (\<lambda>(first_id, first_packet).
     attempt (on_relay (enqueue C (authorize C (sender_capability bob_inbox) first_id first_packet
       (now + 3600)) now)) (\<lambda>outcome.
     if outcome \<noteq> Stored then throw Storage
     else attempt (on_relay (fetch C (authorize_fetch C (rnd 5) (receiver_capability C bob_inbox)
       (now + 60)) now)) (\<lambda>fetched.
     case fetched of
       [] \<Rightarrow> throw MessageNotFound
     | first # _ \<Rightarrow>
         attempt (pure_result (verify_envelope C (receiver_capability C bob_inbox) first now)) (\<lambda>verified_first.
         attempt (on_bob (open_initial O' verified_first verified_alice now)) (\<lambda>received.
         if pm_body (om_message received) \<noteq> ''phase-zero-demo-message'' then throw InvalidPayload
         else attempt (on_relay (acknowledge C (authorize_ack C (receiver_capability C bob_inbox) received
           (now + 60)) now)) (\<lambda>acked.
         if acked \<noteq> Deleted then throw Storage else ret ())))))))"

definition reply_message ::
    "('kp, 'pk, 'sig) crypto \<Rightarrow>
     ('acc, 'sess, 'prk, 'norm, 'cpk, 'pk, 'sig, 'apk, 'spk) olm \<Rightarrow> (nat \<Rightarrow> nat \<Rightarrow> bytes) \<Rightarrow>
     'kp mailbox_owner \<Rightarrow> u64 \<Rightarrow> (('acc, 'sess) demo, unit) prog" where
  "reply_message C O' rnd alice_inbox now =
     attempt (on_bob (seal O' (rnd 6) ''phase-zero-demo-reply'' (now + 1))) (\<lambda>(reply_id, reply_packet).
     attempt (on_relay (enqueue C (authorize C (sender_capability alice_inbox) reply_id reply_packet
       (now + 3600)) (now + 1))) (\<lambda>_.
     attempt (on_relay (fetch C (authorize_fetch C (rnd 7) (receiver_capability C alice_inbox)
       (now + 61)) (now + 1))) (\<lambda>replies.
     case replies of
       [] \<Rightarrow> throw MessageNotFound
     | reply # _ \<Rightarrow>
         attempt (pure_result (verify_envelope C (receiver_capability C alice_inbox) reply (now + 1))) (\<lambda>verified_reply.
         attempt (on_alice (open_message O' verified_reply (now + 1))) (\<lambda>received_reply.
         if pm_body (om_message received_reply) \<noteq> ''phase-zero-demo-reply'' then throw InvalidPayload
         else attempt (on_relay (acknowledge C (authorize_ack C (receiver_capability C alice_inbox)
           received_reply (now + 61)) (now + 1))) (\<lambda>_.
         ret ()))))))"

definition demo_exchange ::
    "('kp, 'pk, 'sig) crypto \<Rightarrow>
     ('acc, 'sess, 'prk, 'norm, 'cpk, 'pk, 'sig, 'apk, 'spk) olm \<Rightarrow> (nat \<Rightarrow> nat \<Rightarrow> bytes) \<Rightarrow>
     'kp mailbox_owner \<Rightarrow> 'kp mailbox_owner \<Rightarrow> u64 \<Rightarrow> system_time \<Rightarrow> (('acc, 'sess) demo, unit) prog" where
  "demo_exchange C O' rnd alice_inbox bob_inbox now finished_at =
     attempt (on_alice (prekey_bundle C O' (now + 60))) (\<lambda>alice_pre_key.
     attempt (on_bob (prekey_bundle C O' (now + 60))) (\<lambda>bob_pre_key.
     attempt (\<lambda>d. (peer_pre_key_verify C (cpk_bytes O') alice_pre_key
       (ed25519_key O' (account (dm_alice d))) now, d)) (\<lambda>verified_alice.
     attempt (\<lambda>d. (peer_pre_key_verify C (cpk_bytes O') bob_pre_key
       (ed25519_key O' (account (dm_bob d))) now, d)) (\<lambda>verified_bob.
     attempt (on_relay (register C (registration C (rnd 2) alice_inbox (now + 60)) now)) (\<lambda>_.
     attempt (on_relay (register C (registration C (rnd 3) bob_inbox (now + 60)) now)) (\<lambda>_.
     attempt (first_message C O' rnd bob_inbox verified_alice verified_bob now) (\<lambda>_.
     attempt (reply_message C O' rnd alice_inbox now) (\<lambda>_.
     attempt (on_relay (queued_message_count finished_at)) (\<lambda>queued.
     if queued \<noteq> 0 then throw Storage else ret ())))))))))"

text \<open>\<open>clock k\<close> is the \<open>k\<close>-th reading of the system clock and \<open>dir\<close> the answer of
  \<^verbatim>\<open>tempfile::tempdir\<close>. The database starts as the fresh file \<open>file\<close>; \<open>Account::new\<close> gives \<open>a\<close> and
  \<open>b\<close>, the signing keys of the two mailboxes are \<open>ka\<close> and \<open>kb\<close>.\<close>

definition run_demo ::
    "('kp, 'pk, 'sig) crypto \<Rightarrow>
     ('acc, 'sess, 'prk, 'norm, 'cpk, 'pk, 'sig, 'apk, 'spk) olm \<Rightarrow> sqlite \<Rightarrow> file_system \<Rightarrow>
     string option \<Rightarrow> (nat \<Rightarrow> nat \<Rightarrow> bytes) \<Rightarrow> 'acc \<Rightarrow> 'acc \<Rightarrow> 'kp \<times> 'kp \<times> 'kp \<Rightarrow> 'kp \<times> 'kp \<times> 'kp \<Rightarrow>
     (nat \<Rightarrow> system_time) \<Rightarrow> relay_file conn \<Rightarrow> unit result" where
  "run_demo C O' G fs dir rnd a b ka kb clock file =
     and_then (ok_or (unix_seconds (clock 0)) InvalidPayload) (\<lambda>now.
     and_then (ok_or dir Storage) (\<lambda>directory.
     case open_relay G fs (directory @ ''/relay.sqlite'') (clock 1) file of
        (Inl e, _) \<Rightarrow> Inl e
      | (Inr _, opened) \<Rightarrow>
          let conversation = conversation_id_random (rnd 8);
              alice_inbox = mailbox_owner_new (rnd 0) (fst ka) (fst (snd ka)) (snd (snd ka));
              bob_inbox = mailbox_owner_new (rnd 1) (fst kb) (fst (snd kb)) (snd (snd kb))
          in fst (demo_exchange C O' rnd alice_inbox bob_inbox now (clock 2)
               \<lparr>dm_relay = relay_over opened, dm_alice = olm_client_new a conversation,
                dm_bob = olm_client_new b conversation\<rparr>)))"

section \<open>The process\<close>

text \<open>What \<^verbatim>\<open>main\<close> writes and its exit status: the line that \<^verbatim>\<open>run_demo\<close> prints last when it
  succeeds, or the error's text.\<close>

record process_end =
  stdout :: "string list"
  stderr :: "string list"
  exit_status :: int

definition demo_main :: "unit result \<Rightarrow> process_end" where
  "demo_main outcome = (case outcome of
     Inr _ \<Rightarrow> \<lparr>stdout = [''PASS: two clients exchanged encrypted messages; relay queue is empty after authenticated ACKs''],
       stderr = [], exit_status = 0\<rparr>
   | Inl error \<Rightarrow> \<lparr>stdout = [], stderr = [''Phase 0 demo failed: '' @ lab_error_display error], exit_status = 1\<rparr>)"

end
