(* ===== verification/Demo_Properties.thy ===== *)
theory Demo_Properties
  imports Demo Relay_Honest
begin

text \<open>
  The demonstration succeeds: the laws of SQLite and of the ratchet's handshake that it rests
  on, the run of each of its steps, and the theorem that the whole run returns \<open>Ok\<close>.
\<close>

section \<open>Opening a fresh relay\<close>

text \<open>What a new database file holds, and what the demonstration asks of SQLite: nothing is
  recovered into a new file, both DDL scripts run on an empty schema, and the integrity checks pass on the
  new file and on the empty tables of the current schema.\<close>

definition fresh_file :: relay_file where
  "fresh_file = \<lparr>rf_user_version = 0, rf_schema = [], rf_tables = empty_relay_db, rf_legacy_messages = []\<rparr>"

definition sqlite_laws :: "sqlite \<Rightarrow> bool" where
  "sqlite_laws G \<longleftrightarrow> recovery_laws G \<and>
     reference_of G CURRENT_SCHEMA_DDL \<noteq> None \<and> reference_of G LEGACY_SCHEMA_DDL \<noteq> None \<and>
     integrity_ok G fresh_file \<and>
     (\<forall>sch. run_ddl G CURRENT_SCHEMA_DDL [] = Some sch \<longrightarrow>
        integrity_ok G (fresh_file\<lparr>rf_user_version := 2, rf_schema := sch\<rparr>))"

lemma fresh_accepted:
  assumes "sqlite_laws G"
  shows "file_kind G fresh_file = Empty" and "accepted G fresh_file"
proof -
  have "manifest_of G [] = Some default_manifest"
    by (simp add: manifest_of_def default_manifest_def)
  then show kind: "file_kind G fresh_file = Empty"
    using assms by (auto simp: file_kind_def fresh_file_def sqlite_laws_def classify_schema_def)
  have "integrity_ok G fresh_file"
    using assms by (simp add: sqlite_laws_def)
  with kind show "accepted G fresh_file"
    by (simp add: accepted_def) (simp add: fresh_file_def)
qed

lemma fresh_migrates:
  fixes s :: "(relay_file, 'z) conn_scheme"
  assumes "sqlite_laws G" and "calls s = []" and "working s = fresh_file"
  shows "\<exists>f. migrate_schema G s = (Inr (), s\<lparr>working := f\<rparr>)"
proof -
  obtain sch c where sch: "run_ddl G CURRENT_SCHEMA_DDL [] = Some sch" "manifest_of G sch = Some c"
    using assms(1) by (auto simp: sqlite_laws_def reference_of_def bind_eq_Some_conv)
  have m: "manifest_of G [] = Some default_manifest"
    by (simp add: manifest_of_def default_manifest_def)
  obtain l where l: "reference_of G LEGACY_SCHEMA_DDL = Some l"
    using assms(1) by (auto simp: sqlite_laws_def)
  have i: "integrity_ok G (fresh_file\<lparr>rf_schema := sch, rf_tables := empty_relay_db, rf_user_version := 2\<rparr>)"
    using assms(1) sch(1) by (simp add: sqlite_laws_def fresh_file_def)
  have "migrate_schema G s = (Inr (), s\<lparr>working := fresh_file\<lparr>rf_schema := sch, rf_tables := empty_relay_db, rf_user_version := 2\<rparr>\<rparr>)"
    using fresh_accepted [OF assms(1)] sch m l i assms(2,3)
    by (simp add: migrate_schema_def sql_simps)
      (simp add: fresh_file_def sql_simps classify_schema_def reference_of_def CURRENT_SCHEMA_VERSION_def
        create_current_schema_def create_schema_file_def set_user_version_def validate_current_schema_def ok_or_def Let_def)
  then show ?thesis by blast
qed


lemma fresh_opens:
  fixes s :: "relay_file conn"
  assumes "sqlite_laws G" and "calls s = []" and "durable s = fresh_file"
    and "fs_metadata fs path = Inl NotFound" and "uint opened_at < 2 ^ 63"
  obtains s' where "open_at G fs path opened_at s = (Inr (), s')" "calls s' = []"
    "durable (relay_over s') = empty_relay_db"
proof -
  obtain f where "migrate_schema G (s\<lparr>durable := fresh_file, working := fresh_file\<rparr>) =
      (Inr (), s\<lparr>durable := fresh_file, working := f\<rparr>)"
    using fresh_migrates [OF assms(1), of "s\<lparr>durable := fresh_file, working := fresh_file\<rparr>"] assms(2) by auto
  moreover have recovered: "recover G fs path fresh_file = fresh_file"
    using assms(1,4) by (simp add: sqlite_laws_def recovery_laws_def recovery_companion_def)
  ultimately have "\<exists>s'. open_at G fs path opened_at s = (Inr (), s')"
    using assms fresh_accepted(2)
    by (auto simp: open_at_def preflight_existing_database_def initialize_def sql_simps
        attempt_def [of "migrate_schema G"] to_i64_def i64_try_from_def ok_or_def)
  then obtain s' where s': "open_at G fs path opened_at s = (Inr (), s')" ..
  moreover have "calls s' = []"
    using relay_open.calls_stay_empty [OF s' assms(2)] .
  moreover have "durable (relay_over s') = empty_relay_db"
    using open_at_success [OF s'] fresh_accepted(1) [OF assms(1)] assms(3) recovered
    by (simp add: relay_over_def initial_tables_def purge_db_def empty_relay_db_def)
  ultimately show thesis using that by blast
qed

lemma fresh_opens_now:
  fixes s :: "relay_file conn"
  assumes "sqlite_laws G" and "calls s = []" and "durable s = fresh_file"
    and "fs_metadata fs path = Inl NotFound" and "0 \<le> t" and "t div 10 ^ 9 < 2 ^ 63"
  obtains s' where "open_relay G fs path t s = (Inr (), s')" "calls s' = []"
    "durable (relay_over s') = empty_relay_db"
proof -
  obtain now where now: "unix_seconds t = Some now" "uint now = t div 10 ^ 9"
    using unix_seconds_bounded [OF assms(5,6)] .
  have "uint now < 2 ^ 63"
    using now(2) assms(6) by simp
  from fresh_opens [OF assms(1-4) this] now(1) that show thesis
    by (auto simp: open_relay_def unix_now_def ok_or_def sql_simps)
qed

lemma view_empty [simp]:
  "view t empty_relay_db = \<lparr>boxes = (\<lambda>_. None), queue = (\<lambda>_. []), gone = (\<lambda>_. None), spent = (\<lambda>_. None), retired = {}\<rparr>"
  by (simp add: view_def empty_relay_db_def live_queue_def live_deadline_def)

section \<open>Sessions\<close>

text \<open>The documented behaviour of the ratchet's handshake: publishing keeps the identities and key
  generation yields a key; a session opened on a published one-time key starts with a pre-key
  message from which the other side derives the plaintext and a session that answers.\<close>

definition handshake_laws :: "('acc, 'sess, 'prk, 'norm, 'cpk, 'pk, 'sig, 'apk, 'spk) olm \<Rightarrow> bool" where
  "handshake_laws O' \<longleftrightarrow>
     (\<forall>a. ed25519_key O' (mark_keys_as_published O' a) = ed25519_key O' a \<and>
          curve25519_key O' (mark_keys_as_published O' a) = curve25519_key O' a \<and>
          one_time_keys O' (generate_one_time_keys O' 1 a) \<noteq> []) \<and>
     (\<forall>a b k. k \<in> set (one_time_keys O' b) \<longrightarrow>
        (\<exists>s. create_outbound_session O' a (curve25519_key O' b) k = Some s \<and>
          (\<forall>m. \<exists>p s' r b'. encrypt O' s m = (Some (PreKey p), s') \<and>
             create_inbound_session O' (mark_keys_as_published O' b) (curve25519_key O' a) p = (Some (r, m), b') \<and>
             (\<forall>m'. fst (encrypt O' r m') \<noteq> None) \<and> paired O' r s')))"

text \<open>Short messages serialise, and their packets are within the relay's bound.\<close>

definition short_messages_fit :: "('acc, 'sess, 'prk, 'norm, 'cpk, 'pk, 'sig, 'apk, 'spk) olm \<Rightarrow> bool" where
  "short_messages_fit O' \<longleftrightarrow>
     (\<forall>p. length (conversation_id_bytes (pm_conversation_id p)) = 16 \<and> message_id_ok (pm_message_id p) \<and>
          length (pm_body p) \<le> 32 \<longrightarrow>
        (\<exists>bs. plain_to_vec O' p = Some bs \<and>
          (\<forall>s ct s'. encrypt O' s bs = (Some ct, s') \<longrightarrow>
             (\<exists>packet. olm_to_vec O' ct = Some packet \<and> packet \<noteq> [] \<and> length packet \<le> MAX_PACKET_BYTES))))"

lemma example_demo_laws: "handshake_laws example_olm" "short_messages_fit example_olm"
proof -
  show "handshake_laws example_olm"
    by (simp add: handshake_laws_def example_olm_def paired_def ex_bool_eq)
  show "short_messages_fit example_olm"
    by (auto simp: short_messages_fit_def example_olm_def example_plain_to_vec_def example_olm_to_vec_def
        message_id_ok_def length_u64_to_be_bytes8 ascii_def MAX_PACKET_BYTES_def)
qed

lemma bundle_run:
  fixes c :: "('acc, 'sess) olm_client"
  assumes "account_laws C O'" and "handshake_laws O'" and "in_window (5 * 60) now v"
    and g: "g = generate_one_time_keys O' 1 (account c)"
  obtains p k where "prekey_bundle C O' v c = (Inr p, c\<lparr>account := mark_keys_as_published O' g\<rparr>)"
    "k \<in> set (one_time_keys O' g)"
    "peer_pre_key_verify C (cpk_bytes O') p (ed25519_key O' (mark_keys_as_published O' g)) now =
      Inr \<lparr>vp_signing_identity = ed25519_key O' g, vp_curve_identity = curve25519_key O' g,
        vp_one_time_key = k, vp_valid_until = v\<rparr>"
proof -
  have "one_time_keys O' g \<noteq> []"
    using assms(2) g by (simp add: handshake_laws_def)
  then obtain k ks where k: "one_time_keys O' g = k # ks"
    by (cases "one_time_keys O' g") auto
  let ?p = "\<lparr>pp_signing_identity = ed25519_key O' g, pp_curve_identity = curve25519_key O' g,
    pp_one_time_key = k, pp_valid_until = v,
    pp_signature = account_sign O' g (peer_prekey_signing_bytes C (cpk_bytes O')
      (ed25519_key O' g) (curve25519_key O' g) k v)\<rparr>"
  have "prekey_bundle C O' v c = (Inr ?p, c\<lparr>account := mark_keys_as_published O' g\<rparr>)"
    using k g by (simp add: prekey_bundle_def Let_def)
  moreover have "peer_pre_key_verify C (cpk_bytes O') ?p (ed25519_key O' (mark_keys_as_published O' g)) now =
      Inr \<lparr>vp_signing_identity = ed25519_key O' g, vp_curve_identity = curve25519_key O' g,
        vp_one_time_key = k, vp_valid_until = v\<rparr>"
    using assms(1-3)
    by (simp add: peer_pre_key_verify_def in_window_def account_laws_def handshake_laws_def not_le not_less
        CONTACT_BUNDLE_MAX_VALIDITY_SECONDS_def)
  ultimately show thesis
    using that [of ?p k] k by simp
qed


lemma seal_run:
  assumes "short_messages_fit O'" and "length (conversation_id_bytes (conversation_id c)) = 16"
    and "length (f 16) = 16" and "length body \<le> 32" and "session c = Some s"
    and "\<And>m. fst (encrypt O' s m) \<noteq> None"
  obtains bs ct s' packet where "seal O' f body t c =
      (Inr (message_id_random f, EncryptedPacket packet), c\<lparr>session := Some s'\<rparr>)"
    "plain_to_vec O' \<lparr>pm_version = PAYLOAD_VERSION, pm_conversation_id = conversation_id c,
      pm_message_id = message_id_random f, pm_sent_at = t, pm_body = body\<rparr> = Some bs"
    "encrypt O' s bs = (Some ct, s')" "olm_to_vec O' ct = Some packet"
    "packet \<noteq> []" "length packet \<le> MAX_PACKET_BYTES"
proof -
  let ?p = "\<lparr>pm_version = PAYLOAD_VERSION, pm_conversation_id = conversation_id c,
      pm_message_id = message_id_random f, pm_sent_at = t, pm_body = body\<rparr>"
  obtain bs where bs: "plain_to_vec O' ?p = Some bs"
    "\<forall>s ct s'. encrypt O' s bs = (Some ct, s') \<longrightarrow>
       (\<exists>packet. olm_to_vec O' ct = Some packet \<and> packet \<noteq> [] \<and> length packet \<le> MAX_PACKET_BYTES)"
    using assms(1-4) random_ok(2) [of f] unfolding short_messages_fit_def
    by (metis plain_message.select_convs(2,3,5))
  obtain ct s' where ct: "encrypt O' s bs = (Some ct, s')"
    using assms(6) [of bs] by (cases "encrypt O' s bs") auto
  then obtain packet where packet: "olm_to_vec O' ct = Some packet" "packet \<noteq> []" "length packet \<le> MAX_PACKET_BYTES"
    using bs(2) by blast
  have "seal O' f body t c = (Inr (message_id_random f, EncryptedPacket packet), c\<lparr>session := Some s'\<rparr>)"
    using bs(1) ct packet(1) assms(5) by (simp add: seal_def Let_def)
  then show thesis
    using that bs(1) ct packet by blast
qed

lemma decoded:
  assumes "codec_laws O'" and "length (conversation_id_bytes conv) = 16" and "length (f 16) = 16"
    and "plain_to_vec O' \<lparr>pm_version = PAYLOAD_VERSION, pm_conversation_id = conv,
      pm_message_id = message_id_random f, pm_sent_at = t, pm_body = body\<rparr> = Some bs"
  shows "plain_from_slice O' bs = Some \<lparr>pm_version = PAYLOAD_VERSION, pm_conversation_id = conv,
      pm_message_id = message_id_random f, pm_sent_at = t, pm_body = body\<rparr>"
  using assms random_ok(2) [of f] by (simp add: codec_laws_def)

text \<open>The first message: the initiator's session starts with a pre-key packet that the responder
  opens, and the responder's session answers the initiator's.\<close>

lemma first_contact:
  fixes alice bob :: "('acc, 'sess) olm_client"
  assumes laws: "codec_laws O'" "pickle_laws O'" "handshake_laws O'" "short_messages_fit O'"
    and k: "k \<in> set (one_time_keys O' gb)"
    and alice: "account alice = mark_keys_as_published O' ga" "session alice = None"
    and bob: "account bob = mark_keys_as_published O' gb" "session bob = None"
      "conversation_id bob = conversation_id alice" "displayed_messages bob = {}"
    and len: "length (conversation_id_bytes (conversation_id alice)) = 16" "length (f 16) = 16" "length body \<le> 32"
    and peers: "vp_curve_identity pb = curve25519_key O' gb" "vp_one_time_key pb = k" "now < vp_valid_until pb"
      "vp_curve_identity pa = curve25519_key O' ga"
  obtains s0 s packet r b where "start_outbound_session O' pb now alice = (Inr (), alice\<lparr>session := Some s0\<rparr>)"
    "seal O' f body now (alice\<lparr>session := Some s0\<rparr>) =
       (Inr (message_id_random f, EncryptedPacket packet), alice\<lparr>session := Some s\<rparr>)"
    "packet \<noteq> []" "length packet \<le> MAX_PACKET_BYTES"
    "\<And>env. ve_message_id env = message_id_random f \<Longrightarrow> ve_packet env = EncryptedPacket packet \<Longrightarrow>
       now < ve_expires_at env \<Longrightarrow> \<exists>om. open_initial O' env pa now bob = (Inr om,
         bob\<lparr>account := b, session := Some r, displayed_messages := {message_id_random f}\<rparr>) \<and>
         pm_body (om_message om) = body \<and> om_envelope om = env"
    "\<And>m. fst (encrypt O' r m) \<noteq> None" "paired O' r s"
proof -
  have "curve25519_key O' (account alice) = curve25519_key O' ga"
    using alice(1) laws(3) by (simp add: handshake_laws_def)
  then obtain s0 where s0: "create_outbound_session O' (account alice) (curve25519_key O' gb) k = Some s0"
    and run: "\<And>m. \<exists>p s' r b'. encrypt O' s0 m = (Some (PreKey p), s') \<and>
      create_inbound_session O' (mark_keys_as_published O' gb) (curve25519_key O' ga) p = (Some (r, m), b') \<and>
      (\<forall>m'. fst (encrypt O' r m') \<noteq> None) \<and> paired O' r s'"
    using laws(3) k unfolding handshake_laws_def by metis
  have start: "start_outbound_session O' pb now alice = (Inr (), alice\<lparr>session := Some s0\<rparr>)"
    using s0 peers(1-3) alice(2) by (simp add: start_outbound_session_def not_le)
  have enc: "\<And>m. fst (encrypt O' s0 m) \<noteq> None"
    using run by (metis fst_conv option.distinct(1))
  obtain bs ct s packet where sealed: "seal O' f body now (alice\<lparr>session := Some s0\<rparr>) =
       (Inr (message_id_random f, EncryptedPacket packet), alice\<lparr>session := Some s\<rparr>)"
    and bs: "plain_to_vec O' \<lparr>pm_version = PAYLOAD_VERSION, pm_conversation_id = conversation_id alice,
      pm_message_id = message_id_random f, pm_sent_at = now, pm_body = body\<rparr> = Some bs"
    and ct: "encrypt O' s0 bs = (Some ct, s)" "olm_to_vec O' ct = Some packet"
    and packet: "packet \<noteq> []" "length packet \<le> MAX_PACKET_BYTES"
    by (rule seal_run [OF laws(4), of "alice\<lparr>session := Some s0\<rparr>" f body s0 now])
      (simp_all add: len enc)
  obtain p r b where inbound: "ct = PreKey p"
      "create_inbound_session O' (mark_keys_as_published O' gb) (curve25519_key O' ga) p = (Some (r, bs), b)"
      "\<And>m. fst (encrypt O' r m) \<noteq> None" "paired O' r s"
    using run [of bs] ct(1) by auto
  have parsed: "olm_from_slice O' packet = Some (PreKey p)"
    using laws(1) ct(2) inbound(1) by (simp add: codec_laws_def)
  have plain: "plain_from_slice O' bs = Some \<lparr>pm_version = PAYLOAD_VERSION, pm_conversation_id = conversation_id alice,
      pm_message_id = message_id_random f, pm_sent_at = now, pm_body = body\<rparr>"
    by (rule decoded [OF laws(1) len(1,2) bs])
  have pickle: "account_from_pickle O' (account_pickle O' (account bob)) = account bob"
    using laws(2) by (simp add: pickle_laws_def)
  have "\<exists>om. open_initial O' env pa now bob = (Inr om,
         bob\<lparr>account := b, session := Some r, displayed_messages := {message_id_random f}\<rparr>) \<and>
         pm_body (om_message om) = body \<and> om_envelope om = env"
    if "ve_message_id env = message_id_random f" "ve_packet env = EncryptedPacket packet"
      "now < ve_expires_at env" for env
    using that parsed plain pickle inbound(2) bob peers(4)
    by (simp add: open_initial_def validate_plaintext_def not_le)
  then show thesis
    using that [OF start sealed packet _ inbound(3,4)] by blast
qed

lemma reply_contact:
  fixes alice bob :: "('acc, 'sess) olm_client"
  assumes laws: "codec_laws O'" "pickle_laws O'" "short_messages_fit O'"
    and s: "session bob = Some r" "session alice = Some s" "paired O' r s" "\<And>m. fst (encrypt O' r m) \<noteq> None"
    and conv: "conversation_id bob = conversation_id alice" "displayed_messages alice = {}"
    and len: "length (conversation_id_bytes (conversation_id alice)) = 16" "length (f 16) = 16" "length body \<le> 32"
  obtains r' s' packet where "seal O' f body now bob =
       (Inr (message_id_random f, EncryptedPacket packet), bob\<lparr>session := Some r'\<rparr>)"
    "packet \<noteq> []" "length packet \<le> MAX_PACKET_BYTES"
    "\<And>env. ve_message_id env = message_id_random f \<Longrightarrow> ve_packet env = EncryptedPacket packet \<Longrightarrow>
       now < ve_expires_at env \<Longrightarrow> \<exists>om. open_message O' env now alice = (Inr om,
         alice\<lparr>session := Some s', displayed_messages := {message_id_random f}\<rparr>) \<and>
         pm_body (om_message om) = body \<and> om_envelope om = env"
proof -
  obtain bs ct r' packet where sealed: "seal O' f body now bob =
       (Inr (message_id_random f, EncryptedPacket packet), bob\<lparr>session := Some r'\<rparr>)"
    and bs: "plain_to_vec O' \<lparr>pm_version = PAYLOAD_VERSION, pm_conversation_id = conversation_id alice,
      pm_message_id = message_id_random f, pm_sent_at = now, pm_body = body\<rparr> = Some bs"
    and ct: "encrypt O' r bs = (Some ct, r')" "olm_to_vec O' ct = Some packet"
    and packet: "packet \<noteq> []" "length packet \<le> MAX_PACKET_BYTES"
    by (rule seal_run [OF laws(3), of bob f body r now]) (simp_all add: len s(1,4) conv(1))
  obtain s' where dec: "decrypt O' s ct = (Some bs, s')"
    using s(3) ct(1) unfolding paired_def by (metis prod.collapse)
  have parsed: "olm_from_slice O' packet = Some ct"
    using laws(1) ct(2) by (simp add: codec_laws_def)
  have plain: "plain_from_slice O' bs = Some \<lparr>pm_version = PAYLOAD_VERSION, pm_conversation_id = conversation_id alice,
      pm_message_id = message_id_random f, pm_sent_at = now, pm_body = body\<rparr>"
    by (rule decoded [OF laws(1) len(1,2) bs])
  have "session_from_pickle O' (session_pickle O' s) = s"
    using laws(2) by (simp add: pickle_laws_def)
  then have "\<exists>om. open_message O' env now alice = (Inr om,
         alice\<lparr>session := Some s', displayed_messages := {message_id_random f}\<rparr>) \<and>
         pm_body (om_message om) = body \<and> om_envelope om = env"
    if "ve_message_id env = message_id_random f" "ve_packet env = EncryptedPacket packet"
      "now < ve_expires_at env" for env
    using that parsed plain dec s(2) conv(2)
    by (simp add: open_message_def validate_plaintext_def not_le)
  then show thesis
    using that [OF sealed packet] by blast
qed


section \<open>The exchange\<close>

lemma attempt_on:
  "attempt (on_relay m) f d = (case m (dm_relay d) of
     (Inl e, x) \<Rightarrow> (Inl e, d\<lparr>dm_relay := x\<rparr>) | (Inr y, x) \<Rightarrow> f y (d\<lparr>dm_relay := x\<rparr>))"
  "attempt (on_alice m') f' d = (case m' (dm_alice d) of
     (Inl e, x) \<Rightarrow> (Inl e, d\<lparr>dm_alice := x\<rparr>) | (Inr y, x) \<Rightarrow> f' y (d\<lparr>dm_alice := x\<rparr>))"
  "attempt (on_bob m'') f'' d = (case m'' (dm_bob d) of
     (Inl e, x) \<Rightarrow> (Inl e, d\<lparr>dm_bob := x\<rparr>) | (Inr y, x) \<Rightarrow> f'' y (d\<lparr>dm_bob := x\<rparr>))"
  by (simp_all add: attempt_def on_relay_def on_alice_def on_bob_def split: prod.split sum.split)

lemma honest_envelope:
  assumes "crypto_laws C" and "now < e"
  shows "verify_envelope C (receiver_capability C owner)
      (envelope_of_request (authorize C (sender_capability owner) m p e)) now =
    Inr \<lparr>ve_queue_id = mo_queue_id owner, ve_message_id = m, ve_packet = p, ve_expires_at = e\<rparr>"
  using assms by (simp add: verify_envelope_of_authorized)

lemma demo_deadlines:
  assumes "uint now < 2 ^ 62"
  shows "in_window (5 * 60) now (now + 60)" "in_window MAX_MESSAGE_TTL_SECONDS now (now + 3600)"
    "in_window (5 * 60) (now + 1) (now + 61)" "in_window MAX_MESSAGE_TTL_SECONDS (now + 1) (now + 3600)"
    "uint (u64_saturating_add now TOMBSTONE_TTL_SECONDS) < 2 ^ 63"
    "uint (u64_saturating_add (now + 1) TOMBSTONE_TTL_SECONDS) < 2 ^ 63"
    "uint now \<le> uint (now + 1)"
  using in_window_plus [OF assms, of 0 60 "5 * 60"] in_window_plus [OF assms, of 0 3600 MAX_MESSAGE_TTL_SECONDS]
    in_window_plus [OF assms, of 1 61 "5 * 60"] in_window_plus [OF assms, of 1 3600 MAX_MESSAGE_TTL_SECONDS]
    tombstone_fits [OF assms, of 0] tombstone_fits [OF assms, of 1] uint_plus_small [of now 1] assms
  by (simp_all add: MAX_MESSAGE_TTL_SECONDS_def)

text \<open>The relay between two messages: registered, quiet and with empty queues.\<close>

definition relay_ready ::
    "('kp, 'pk, 'sig) crypto \<Rightarrow> u64 \<Rightarrow> 'kp mailbox_owner \<Rightarrow> 'kp mailbox_owner \<Rightarrow> relay \<Rightarrow> bool" where
  "relay_ready C now a b rs \<longleftrightarrow> relay_inv C (durable rs) \<and> calls rs = [] \<and>
     boxes (view (uint now) (durable rs)) (owner_queue a) = Some (owner_box C a) \<and>
     boxes (view (uint now) (durable rs)) (owner_queue b) = Some (owner_box C b) \<and>
     messages (durable rs) = []"

definition unused :: "u64 \<Rightarrow> bytes \<Rightarrow> relay \<Rightarrow> bool" where
  "unused now q rs \<longleftrightarrow> (\<forall>m n. gone (view (uint now) (durable rs)) (q, m) = None \<and>
     spent (view (uint now) (durable rs)) (q, ''receive'', n) = None)"

lemma no_messages: "messages db = [] \<Longrightarrow> queue (view t db) q = []"
  by (simp add: view_def live_queue_def)

lemma delivered_ready:
  fixes C :: "('kp, 'pk, 'sig) crypto"
  assumes "crypto_laws C" and ready: "relay_ready C now a b rs" and "unused now (owner_queue owner) rs"
    and "owner = a \<or> owner = b" and "length (f 16) = 16" and "message_id_ok m"
    and "in_window (5 * 60) now v" and "in_window MAX_MESSAGE_TTL_SECONDS now e"
    and "uint (u64_saturating_add now TOMBSTONE_TTL_SECONDS) < 2 ^ 63"
    and "packet_bytes p \<noteq> []" "length (packet_bytes p) \<le> MAX_PACKET_BYTES"
  obtains rs1 rs2 where "enqueue C (authorize C (sender_capability owner) m p e) now rs = (Inr Stored, rs1)"
    "fetch C (authorize_fetch C f (receiver_capability C owner) v) now rs1 =
       (Inr [envelope_of_request (authorize C (sender_capability owner) m p e)], rs2)"
    "\<And>om. ve_message_id (om_envelope om) = m \<Longrightarrow> ve_packet (om_envelope om) = p \<Longrightarrow>
      \<exists>rs3. acknowledge C (authorize_ack C (receiver_capability C owner) om v) now rs2 = (Inr Deleted, rs3) \<and>
        relay_ready C now a b rs3 \<and>
        (\<forall>other. other \<noteq> owner_queue owner \<longrightarrow> unused now other rs \<longrightarrow> unused now other rs3)"
proof -
  let ?A = "view (uint now) (durable rs)" and ?q = "owner_queue owner"
  have box: "boxes ?A ?q = Some (owner_box C owner)" and empty: "\<And>q. queue ?A q = []"
    and inv: "relay_inv C (durable rs)" and quiet: "calls rs = []"
    using ready assms(4) by (auto simp: relay_ready_def no_messages)
  have free: "gone ?A (?q, message_id_bytes m) = None"
      "spent ?A (?q, ''receive'', nonce_bytes (nonce_random f)) = None"
    using assms(3) by (simp_all add: unused_def)
  obtain rs1 rs2 where runs: "enqueue C (authorize C (sender_capability owner) m p e) now rs = (Inr Stored, rs1)"
    "fetch C (authorize_fetch C f (receiver_capability C owner) v) now rs1 =
       (Inr [envelope_of_request (authorize C (sender_capability owner) m p e)], rs2)"
    and ack: "\<And>om. ve_message_id (om_envelope om) = m \<Longrightarrow> ve_packet (om_envelope om) = p \<Longrightarrow>
      \<exists>rs3 g n. acknowledge C (authorize_ack C (receiver_capability C owner) om v) now rs2 = (Inr Deleted, rs3) \<and>
        relay_inv C (durable rs3) \<and> calls rs3 = [] \<and>
        view (uint now) (durable rs3) = ?A\<lparr>gone := (gone ?A)((?q, message_id_bytes m) \<mapsto> g),
          spent := (spent ?A)((?q, ''receive'', nonce_bytes (nonce_random f)) \<mapsto> n)\<rparr> \<and>
        (\<forall>x\<in>set (messages (durable rs3)). uint now < ms_expires_at x)"
    by (rule delivered [OF assms(1) inv quiet assms(5-9) box empty free assms(10,11)]) blast
  have "\<exists>rs3. acknowledge C (authorize_ack C (receiver_capability C owner) om v) now rs2 = (Inr Deleted, rs3) \<and>
        relay_ready C now a b rs3 \<and>
        (\<forall>other. other \<noteq> ?q \<longrightarrow> unused now other rs \<longrightarrow> unused now other rs3)"
    if om: "ve_message_id (om_envelope om) = m" "ve_packet (om_envelope om) = p" for om
  proof -
    obtain rs3 g n where rs3: "acknowledge C (authorize_ack C (receiver_capability C owner) om v) now rs2 = (Inr Deleted, rs3)"
        "relay_inv C (durable rs3)" "calls rs3 = []"
        "view (uint now) (durable rs3) = ?A\<lparr>gone := (gone ?A)((?q, message_id_bytes m) \<mapsto> g),
          spent := (spent ?A)((?q, ''receive'', nonce_bytes (nonce_random f)) \<mapsto> n)\<rparr>"
        "\<And>x. x \<in> set (messages (durable rs3)) \<Longrightarrow> uint now < ms_expires_at x"
      using ack [OF om] by blast
    have "messages (durable rs3) = []"
      by (rule swept_empty [OF rs3(5)]) (simp_all add: rs3(4) empty)
    then have "relay_ready C now a b rs3"
      using rs3(2-4) ready by (simp add: relay_ready_def)
    moreover have "unused now other rs3" if "other \<noteq> ?q" "unused now other rs" for other
      using that rs3(4) by (simp add: unused_def)
    ultimately show ?thesis
      using rs3(1) by blast
  qed
  then show thesis
    using that runs by blast
qed

lemma ready_later:
  assumes "uint t \<le> uint t'"
  shows "relay_ready C t a b rs \<Longrightarrow> relay_ready C t' a b rs" "unused t q rs \<Longrightarrow> unused t' q rs"
  using view_later [OF assms] by (simp_all add: relay_ready_def unused_def)

lemma ready_count:
  assumes "relay_ready C t a b rs" and "uint finished_at < 2 ^ 63"
  shows "fst (queued_message_count_at finished_at rs) = Inr 0"
  using assms
  by (simp add: relay_ready_def queued_message_count_at_def purge_expired_def sql_simps to_i64_def
      i64_try_from_def ok_or_def messages_table.sweep_rows)


lemma first_message_run:
  fixes C :: "('kp, 'pk, 'sig) crypto" and d :: "('acc, 'sess) demo"
  assumes laws: "crypto_laws C" "codec_laws O'" "pickle_laws O'" "handshake_laws O'" "short_messages_fit O'"
    and now: "uint now < 2 ^ 62"
    and relay: "relay_ready C now a b (dm_relay d)" "unused now (owner_queue b) (dm_relay d)"
    and k: "k \<in> set (one_time_keys O' gb)"
    and alice: "dm_alice d = alice" "account alice = mark_keys_as_published O' ga" "session alice = None"
    and bob: "dm_bob d = bob" "account bob = mark_keys_as_published O' gb" "session bob = None"
      "conversation_id bob = conversation_id alice" "displayed_messages bob = {}"
    and len: "length (conversation_id_bytes (conversation_id alice)) = 16" "\<And>i n. length (rnd i n) = n"
    and peers: "vp_curve_identity pb = curve25519_key O' gb" "vp_one_time_key pb = k" "vp_valid_until pb = now + 60"
      "vp_curve_identity pa = curve25519_key O' ga"
  obtains rs s r bob' where "first_message C O' rnd b pa pb now d =
      (Inr (), \<lparr>dm_relay = rs, dm_alice = alice\<lparr>session := Some s\<rparr>, dm_bob = bob'\<rparr>)"
    "session bob' = Some r" "conversation_id bob' = conversation_id bob"
    "\<And>m. fst (encrypt O' r m) \<noteq> None" "paired O' r s" "relay_ready C now a b rs"
    "\<And>other. other \<noteq> owner_queue b \<Longrightarrow> unused now other (dm_relay d) \<Longrightarrow> unused now other rs"
proof -
  note times = demo_deadlines [OF now]
  have before: "now < now + 60" "now < now + 3600"
    using times(1,2) by (simp_all add: in_window_def)
  then have valid: "now < vp_valid_until pb"
    by (simp add: peers(3))
  have body: "length ''phase-zero-demo-message'' \<le> 32" by simp
  obtain s0 s packet r acc where start: "start_outbound_session O' pb now alice = (Inr (), alice\<lparr>session := Some s0\<rparr>)"
    and sealed: "seal O' (rnd 4) ''phase-zero-demo-message'' now (alice\<lparr>session := Some s0\<rparr>) =
       (Inr (message_id_random (rnd 4), EncryptedPacket packet), alice\<lparr>session := Some s\<rparr>)"
    and packet: "packet \<noteq> []" "length packet \<le> MAX_PACKET_BYTES"
    and opens: "\<And>env. ve_message_id env = message_id_random (rnd 4) \<Longrightarrow> ve_packet env = EncryptedPacket packet \<Longrightarrow>
       now < ve_expires_at env \<Longrightarrow> \<exists>om. open_initial O' env pa now bob = (Inr om,
         bob\<lparr>account := acc, session := Some r, displayed_messages := {message_id_random (rnd 4)}\<rparr>) \<and>
         pm_body (om_message om) = ''phase-zero-demo-message'' \<and> om_envelope om = env"
    and pair: "\<And>m. fst (encrypt O' r m) \<noteq> None" "paired O' r s"
    by (rule first_contact [where f = "rnd 4", OF laws(2-5) k alice(2,3) bob(2-5) len(1) len(2) [of 4 16] body peers(1,2) valid peers(4)]) blast
  obtain rs1 rs2 where runs: "enqueue C (authorize C (sender_capability b) (message_id_random (rnd 4))
        (EncryptedPacket packet) (now + 3600)) now (dm_relay d) = (Inr Stored, rs1)"
    "fetch C (authorize_fetch C (rnd 5) (receiver_capability C b) (now + 60)) now rs1 =
       (Inr [envelope_of_request (authorize C (sender_capability b) (message_id_random (rnd 4))
         (EncryptedPacket packet) (now + 3600))], rs2)"
    and ack: "\<And>om. ve_message_id (om_envelope om) = message_id_random (rnd 4) \<Longrightarrow>
      ve_packet (om_envelope om) = EncryptedPacket packet \<Longrightarrow>
      \<exists>rs3. acknowledge C (authorize_ack C (receiver_capability C b) om (now + 60)) now rs2 = (Inr Deleted, rs3) \<and>
        relay_ready C now a b rs3 \<and>
        (\<forall>other. other \<noteq> owner_queue b \<longrightarrow> unused now other (dm_relay d) \<longrightarrow> unused now other rs3)"
    by (rule delivered_ready [where f = "rnd 5", OF laws(1) relay _ len(2) random_ok(2) [of "rnd 4", OF len(2)] times(1,2,5),
          where p = "EncryptedPacket packet"])
      (use packet in auto)
  let ?v = "\<lparr>ve_queue_id = mo_queue_id b, ve_message_id = message_id_random (rnd 4),
    ve_packet = EncryptedPacket packet, ve_expires_at = now + 3600\<rparr>"
  obtain om where om: "open_initial O' ?v pa now bob = (Inr om,
         bob\<lparr>account := acc, session := Some r, displayed_messages := {message_id_random (rnd 4)}\<rparr>)"
      "pm_body (om_message om) = ''phase-zero-demo-message''" "om_envelope om = ?v"
    using opens [of ?v] before(2) by auto
  obtain rs3 where rs3: "acknowledge C (authorize_ack C (receiver_capability C b) om (now + 60)) now rs2 = (Inr Deleted, rs3)"
      "relay_ready C now a b rs3"
      "\<And>other. other \<noteq> owner_queue b \<Longrightarrow> unused now other (dm_relay d) \<Longrightarrow> unused now other rs3"
    using ack [of om] om(3) by auto
  let ?bob = "bob\<lparr>account := acc, session := Some r, displayed_messages := {message_id_random (rnd 4)}\<rparr>"
  have "first_message C O' rnd b pa pb now d =
      (Inr (), \<lparr>dm_relay = rs3, dm_alice = alice\<lparr>session := Some s\<rparr>, dm_bob = ?bob\<rparr>)"
    using start sealed runs om rs3(1) alice(1) bob(1)
    by (simp add: first_message_def attempt_on attempt_pure honest_envelope [OF laws(1) before(2)] ret_def)
  then show thesis
    by (rule that) (use rs3 pair in auto)
qed

lemma reply_message_run:
  fixes C :: "('kp, 'pk, 'sig) crypto" and d :: "('acc, 'sess) demo"
  assumes laws: "crypto_laws C" "codec_laws O'" "pickle_laws O'" "short_messages_fit O'"
    and now: "uint now < 2 ^ 62"
    and relay: "relay_ready C (now + 1) a b (dm_relay d)" "unused (now + 1) (owner_queue a) (dm_relay d)"
    and s: "session (dm_bob d) = Some r" "session (dm_alice d) = Some s" "paired O' r s"
      "\<And>m. fst (encrypt O' r m) \<noteq> None"
    and conv: "conversation_id (dm_bob d) = conversation_id (dm_alice d)" "displayed_messages (dm_alice d) = {}"
    and len: "length (conversation_id_bytes (conversation_id (dm_alice d))) = 16" "\<And>i n. length (rnd i n) = n"
  obtains d' where "reply_message C O' rnd a now d = (Inr (), d')" "relay_ready C (now + 1) a b (dm_relay d')"
proof -
  note times = demo_deadlines [OF now]
  have before: "now + 1 < now + 3600"
    using times(4) by (simp add: in_window_def)
  have body: "length ''phase-zero-demo-reply'' \<le> 32" by simp
  obtain r' s' packet where sealed: "seal O' (rnd 6) ''phase-zero-demo-reply'' (now + 1) (dm_bob d) =
       (Inr (message_id_random (rnd 6), EncryptedPacket packet), (dm_bob d)\<lparr>session := Some r'\<rparr>)"
    and packet: "packet \<noteq> []" "length packet \<le> MAX_PACKET_BYTES"
    and opens: "\<And>env. ve_message_id env = message_id_random (rnd 6) \<Longrightarrow> ve_packet env = EncryptedPacket packet \<Longrightarrow>
       now + 1 < ve_expires_at env \<Longrightarrow> \<exists>om. open_message O' env (now + 1) (dm_alice d) = (Inr om,
         (dm_alice d)\<lparr>session := Some s', displayed_messages := {message_id_random (rnd 6)}\<rparr>) \<and>
         pm_body (om_message om) = ''phase-zero-demo-reply'' \<and> om_envelope om = env"
    by (rule reply_contact [where f = "rnd 6" and now = "now + 1", OF laws(2-4) s(1-4) conv len(1) len(2) [of 6 16] body]) blast
  obtain rs1 rs2 where runs: "enqueue C (authorize C (sender_capability a) (message_id_random (rnd 6))
        (EncryptedPacket packet) (now + 3600)) (now + 1) (dm_relay d) = (Inr Stored, rs1)"
    "fetch C (authorize_fetch C (rnd 7) (receiver_capability C a) (now + 61)) (now + 1) rs1 =
       (Inr [envelope_of_request (authorize C (sender_capability a) (message_id_random (rnd 6))
         (EncryptedPacket packet) (now + 3600))], rs2)"
    and ack: "\<And>om. ve_message_id (om_envelope om) = message_id_random (rnd 6) \<Longrightarrow>
      ve_packet (om_envelope om) = EncryptedPacket packet \<Longrightarrow>
      \<exists>rs3. acknowledge C (authorize_ack C (receiver_capability C a) om (now + 61)) (now + 1) rs2 = (Inr Deleted, rs3) \<and>
        relay_ready C (now + 1) a b rs3 \<and>
        (\<forall>other. other \<noteq> owner_queue a \<longrightarrow> unused (now + 1) other (dm_relay d) \<longrightarrow> unused (now + 1) other rs3)"
    by (rule delivered_ready [where f = "rnd 7", OF laws(1) relay _ len(2) random_ok(2) [of "rnd 6", OF len(2)] times(3,4,6),
          where p = "EncryptedPacket packet"])
      (use packet in auto)
  let ?v = "\<lparr>ve_queue_id = mo_queue_id a, ve_message_id = message_id_random (rnd 6),
    ve_packet = EncryptedPacket packet, ve_expires_at = now + 3600\<rparr>"
  obtain om where om: "open_message O' ?v (now + 1) (dm_alice d) = (Inr om,
         (dm_alice d)\<lparr>session := Some s', displayed_messages := {message_id_random (rnd 6)}\<rparr>)"
      "pm_body (om_message om) = ''phase-zero-demo-reply''" "om_envelope om = ?v"
    using opens [of ?v] before by auto
  obtain rs3 where rs3: "acknowledge C (authorize_ack C (receiver_capability C a) om (now + 61)) (now + 1) rs2 = (Inr Deleted, rs3)"
      "relay_ready C (now + 1) a b rs3"
    using ack [of om] om(3) by auto
  have "\<exists>d'. reply_message C O' rnd a now d = (Inr (), d') \<and> dm_relay d' = rs3"
    using sealed runs om rs3(1)
    by (simp add: reply_message_def attempt_on attempt_pure honest_envelope [OF laws(1) before] ret_def)
  then show thesis
    using that rs3(2) by blast
qed

lemma register_messages:
  assumes "register C r now s = (Inr out, s')" and "calls s = []" and "messages (durable s) = []"
  shows "messages (durable s') = []"
  using register_success [OF assms(1,2)] assms(3)
  by (auto simp: insert_registration_nonce_def insert_mailbox_def messages_table.sweep_rows
      and_then_eq_Inr_iff Let_def split: prod.splits if_splits dest!: sym [of _ "durable s'"])

lemma registered_ready:
  fixes C :: "('kp, 'pk, 'sig) crypto"
  assumes laws: "crypto_laws C" and relay: "durable rs = empty_relay_db" "calls rs = []"
    and ids: "queue_id_ok (mo_queue_id a)" "queue_id_ok (mo_queue_id b)" "owner_queue a \<noteq> owner_queue b"
    and v: "in_window (5 * 60) now v" and len: "length (f 16) = 16" "length (g 16) = 16"
  obtains rs1 rs2 where "register C (registration C f a v) now rs = (Inr True, rs1)"
    "register C (registration C g b v) now rs1 = (Inr True, rs2)"
    "relay_ready C now a b rs2" "\<And>q. unused now q rs2"
proof -
  let ?A = "view (uint now) (durable rs)"
  have inv: "relay_inv C (durable rs)"
    by (simp add: relay(1) relay_inv_empty)
  obtain rs1 where rs1: "register C (registration C f a v) now rs = (Inr True, rs1)"
      "relay_inv C (durable rs1)" "calls rs1 = []"
      "view (uint now) (durable rs1) = ?A\<lparr>boxes := (boxes ?A)(owner_queue a \<mapsto> owner_box C a)\<rparr>"
    by (rule register_honest [where f = f, OF laws inv relay(2) ids(1) len(1) v]) (simp_all add: relay(1))
  obtain rs2 where rs2: "register C (registration C g b v) now rs1 = (Inr True, rs2)"
      "relay_inv C (durable rs2)" "calls rs2 = []"
      "view (uint now) (durable rs2) = ?A\<lparr>boxes := (boxes ?A)
        (owner_queue a \<mapsto> owner_box C a, owner_queue b \<mapsto> owner_box C b)\<rparr>"
    by (rule register_honest [where f = g, OF laws rs1(2,3) ids(2) len(2) v])
      (use ids(3) in \<open>simp_all add: relay(1) rs1(4)\<close>)
  have "messages (durable rs2) = []"
    using register_messages [OF rs1(1) relay(2)] register_messages [OF rs2(1) rs1(3)] relay(1)
    by (simp add: empty_relay_db_def)
  then have "relay_ready C now a b rs2" "unused now q rs2" for q
    using rs2(2-4) ids(3) by (auto simp: relay_ready_def unused_def relay(1))
  then show thesis
    using that rs1(1) rs2(1) by blast
qed

lemma ready_count_now:
  assumes "relay_ready C t a b rs" and "0 \<le> finished_at" and "finished_at div 10 ^ 9 < 2 ^ 63"
  shows "fst (queued_message_count finished_at rs) = Inr 0"
proof -
  obtain s where s: "unix_seconds finished_at = Some s" "uint s = finished_at div 10 ^ 9"
    using unix_seconds_bounded [OF assms(2,3)] .
  then show ?thesis
    using ready_count [OF assms(1), of s] assms(3)
    by (simp add: queued_message_count_def unix_now_def ok_or_def sql_simps)
qed

lemma exchange_run:
  fixes C :: "('kp, 'pk, 'sig) crypto" and d :: "('acc, 'sess) demo"
  assumes laws: "crypto_laws C" "account_laws C O'" "codec_laws O'" "pickle_laws O'" "handshake_laws O'"
      "short_messages_fit O'"
    and times: "uint now < 2 ^ 62" "0 \<le> finished_at" "finished_at div 10 ^ 9 < 2 ^ 63"
    and rnd: "\<And>i n. length (rnd i n) = n"
    and conv: "length (conversation_id_bytes conv) = 16"
    and ids: "queue_id_ok (mo_queue_id a)" "queue_id_ok (mo_queue_id b)" "owner_queue a \<noteq> owner_queue b"
    and relay: "durable rs = empty_relay_db" "calls rs = []"
  shows "fst (demo_exchange C O' rnd a b now finished_at
    \<lparr>dm_relay = rs, dm_alice = olm_client_new x conv, dm_bob = olm_client_new y conv\<rparr>) = Inr ()"
proof -
  define ga where "ga = generate_one_time_keys O' 1 x"
  define gb where "gb = generate_one_time_keys O' 1 y"
  let ?alice = "olm_client_new x conv \<lparr>account := mark_keys_as_published O' ga\<rparr>"
  let ?bob = "olm_client_new y conv \<lparr>account := mark_keys_as_published O' gb\<rparr>"
  note window = demo_deadlines [OF times(1)]
  obtain pa ka where pa: "prekey_bundle C O' (now + 60) (olm_client_new x conv) = (Inr pa, ?alice)"
    "peer_pre_key_verify C (cpk_bytes O') pa (ed25519_key O' (mark_keys_as_published O' ga)) now =
      Inr \<lparr>vp_signing_identity = ed25519_key O' ga, vp_curve_identity = curve25519_key O' ga,
        vp_one_time_key = ka, vp_valid_until = now + 60\<rparr>"
    by (rule bundle_run [OF laws(2,5) window(1), of ga "olm_client_new x conv"])
      (auto simp: ga_def olm_client_new_def)
  obtain pb kb where pb: "prekey_bundle C O' (now + 60) (olm_client_new y conv) = (Inr pb, ?bob)"
    "peer_pre_key_verify C (cpk_bytes O') pb (ed25519_key O' (mark_keys_as_published O' gb)) now =
      Inr \<lparr>vp_signing_identity = ed25519_key O' gb, vp_curve_identity = curve25519_key O' gb,
        vp_one_time_key = kb, vp_valid_until = now + 60\<rparr>" and kb: "kb \<in> set (one_time_keys O' gb)"
    by (rule bundle_run [OF laws(2,5) window(1), of gb "olm_client_new y conv"])
      (auto simp: gb_def olm_client_new_def)
  obtain rs1 rs2 where registered: "register C (registration C (rnd 2) a (now + 60)) now rs = (Inr True, rs1)"
      "register C (registration C (rnd 3) b (now + 60)) now rs1 = (Inr True, rs2)"
    and ready: "relay_ready C now a b rs2" "\<And>q. unused now q rs2"
    by (rule registered_ready [where f = "rnd 2" and g = "rnd 3", OF laws(1) relay ids window(1) rnd [of 2 16] rnd [of 3 16]]) blast
  let ?va = "\<lparr>vp_signing_identity = ed25519_key O' ga, vp_curve_identity = curve25519_key O' ga,
        vp_one_time_key = ka, vp_valid_until = now + 60\<rparr>"
  let ?vb = "\<lparr>vp_signing_identity = ed25519_key O' gb, vp_curve_identity = curve25519_key O' gb,
        vp_one_time_key = kb, vp_valid_until = now + 60\<rparr>"
  obtain rs3 s r bob' where first: "first_message C O' rnd b ?va ?vb now
      \<lparr>dm_relay = rs2, dm_alice = ?alice, dm_bob = ?bob\<rparr> =
      (Inr (), \<lparr>dm_relay = rs3, dm_alice = ?alice\<lparr>session := Some s\<rparr>, dm_bob = bob'\<rparr>)"
    and bob': "session bob' = Some r" "conversation_id bob' = conv"
    and pair: "\<And>m. fst (encrypt O' r m) \<noteq> None" "paired O' r s"
    and rs3: "relay_ready C now a b rs3" "unused now (owner_queue a) rs3"
    by (rule first_message_run [OF laws(1,3-6) times(1), of a b
          "\<lparr>dm_relay = rs2, dm_alice = ?alice, dm_bob = ?bob\<rparr>" kb gb ?alice ga ?bob rnd ?vb ?va])
      (use ready kb conv rnd ids(3) in \<open>auto simp: olm_client_new_def\<close>)
  obtain d where reply: "reply_message C O' rnd a now
      \<lparr>dm_relay = rs3, dm_alice = ?alice\<lparr>session := Some s\<rparr>, dm_bob = bob'\<rparr> = (Inr (), d)"
    and last: "relay_ready C (now + 1) a b (dm_relay d)"
    by (rule reply_message_run [OF laws(1,3,4,6) times(1), of a b
          "\<lparr>dm_relay = rs3, dm_alice = ?alice\<lparr>session := Some s\<rparr>, dm_bob = bob'\<rparr>" r s rnd])
      (use ready_later [OF window(7)] rs3 bob' pair conv rnd in \<open>auto simp: olm_client_new_def\<close>)
  obtain rs4 where count: "queued_message_count finished_at (dm_relay d) = (Inr 0, rs4)"
    using ready_count_now [OF last times(2,3)] by (cases "queued_message_count finished_at (dm_relay d)") auto
  have "ed25519_key O' (account ?alice) = ed25519_key O' (mark_keys_as_published O' ga)"
      "ed25519_key O' (account ?bob) = ed25519_key O' (mark_keys_as_published O' gb)"
    by simp_all
  then show ?thesis
    using pa pb registered first reply count
    by (simp add: demo_exchange_def attempt_on attempt_def [of "\<lambda>d. (_ d, d)"]
        attempt_def [of "first_message C O' rnd b ?va ?vb now"] attempt_def [of "reply_message C O' rnd a now"] ret_def)
qed


section \<open>Property\<close>

lemma two_62_63: "(2 :: int) ^ 62 \<le> 2 ^ 63"
  by simp

lemma example_sqlite_laws: "sqlite_laws example_sqlite"
  by (simp add: sqlite_laws_def example_references example_manifest example_runs example_recovery)

text \<open>C3. The demonstration passes: on a new database file, with random identifiers of the right
  length, distinct queue identifiers and clocks after the epoch and far from the end of time, the
  process prints its line and exits with status 0 when the libraries behave as documented and no database call fails. The relay opens, both
  contact bundles verify, both mailboxes are registered, each message is sealed, stored,
  fetched, verified, opened to the body that was sent and acknowledged, and the relay's queue is
  empty at the end.\<close>

theorem demo_passes:
  assumes "crypto_laws C" and "account_laws C O'" and "codec_laws O'" and "pickle_laws O'"
    and "handshake_laws O'" and "short_messages_fit O'" and "sqlite_laws G"
    and "fs_metadata fs (directory @ ''/relay.sqlite'') = Inl NotFound"
    and "durable file = fresh_file" and "calls file = []"
    and "\<forall>i n. length (rnd i n) = n" and "rnd 0 32 \<noteq> rnd 1 32"
    and "\<forall>k. 0 \<le> clock k \<and> clock k div 10 ^ 9 < 2 ^ 62"
  shows "run_demo C O' G fs (Some directory) rnd a b ka kb clock file = Inr () \<and>
    exit_status (demo_main (run_demo C O' G fs (Some directory) rnd a b ka kb clock file)) = 0"
proof -
  have c: "0 \<le> clock k" "clock k div 10 ^ 9 < 2 ^ 62" for k
    using assms(13) by blast+
  note c63 = order.strict_trans2 [OF c(2) two_62_63]
  obtain now where now: "unix_seconds (clock 0) = Some now" and "uint now = clock 0 div 10 ^ 9"
    by (rule unix_seconds_bounded [OF c(1) c63])
  then have early: "uint now < 2 ^ 62"
    using c(2) by (simp only:)
  obtain opened where opened: "open_relay G fs (directory @ ''/relay.sqlite'') (clock 1) file = (Inr (), opened)"
      "calls opened = []" "durable (relay_over opened) = empty_relay_db"
    by (rule fresh_opens_now [OF assms(7,10,9,8) c(1) c63])
  show ?thesis
    using opened now exchange_run [OF assms(1-6) early c(1) c63] assms(11,12)
    by (simp add: run_demo_def demo_main_def ok_or_def and_then_def relay_over_def conversation_id_random_def
        mailbox_owner_new_def queue_id_random_def queue_id_ok_def Let_def)
qed

theorem demo_passes_witness:
  "run_demo example_crypto example_olm example_sqlite no_files (Some ''tmp'')
     (\<lambda>i n. replicate n (word_of_nat i)) 8 9 (1, 2, 3) (4, 5, 6) (\<lambda>_. 1000000000000)
     \<lparr>durable = fresh_file, working = fresh_file, calls = []\<rparr> = Inr ()"
  by (rule demo_passes [OF crypto_laws_example example_olm_laws(2,4,3) example_demo_laws example_sqlite_laws,
        THEN conjunct1])
    (simp_all add: no_files_def)

end
