(* ===== verification/Commit_Point.thy ===== *)
theory Commit_Point
  imports State_Store_History
begin

text \<open>
  Where an operation writes. \<open>commits_at n m\<close> says that the committed image changes in one call
  only, the one that follows \<open>n\<close> others: a fault before it, or a failure of that very call, leaves the
  image as it was, and once it has been carried out, answered or not, the image is that of the run
  without faults. The locale \<open>committing\<close> draws the consequence for a process that dies, and it
  holds for the creation and the commit of the state store.
\<close>

section \<open>Programs that do not write\<close>

text \<open>\<open>reads n m\<close>: the program never changes the committed image; a successful run makes \<open>n\<close> calls, all
  of them answered, and it is then the run without faults.\<close>

definition reads :: "nat \<Rightarrow> (('db, 'z) conn_scheme, 'a) prog \<Rightarrow> bool" where
  "reads n m \<longleftrightarrow> (\<forall>s. durable (snd (m s)) = durable s \<and>
     (\<not> set (take n (calls s)) \<subseteq> {Call_ok} \<longrightarrow> isl (fst (m s))) \<and>
     (set (take n (calls s)) \<subseteq> {Call_ok} \<longrightarrow> fst (m s) = fst (m (s\<lparr>calls := []\<rparr>)) \<and>
        (\<forall>x. fst (m s) = Inr x \<longrightarrow> snd (m s) = (snd (m (s\<lparr>calls := []\<rparr>)))\<lparr>calls := drop n (calls s)\<rparr>)))"

lemma reads_durable: "reads n m \<Longrightarrow> durable (snd (m s)) = durable s"
  by (simp add: reads_def)

lemma reads_faulty: "reads n m \<Longrightarrow> \<not> set (take n (calls s)) \<subseteq> {Call_ok} \<Longrightarrow> isl (fst (m s))"
  unfolding reads_def by blast

lemma reads_answered:
  assumes "reads n m" and "set (take n (calls s)) \<subseteq> {Call_ok}"
  shows "fst (m s) = fst (m (s\<lparr>calls := []\<rparr>))"
    and "fst (m s) = Inr x \<Longrightarrow> snd (m s) = (snd (m (s\<lparr>calls := []\<rparr>)))\<lparr>calls := drop n (calls s)\<rparr>"
  using assms unfolding reads_def by blast+

text \<open>The state after a successful run, with the rest of its calls answered.\<close>

lemma reads_rest:
  assumes "reads n m" and "set (take n (calls s)) \<subseteq> {Call_ok}" and "fst (m s) = Inr x"
  shows "calls (snd (m s)) = drop n (calls s)"
    and "m (s\<lparr>calls := []\<rparr>) = (Inr x, (snd (m s))\<lparr>calls := []\<rparr>)"
proof -
  have s: "snd (m s) = (snd (m (s\<lparr>calls := []\<rparr>)))\<lparr>calls := drop n (calls s)\<rparr>"
    and r: "fst (m (s\<lparr>calls := []\<rparr>)) = Inr x"
    using reads_answered(2) [OF assms] reads_answered(1) [OF assms(1,2)] assms(3) by simp_all
  show "calls (snd (m s)) = drop n (calls s)"
    unfolding s by simp
  have "snd (m (s\<lparr>calls := []\<rparr>)) = (snd (m (s\<lparr>calls := []\<rparr>)))\<lparr>calls := []\<rparr>"
    using reads_answered(2) [OF assms(1), of "s\<lparr>calls := []\<rparr>" x] r by simp
  then have "snd (m (s\<lparr>calls := []\<rparr>)) = (snd (m s))\<lparr>calls := []\<rparr>"
    unfolding s by simp
  with r show "m (s\<lparr>calls := []\<rparr>) = (Inr x, (snd (m s))\<lparr>calls := []\<rparr>)"
    by (simp add: prod_eq_iff)
qed

lemma take_answered:
  assumes "a \<le> n"
  shows "set (take n cs) \<subseteq> {Call_ok} \<longleftrightarrow>
    set (take a cs) \<subseteq> {Call_ok} \<and> set (take (n - a) (drop a cs)) \<subseteq> {Call_ok}"
proof -
  have "take n cs = take a cs @ take (n - a) (drop a cs)"
    using assms take_add [of a "n - a" cs] by simp
  then show ?thesis by simp
qed

lemma reads_attempt:
  assumes m: "reads a m" and "a \<le> n" and f: "\<And>x. reads (n - a) (f x)"
  shows "reads n (attempt m f)"
  unfolding reads_def
proof
  fix s :: "('a, 'b) conn_scheme"
  let ?s0 = "s\<lparr>calls := []\<rparr>"
  show "durable (snd (attempt m f s)) = durable s \<and>
     (\<not> set (take n (calls s)) \<subseteq> {Call_ok} \<longrightarrow> isl (fst (attempt m f s))) \<and>
     (set (take n (calls s)) \<subseteq> {Call_ok} \<longrightarrow> fst (attempt m f s) = fst (attempt m f ?s0) \<and>
        (\<forall>x. fst (attempt m f s) = Inr x \<longrightarrow>
          snd (attempt m f s) = (snd (attempt m f ?s0))\<lparr>calls := drop n (calls s)\<rparr>))"
  proof (cases "fst (m s)")
    case (Inl e)
    then have "fst (m ?s0) = Inl e" if "set (take n (calls s)) \<subseteq> {Call_ok}"
      using reads_answered(1) [OF m, of s] that take_answered [OF assms(2)] by simp
    with Inl show ?thesis
      using reads_durable [OF m] by (auto simp: attempt_Inl)
  next
    case (Inr x)
    then have ok: "set (take a (calls s)) \<subseteq> {Call_ok}"
      using reads_faulty [OF m, of s] by auto
    note rest = reads_rest [OF m ok Inr]
    have run: "attempt m f s = f x (snd (m s))" "attempt m f ?s0 = f x ((snd (m s))\<lparr>calls := []\<rparr>)"
      using Inr rest(2) by (simp_all add: attempt_Inr)
    have "drop (n - a) (calls (snd (m s))) = drop n (calls s)"
      using rest(1) assms(2) by simp
    moreover have "set (take (n - a) (calls (snd (m s)))) \<subseteq> {Call_ok} \<longleftrightarrow> set (take n (calls s)) \<subseteq> {Call_ok}"
      using ok rest(1) take_answered [OF assms(2), of "calls s"] by simp
    ultimately show ?thesis
      using f [of x, unfolded reads_def, rule_format, of "snd (m s)"] reads_durable [OF m, of s]
      unfolding run by simp
  qed
qed

lemma reads_call:
  assumes "\<And>s cs. g (s\<lparr>calls := cs\<rparr>) = (fst (g s), (snd (g s))\<lparr>calls := cs\<rparr>)"
    and "\<And>s. durable (snd (g s)) = durable s"
  shows "reads 1 (db_call g)"
  unfolding reads_def
proof
  fix s
  have base: "g (s\<lparr>calls := cs\<rparr>) =
      (fst (g (s\<lparr>calls := []\<rparr>)), (snd (g (s\<lparr>calls := []\<rparr>)))\<lparr>calls := cs\<rparr>)" for cs
    using assms(1) [where s = s and cs = cs] assms(1) [where s = s and cs = "[]"] by simp
  have image: "durable (snd (g (s\<lparr>calls := cs\<rparr>))) = durable s" for cs
    by (simp add: assms(2))
  have clean: "db_call g (s\<lparr>calls := []\<rparr>) = g (s\<lparr>calls := []\<rparr>)"
    by (simp add: db_call_def)
  show "durable (snd (db_call g s)) = durable s \<and>
     (\<not> set (take 1 (calls s)) \<subseteq> {Call_ok} \<longrightarrow> isl (fst (db_call g s))) \<and>
     (set (take 1 (calls s)) \<subseteq> {Call_ok} \<longrightarrow> fst (db_call g s) = fst (db_call g (s\<lparr>calls := []\<rparr>)) \<and>
        (\<forall>x. fst (db_call g s) = Inr x \<longrightarrow>
          snd (db_call g s) = (snd (db_call g (s\<lparr>calls := []\<rparr>)))\<lparr>calls := drop 1 (calls s)\<rparr>))"
  proof (cases "calls s")
    case Nil
    then have "s\<lparr>calls := []\<rparr> = s"
      by (cases s) simp
    then have "db_call g s = g (s\<lparr>calls := []\<rparr>)"
      using clean by simp
    then show ?thesis
      unfolding clean using Nil image [of "[]"] arg_cong [OF base [of "[]"], of snd] by simp
  next
    case (Cons c cs)
    then have "db_call g s = (case c of Call_ok \<Rightarrow> g (s\<lparr>calls := cs\<rparr>)
        | Call_fails \<Rightarrow> (Inl Storage, s\<lparr>calls := cs\<rparr>) | Call_unknown \<Rightarrow> (Inl Storage, snd (g (s\<lparr>calls := cs\<rparr>))))"
      by (simp add: db_call_def split: call_outcome.split)
    then show ?thesis
      unfolding clean using Cons image [of cs] arg_cong [OF base [of cs], of fst] arg_cong [OF base [of cs], of snd]
      by (cases c) simp_all
  qed
qed

lemma reads_calls:
  "reads 1 begin_immediate" "reads 1 (execute g)" "reads 1 (query h)" "reads 1 run_settings"
  unfolding begin_immediate_def execute_def query_def run_settings_def
  by (rule reads_call; simp split: sum.split prod.split)+

lemma reads_autocommit:
  assumes "reads n m"
  shows "reads n (autocommit m)"
  unfolding reads_def autocommit_def
proof
  fix s
  show "durable (snd (m (s\<lparr>working := durable s\<rparr>))) = durable s \<and>
     (\<not> set (take n (calls s)) \<subseteq> {Call_ok} \<longrightarrow> isl (fst (m (s\<lparr>working := durable s\<rparr>)))) \<and>
     (set (take n (calls s)) \<subseteq> {Call_ok} \<longrightarrow> fst (m (s\<lparr>working := durable s\<rparr>)) =
          fst (m (s\<lparr>calls := [], working := durable (s\<lparr>calls := []\<rparr>)\<rparr>)) \<and>
        (\<forall>x. fst (m (s\<lparr>working := durable s\<rparr>)) = Inr x \<longrightarrow> snd (m (s\<lparr>working := durable s\<rparr>)) =
          (snd (m (s\<lparr>calls := [], working := durable (s\<lparr>calls := []\<rparr>)\<rparr>)))\<lparr>calls := drop n (calls s)\<rparr>))"
    using assms [unfolded reads_def, rule_format, of "s\<lparr>working := durable s\<rparr>"] by (cases s) simp
qed

lemma reads_pure: "reads n (throw e)" "reads 0 (ret x)" "reads 0 (pure_result r)"
  by (simp_all add: reads_def throw_def ret_def pure_result_def)

lemma reads_ret: "n = 0 \<Longrightarrow> reads n (ret x)"
  by (simp add: reads_pure)

lemma reads_branch: "reads n m \<Longrightarrow> reads n m' \<Longrightarrow> reads n (if b then m else m')"
  by simp

lemmas reads_rules = reads_pure(1) reads_ret reads_branch reads_attempt [OF reads_calls(1)]
  reads_attempt [OF reads_calls(2)] reads_attempt [OF reads_calls(3)] reads_attempt [OF reads_calls(4)]
  reads_attempt [OF reads_pure(3)]

section \<open>Programs that write once\<close>

definition commits_at :: "nat \<Rightarrow> (('db, 'z) conn_scheme, 'a) prog \<Rightarrow> bool" where
  "commits_at n m \<longleftrightarrow> (\<forall>s. durable (snd (m s)) =
     (if \<not> set (take n (calls s)) \<subseteq> {Call_ok} \<or> take 1 (drop n (calls s)) = [Call_fails] then durable s
      else durable (snd (m (s\<lparr>calls := []\<rparr>)))))"

lemma commits_at_commit:
  assumes "n = 0" and "\<And>s. durable (snd (g () s)) = durable s"
  shows "commits_at n (attempt commit g)"
  unfolding commits_at_def assms(1)
proof
  fix s :: "('a, 'b) conn_scheme"
  show "durable (snd (attempt commit g s)) =
     (if \<not> set (take 0 (calls s)) \<subseteq> {Call_ok} \<or> take 1 (drop 0 (calls s)) = [Call_fails] then durable s
      else durable (snd (attempt commit g (s\<lparr>calls := []\<rparr>))))"
    using assms(2)
    by (cases "calls s"; cases "hd (calls s)") (simp_all add: attempt_def commit_def db_call_def)
qed

lemma commits_at_attempt:
  assumes m: "reads a m" and "a \<le> n" and f: "\<And>x. commits_at (n - a) (f x)"
  shows "commits_at n (attempt m f)"
  unfolding commits_at_def
proof
  fix s :: "('a, 'b) conn_scheme"
  let ?s0 = "s\<lparr>calls := []\<rparr>"
  have kept: "durable (snd (m t)) = durable t" for t
    using m by (rule reads_durable)
  show "durable (snd (attempt m f s)) =
     (if \<not> set (take n (calls s)) \<subseteq> {Call_ok} \<or> take 1 (drop n (calls s)) = [Call_fails] then durable s
      else durable (snd (attempt m f ?s0)))"
  proof (cases "fst (m s)")
    case (Inl e)
    then have "fst (m ?s0) = Inl e" if "set (take n (calls s)) \<subseteq> {Call_ok}"
      using reads_answered(1) [OF m, of s] that take_answered [OF assms(2)] by simp
    then have "durable (snd (attempt m f ?s0)) = durable s" if "set (take n (calls s)) \<subseteq> {Call_ok}"
      using that kept [of ?s0] by (simp add: attempt_Inl)
    with Inl show ?thesis
      using kept by (auto simp: attempt_Inl)
  next
    case (Inr x)
    then have ok: "set (take a (calls s)) \<subseteq> {Call_ok}"
      using reads_faulty [OF m, of s] by auto
    note rest = reads_rest [OF m ok Inr]
    have run: "attempt m f s = f x (snd (m s))" "attempt m f ?s0 = f x ((snd (m s))\<lparr>calls := []\<rparr>)"
      using Inr rest(2) by (simp_all add: attempt_Inr)
    have "drop (n - a) (calls (snd (m s))) = drop n (calls s)"
      using rest(1) assms(2) by simp
    moreover have "set (take (n - a) (calls (snd (m s)))) \<subseteq> {Call_ok} \<longleftrightarrow> set (take n (calls s)) \<subseteq> {Call_ok}"
      using ok rest(1) take_answered [OF assms(2), of "calls s"] by simp
    ultimately show ?thesis
      using f [of x, unfolded commits_at_def, rule_format, of "snd (m s)"] kept [of s]
      unfolding run by simp
  qed
qed

lemma commits_at_branch:
  "commits_at n m \<Longrightarrow> commits_at n m' \<Longrightarrow> commits_at n (if b then m else m')"
  "commits_at n (throw e)"
  by (simp_all add: commits_at_def throw_def)

text \<open>An operation that writes once: \<open>point\<close> calls come before its commit. A process that dies before the
  commit is carried out leaves the old image, and one that dies later, even inside the commit,
  leaves the image of the run without faults.\<close>

locale committing =
  fixes operation :: "('db, 'z) conn_scheme \<Rightarrow> 'a result \<times> ('db, 'z) conn_scheme" and point :: nat
  assumes writes_once: "commits_at point operation"
begin

lemma death_boundary:
  "dies_during k took_effect operation s =
    (if k < point \<or> k = point \<and> \<not> took_effect then durable s else durable (snd (operation (s\<lparr>calls := []\<rparr>))))"
proof -
  let ?c = "if took_effect then Call_unknown else Call_fails"
  let ?cs = "replicate k Call_ok @ [?c]"
  have "\<not> set (take point ?cs) \<subseteq> {Call_ok} \<or> take 1 (drop point ?cs) = [Call_fails] \<longleftrightarrow>
      k < point \<or> k = point \<and> \<not> took_effect"
    by (cases k point rule: linorder_cases) (auto simp: take_Cons' drop_Cons')
  then show ?thesis
    using writes_once [unfolded commits_at_def, rule_format, of "s\<lparr>calls := ?cs\<rparr>"]
    by (simp add: dies_during_def)
qed

end

section \<open>The state store's operations\<close>

lemma store_reads:
  "reads 2 (open_connection fs path)" "reads 4 (validate_empty_database L)"
  "reads 1 activate_storage_settings" "reads 1 create_schema"
  unfolding open_connection_def validate_empty_database_def activate_storage_settings_def create_schema_def
  by (intro reads_rules reads_calls [unfolded One_nat_def] reads_calls; simp add: reads_calls [unfolded One_nat_def])+

lemma validate_schema_reads: "reads 9 (validate_schema L)"
proof -
  have parts: "reads 1 (validate_table_list L)" "reads 1 (validate_table_xinfo L)"
      "reads 2 (validate_no_indexes_or_foreign_keys L)"
    unfolding validate_table_list_def validate_table_xinfo_def validate_no_indexes_or_foreign_keys_def
    by (intro reads_rules; simp)+
  show ?thesis
    unfolding validate_schema_def by (intro reads_rules parts [THEN reads_attempt]; simp)
qed

lemma get_handle_reads: "reads 0 get_handle"
  by (simp add: reads_def get_handle_def)

lemmas store_commit_rules = commits_at_branch commits_at_commit commits_at_attempt [OF reads_pure(3)]
  commits_at_attempt [OF get_handle_reads] commits_at_attempt [OF reads_calls(1)]
  commits_at_attempt [OF reads_calls(2)] commits_at_attempt [OF validate_schema_reads]
  store_reads [THEN commits_at_attempt] commits_at_attempt [OF reads_autocommit [OF store_reads(2)]]

interpretation commit_death: committing "commit_inner A L state draw" 11 for A L state draw
proof unfold_locales
  show "commits_at 11 (commit_inner A L state draw)"
    unfolding commit_inner_def
    by (intro store_commit_rules; simp add: modify_state_def)
qed

interpretation create_death: committing "create_with_rng A L fs path P state d n" 23
  for A L fs path P state d n
proof unfold_locales
  show "commits_at 23 (create_with_rng A L fs path P state d n)"
    unfolding create_with_rng_def
    by (intro store_commit_rules; simp add: ret_def)
qed

end
