(* ===== verification/State_Testbed.thy ===== *)
theory State_Testbed
  imports State_Store_History
begin

text \<open>
  The test doubles of \<^verbatim>\<open>src/src/persistence/sqlite.rs\<close> and the runs its unit tests are made of:
  the software protector, the counting random source, and one creation, opening or commit on a
  database image with every call answered. The lemmas show that the protector meets the
  contract of a platform protector and what each of these runs returns.
\<close>

unbundle bit_operations_syntax

section \<open>The test protector\<close>

record test_protector =
  tp_binding :: profile_binding
  tp_mask :: bytes

definition test_protector_new :: "byte \<Rightarrow> byte \<Rightarrow> test_protector" where
  "test_protector_new profile key =
     \<lparr>tp_binding = \<lparr>pb_profile_id = replicate 16 profile, pb_key_ref = replicate 16 key\<rparr>,
      tp_mask = replicate DEK_BYTES key\<rparr>"

definition test_protector_with_mask :: "byte \<Rightarrow> byte \<Rightarrow> byte \<Rightarrow> test_protector" where
  "test_protector_with_mask profile key masked =
     \<lparr>tp_binding = \<lparr>pb_profile_id = replicate 16 profile, pb_key_ref = replicate 16 key\<rparr>,
      tp_mask = replicate DEK_BYTES masked\<rparr>"

definition WRAP_PREFIX :: bytes where
  "WRAP_PREFIX = ascii ''state-wrap/v1''"

definition xor_mask :: "bytes \<Rightarrow> bytes \<Rightarrow> bytes" where
  "xor_mask values masks = map2 (\<lambda>value m. value XOR m) values masks"

definition test_wrap_dek :: "test_protector \<Rightarrow> bytes \<Rightarrow> bytes result" where
  "test_wrap_dek t dek = Inr (WRAP_PREFIX @ pb_profile_id (tp_binding t) @ pb_key_ref (tp_binding t) @
     xor_mask dek (tp_mask t))"

definition test_unwrap_dek :: "test_protector \<Rightarrow> bytes \<Rightarrow> bytes result" where
  "test_unwrap_dek t wrapped =
     (let expected = length WRAP_PREFIX + 16 + 16 + DEK_BYTES in
      if length wrapped \<noteq> expected then Inl Storage
      else if take (length WRAP_PREFIX) wrapped \<noteq> WRAP_PREFIX \<or>
        take 16 (drop (length WRAP_PREFIX) wrapped) \<noteq> pb_profile_id (tp_binding t) \<or>
        take 16 (drop (length WRAP_PREFIX + 16) wrapped) \<noteq> pb_key_ref (tp_binding t)
      then Inl Storage
      else Inr (xor_mask (drop (length WRAP_PREFIX + 32) wrapped) (tp_mask t)))"

definition state_key_protector :: "test_protector \<Rightarrow> protector" where
  "state_key_protector t =
     \<lparr>expected_binding = Inr (tp_binding t), p_protection_level = SoftwareBacked,
      wrap_dek = test_wrap_dek t, unwrap_dek = test_unwrap_dek t\<rparr>"

definition test_protector_ok :: "test_protector \<Rightarrow> bool" where
  "test_protector_ok t \<longleftrightarrow> binding_ok (tp_binding t) \<and> length (tp_mask t) = DEK_BYTES"

lemma test_protectors_ok [simp]:
  "test_protector_ok (test_protector_new p k)" "test_protector_ok (test_protector_with_mask p k m)"
  by (simp_all add: test_protector_ok_def test_protector_new_def test_protector_with_mask_def
      binding_ok_def)

lemma length_WRAP_PREFIX [simp]: "length WRAP_PREFIX = 13"
  by (simp add: WRAP_PREFIX_def)

lemma xor_mask_cancel: "length xs = length ks \<Longrightarrow> xor_mask (xor_mask xs ks) ks = xs"
  unfolding xor_mask_def by (induction xs ks rule: list_induct2) (simp_all add: xor.assoc)

lemma length_xor_mask [simp]: "length (xor_mask xs ks) = min (length xs) (length ks)"
  by (simp add: xor_mask_def)

lemma test_wrap_unwrap:
  assumes "test_protector_ok t" and "length dek = 32"
  shows "\<exists>w. test_wrap_dek t dek = Inr w \<and> length w = 77 \<and> test_unwrap_dek t w = Inr dek"
  using assms xor_mask_cancel [of dek "tp_mask t"]
  by (simp add: test_wrap_dek_def test_unwrap_dek_def test_protector_ok_def binding_ok_def DEK_BYTES_def)

text \<open>The test protector meets the contract of a platform protector.\<close>

lemma test_protector_laws:
  assumes "test_protector_ok t"
  shows "protector_laws (state_key_protector t)"
  unfolding protector_laws_def
proof (intro conjI allI impI)
  fix dek w
  assume "length dek = 32" "wrap_dek (state_key_protector t) dek = Inr w"
  then show "unwrap_dek (state_key_protector t) w = Inr dek"
    using test_wrap_unwrap [OF assms, of dek] by (auto simp: state_key_protector_def)
qed (use assms in \<open>simp add: state_key_protector_def test_protector_ok_def\<close>)

section \<open>The test random source\<close>

record test_rng =
  tr_next :: byte
  tr_fail :: bool

primrec count_from :: "nat \<Rightarrow> byte \<Rightarrow> bytes \<times> byte" where
  "count_from 0 b = ([], b)"
| "count_from (Suc n) b = (let (bs, b') = count_from n (b + 1) in (b # bs, b'))"

definition try_fill_bytes :: "nat \<Rightarrow> test_rng \<Rightarrow> bytes option \<times> test_rng" where
  "try_fill_bytes n r =
     (if tr_fail r then (None, r)
      else let (bs, b) = count_from n (tr_next r) in (Some bs, r\<lparr>tr_next := b\<rparr>))"

lemma count_from_shape:
  "length (fst (count_from n b)) = n" "snd (count_from n b) = b + word_of_nat n"
  by (induction n arbitrary: b) (simp_all add: case_prod_beta)

lemma count_from_hd: "n \<noteq> 0 \<Longrightarrow> hd (fst (count_from n b)) = b"
  by (cases n) (simp_all add: case_prod_beta)

section \<open>Runs on an image\<close>

text \<open>\<^verbatim>\<open>Connection::open\<close> on a database without failing calls.\<close>

definition connect :: "state_db \<Rightarrow> state_db conn" where
  "connect db = \<lparr>durable = db, working = db, calls = []\<rparr>"

definition create_at ::
    "aead \<Rightarrow> catalog \<Rightarrow> file_system \<Rightarrow> string \<Rightarrow> test_protector \<Rightarrow> bytes \<Rightarrow> bytes option \<Rightarrow> bytes option \<Rightarrow>
     state_db \<Rightarrow> state_handle result \<times> state_db" where
  "create_at A L fs path t state dek nonce db =
     (case create_with_rng A L fs path (state_key_protector t) state dek nonce (connect db) of
        (r, c) \<Rightarrow> (r, durable c))"

definition open_image ::
    "aead \<Rightarrow> catalog \<Rightarrow> file_system \<Rightarrow> string \<Rightarrow> test_protector \<Rightarrow> state_db \<Rightarrow> state_handle result" where
  "open_image A L fs path t db = fst (open_store A L fs path (state_key_protector t) (connect db))"

definition commit_at ::
    "aead \<Rightarrow> catalog \<Rightarrow> bytes \<Rightarrow> bytes option \<Rightarrow> state_handle \<Rightarrow> state_db \<Rightarrow>
     unit result \<times> state_handle \<times> state_db" where
  "commit_at A L state nonce h db =
     (case commit_with_rng A L state nonce \<lparr>durable = db, working = db, calls = [], handle = h\<rparr> of
        (r, s) \<Rightarrow> (r, handle s, durable s))"

text \<open>What the tests rely on: lawful libraries, an encryption that does not fail, and no
  anomalous companion file.\<close>

definition testbed :: "aead \<Rightarrow> catalog \<Rightarrow> file_system \<Rightarrow> string \<Rightarrow> bool" where
  "testbed A L fs path \<longleftrightarrow> aead_laws A \<and> catalog_laws L \<and> reject_anomalous_wal fs path = Inr () \<and>
     (\<forall>k n ad m. aead_encrypt A k n ad m \<noteq> None)"

text \<open>\<open>healthy A t h db\<close>: the handle is usable and sound for the protector, and the image is its own.\<close>

definition healthy :: "aead \<Rightarrow> test_protector \<Rightarrow> state_handle \<Rightarrow> state_db \<Rightarrow> bool" where
  "healthy A t h db \<longleftrightarrow> handle_ok A (state_key_protector t) h \<and> store_image db (handle_image h) \<and>
     \<not> sh_poisoned h"

text \<open>\<open>created A t state dek nonce h db\<close>: what a successful creation leaves.\<close>

definition created ::
    "aead \<Rightarrow> test_protector \<Rightarrow> bytes \<Rightarrow> bytes \<Rightarrow> bytes \<Rightarrow> state_handle \<Rightarrow> state_db \<Rightarrow> bool" where
  "created A t state dek nonce h db \<longleftrightarrow> healthy A t h db \<and> sh_state h = state \<and> sh_generation h = 1 \<and>
     sh_nonce h = nonce \<and> sh_dek h = dek \<and> sh_binding h = tp_binding t \<and>
     test_wrap_dek t dek = Inr (sh_wrapped_dek h)"

lemma create_run_created:
  assumes "aead_laws A" and "test_protector_ok t" and "length nonce = 24"
    and run: "create_with_rng A L fs path (state_key_protector t) state (Some dek) (Some nonce)
      (connect empty_state_db) = (Inr h, c')"
  shows "created A t state dek nonce h (durable c')"
proof -
  let ?c = "connect empty_state_db"
  have fresh: "calls ?c = []" "schema_objects (durable ?c) = [] \<longrightarrow> client_state (durable ?c) = []"
    by (simp_all add: connect_def empty_state_db_def)
  have "handle_ok A (state_key_protector t) h \<and> store_image (durable c') (handle_image h)"
    using create_synced [OF run fresh(2) assms(1) test_protector_laws [OF assms(2)]] assms(3) by simp
  then show ?thesis
    using create_faultless [OF run fresh] by (auto simp: created_def healthy_def state_key_protector_def)
qed

lemma create_run_succeeds:
  assumes "testbed A L fs path" and "test_protector_ok t" and "length dek = 32" and "length nonce = 24"
    and "length state \<le> MAX_PLAINTEXT_BYTES" and "calls c = []" and "durable c = empty_state_db"
  shows "\<exists>h c'. create_with_rng A L fs path (state_key_protector t) state (Some dek) (Some nonce) c =
    (Inr h, c')"
proof -
  obtain w where w: "test_wrap_dek t dek = Inr w" "length w = 77" "w \<noteq> []"
    using test_wrap_unwrap [OF assms(2,3)] by fastforce
  have P: "expected_binding (state_key_protector t) = Inr (tp_binding t)" "binding_ok (tp_binding t)"
      "wrap_dek (state_key_protector t) dek = Inr w"
    using w(1) assms(2) by (simp_all add: state_key_protector_def test_protector_ok_def)
  show ?thesis
    using create_succeeds [OF _ _ _ assms(6,7) P _ _ assms(3,4,5), of A L fs path] assms(1) w(2,3)
    by (auto simp: testbed_def WRAPPED_DEK_MAX_BYTES_def)
qed

lemma create_at_succeeds:
  assumes "testbed A L fs path" and "test_protector_ok t" and "length dek = 32" and "length nonce = 24"
    and "length state \<le> MAX_PLAINTEXT_BYTES"
  obtains h db where "create_at A L fs path t state (Some dek) (Some nonce) empty_state_db = (Inr h, db)"
    "created A t state dek nonce h db"
proof -
  obtain h c' where run: "create_with_rng A L fs path (state_key_protector t) state (Some dek) (Some nonce)
      (connect empty_state_db) = (Inr h, c')"
    using create_run_succeeds [OF assms, of "connect empty_state_db"] by (auto simp: connect_def)
  then show thesis
    using that create_run_created [OF _ assms(2,4) run] assms(1) by (simp add: create_at_def testbed_def)
qed

lemma create_at_refused:
  assumes "\<And>h c'. create_with_rng A L fs path (state_key_protector t) state d n (connect db) \<noteq> (Inr h, c')"
  obtains e where "create_at A L fs path t state d n db = (Inl e, db)"
proof -
  obtain e c' where run: "create_with_rng A L fs path (state_key_protector t) state d n (connect db) = (Inl e, c')"
    using assms by (metis prod.exhaust sum.exhaust)
  then show thesis
    using that create_tx.error_keeps_store [OF run] by (simp add: create_at_def connect_def certain_def)
qed

lemma open_image_of:
  assumes "testbed A L fs path" and "handle_ok A (state_key_protector t) h"
    and "store_image db (handle_image h)"
  shows "open_image A L fs path t db = Inr (h\<lparr>sh_poisoned := False\<rparr>)"
  using open_store_of_image [of L fs path "connect db" A "state_key_protector t" h] assms
  by (simp add: open_image_def testbed_def connect_def)

lemma open_image_healthy:
  "testbed A L fs path \<Longrightarrow> healthy A t h db \<Longrightarrow> open_image A L fs path t db = Inr h"
  using open_image_of [of A L fs path t h db] by (simp add: healthy_def)

lemma commit_at_succeeds:
  assumes "testbed A L fs path" and "healthy A t h db" and "uint (sh_generation h) + 1 < 2 ^ 63"
    and "length nonce = 24" and "length state \<le> MAX_PLAINTEXT_BYTES"
  obtains h' db' where "commit_at A L state (Some nonce) h db = (Inr (), h', db')" "healthy A t h' db'"
    "next_version h state h'" "sh_nonce h' = nonce"
proof -
  let ?s = "\<lparr>durable = db, working = db, calls = [], handle = h\<rparr>"
  have laws: "aead_laws A" "catalog_laws L"
    and s: "synced A (state_key_protector t) ?s" "\<not> sh_poisoned (handle ?s)" "calls ?s = []"
    using assms(1,2) by (simp_all add: testbed_def healthy_def synced_def)
  obtain s' where run: "commit_with_rng A L state (Some nonce) ?s = (Inr (), s')"
    using commit_succeeds [OF laws s(3,1,2) _ assms(4,5)] assms(1,3) by (auto simp: testbed_def)
  have "next_version h state (handle s')" "synced A (state_key_protector t) s'" "\<not> sh_poisoned (handle s')"
    using commit_next_version [OF laws(1) _ _ _ run, of "state_key_protector t" "handle_image h"] s(1) assms(4)
    by (simp_all add: synced_def)
  moreover have "sh_nonce (handle s') = nonce"
    using commit_inner_success run unfolding commit_with_rng_Inr by (fastforce simp: next_handle_def)
  ultimately show thesis
    using that [of "handle s'" "durable s'"] run by (simp add: commit_at_def healthy_def synced_def)
qed

text \<open>A commit that cannot succeed leaves the image and poisons the handle.\<close>

lemma commit_at_refused:
  assumes "\<And>s'. commit_with_rng A L state nonce \<lparr>durable = db, working = db, calls = [], handle = h\<rparr> \<noteq>
    (Inr (), s')"
  obtains e where "commit_at A L state nonce h db = (Inl e, h\<lparr>sh_poisoned := True\<rparr>, db)"
proof -
  let ?s = "\<lparr>durable = db, working = db, calls = [], handle = h\<rparr>"
  obtain e s' where run: "commit_with_rng A L state nonce ?s = (Inl e, s')"
    using assms by (cases rule: commit_cases [of A L state nonce ?s]) auto
  then show thesis
    using that commit_failure [OF run]
    by (auto simp: commit_at_def uncertain_commit_def certain_def)
qed

lemma commit_at_stale:
  assumes "store_image db r" and "r \<noteq> handle_image h"
  obtains e where "commit_at A L state nonce h db = (Inl e, h\<lparr>sh_poisoned := True\<rparr>, db)"
proof (rule commit_at_refused)
  show "commit_with_rng A L state nonce \<lparr>durable = db, working = db, calls = [], handle = h\<rparr> \<noteq>
      (Inr (), s')" for s'
    using commit_success [of A L state nonce "\<lparr>durable = db, working = db, calls = [], handle = h\<rparr>" s' r] assms
    by auto
qed

lemma commit_at_poisoned:
  "sh_poisoned h \<Longrightarrow> commit_at A L state nonce h db = (Inl Storage, h, db)"
  by (simp add: commit_at_def commit_with_rng_def)

lemma commit_at_invalid:
  assumes "\<not> schema_valid L db"
  obtains e where "commit_at A L state nonce h db = (Inl e, h\<lparr>sh_poisoned := True\<rparr>, db)"
proof (rule commit_at_refused)
  show "commit_with_rng A L state nonce \<lparr>durable = db, working = db, calls = [], handle = h\<rparr> \<noteq>
      (Inr (), s')" for s'
    using assms commit_inner_success unfolding commit_with_rng_Inr by fastforce
qed

lemma open_image_invalid:
  assumes "testbed A L fs path" and "\<not> schema_valid L db"
  shows "open_image A L fs path t db = Inl Storage"
  using assms
  by (simp add: open_image_def open_store_def connect_def state_key_protector_def testbed_def sql_simps)

end
