(* ===== verification/State_Tests.thy ===== *)
theory State_Tests
  imports Commit_Point State_Testbed
begin

text \<open>
  The unit tests of \<^verbatim>\<open>src/src/persistence/sqlite.rs\<close> as definitions over the model, each in the
  order of its statements: \<^verbatim>\<open>?\<close> is \<open>and_then\<close>, and a failed assertion fails the test as an error
  does. \<open>draw i n\<close> is the \<open>i\<close>-th draw from the system's random source, of \<open>n\<close> bytes.
\<close>

section \<open>Steps of a test\<close>

definition assert_that :: "bool \<Rightarrow> unit result" where
  "assert_that b = ensure b Storage"

definition created_then ::
    "state_handle result \<times> state_db \<Rightarrow> (state_handle \<Rightarrow> state_db \<Rightarrow> unit result) \<Rightarrow> unit result" where
  "created_then run k = and_then (fst run) (\<lambda>store. k store (snd run))"

definition committed_then ::
    "unit result \<times> state_handle \<times> state_db \<Rightarrow> (state_handle \<Rightarrow> state_db \<Rightarrow> unit result) \<Rightarrow> unit result" where
  "committed_then run k = and_then (fst run) (\<lambda>_. k (fst (snd run)) (snd (snd run)))"

text \<open>\<^verbatim>\<open>create_with_rng\<close> and \<^verbatim>\<open>commit_with_rng\<close> with the test source; the key is drawn before the nonce.\<close>

definition create_with_test_rng ::
    "aead \<Rightarrow> catalog \<Rightarrow> file_system \<Rightarrow> string \<Rightarrow> test_protector \<Rightarrow> bytes \<Rightarrow> test_rng \<Rightarrow> state_db \<Rightarrow>
     (state_handle result \<times> state_db) \<times> test_rng" where
  "create_with_test_rng A L fs path t state rng db =
     (let (dek, rng1) = try_fill_bytes DEK_BYTES rng;
          (nonce, rng2) = try_fill_bytes NONCE_BYTES rng1
      in (create_at A L fs path t state dek nonce db, rng2))"

definition commit_with_test_rng ::
    "aead \<Rightarrow> catalog \<Rightarrow> bytes \<Rightarrow> test_rng \<Rightarrow> state_handle \<Rightarrow> state_db \<Rightarrow>
     (unit result \<times> state_handle \<times> state_db) \<times> test_rng" where
  "commit_with_test_rng A L state rng h db =
     (let (nonce, rng1) = try_fill_bytes NONCE_BYTES rng in (commit_at A L state nonce h db, rng1))"

text \<open>\<^verbatim>\<open>SELECT nonce\<close>, \<open>raw_snapshot\<close> and \<open>full_row\<close> read the row of the slot; \<open>attacker_update\<close> is an
  \<^verbatim>\<open>UPDATE\<close> of it by another connection, refused when a constraint is violated.\<close>

definition slot_row :: "state_db \<Rightarrow> client_row result" where
  "slot_row db = ok_or (find (\<lambda>r. cr_slot r = 1) (client_state db)) Storage"

definition raw_snapshot :: "state_db \<Rightarrow> (int \<times> bytes \<times> bytes \<times> bytes) result" where
  "raw_snapshot db = and_then (slot_row db) (\<lambda>r.
     Inr (cr_generation r, cr_wrapped_dek r, cr_nonce r, cr_ciphertext r))"

definition full_row :: "state_db \<Rightarrow> client_row result" where
  "full_row db = slot_row db"

definition attacker_update :: "(client_row \<Rightarrow> client_row) \<Rightarrow> state_db \<Rightarrow> state_db result" where
  "attacker_update f db =
     (let rows = map (\<lambda>r. if cr_slot r = 1 then f r else r) (client_state db) in
      if list_all client_check rows then Inr (db\<lparr>client_state := rows\<rparr>) else Inl Storage)"

section \<open>Handles that go stale\<close>

definition cas_conflict_poisons_the_stale_handle ::
    "aead \<Rightarrow> catalog \<Rightarrow> file_system \<Rightarrow> string \<Rightarrow> (nat \<Rightarrow> nat \<Rightarrow> bytes) \<Rightarrow> unit result" where
  "cas_conflict_poisons_the_stale_handle A L fs path draw =
     (let t = test_protector_new 11 12 in
      created_then (create_at A L fs path t (ascii ''one'') (Some (draw 0 32)) (Some (draw 1 24)) empty_state_db)
        (\<lambda>first db.
      and_then (open_image A L fs path t db) (\<lambda>second.
      committed_then (commit_at A L (ascii ''two'') (Some (draw 2 24)) first db) (\<lambda>_ db.
      let (third, stale, db) = commit_at A L (ascii ''three'') (Some (draw 3 24)) second db;
          (fourth, stale, db) = commit_at A L (ascii ''four'') (Some (draw 4 24)) stale db
      in and_then (assert_that (isl third \<and> isl fourth \<and> isl (store_state stale) \<and>
           isl (store_generation stale) \<and> isl (store_binding stale))) (\<lambda>_.
         and_then (open_image A L fs path t db) (\<lambda>reopened.
         and_then (store_state reopened) (\<lambda>state.
         assert_that (state = ascii ''two''))))))))"

definition strict_whole_schema_validation_accepts_the_clean_store ::
    "aead \<Rightarrow> catalog \<Rightarrow> file_system \<Rightarrow> string \<Rightarrow> (nat \<Rightarrow> nat \<Rightarrow> bytes) \<Rightarrow> unit result" where
  "strict_whole_schema_validation_accepts_the_clean_store A L fs path draw =
     (let t = test_protector_new 49 50 in
      created_then (create_at A L fs path t (ascii ''first'') (Some (draw 0 32)) (Some (draw 1 24)) empty_state_db)
        (\<lambda>_ db.
      and_then (open_image A L fs path t db) (\<lambda>store.
      committed_then (commit_at A L (ascii ''second'') (Some (draw 2 24)) store db) (\<lambda>_ db.
      and_then (open_image A L fs path t db) (\<lambda>store.
      and_then (store_state store) (\<lambda>state.
      and_then (store_generation store) (\<lambda>generation.
      assert_that (state = ascii ''second'' \<and> generation = 2))))))))"

section \<open>Random sources\<close>

definition failed_creation_leaves_no_partial_profile_and_retry_succeeds ::
    "aead \<Rightarrow> catalog \<Rightarrow> file_system \<Rightarrow> string \<Rightarrow> unit result" where
  "failed_creation_leaves_no_partial_profile_and_retry_succeeds A L fs path =
     (let t = test_protector_new 21 22;
          failing = \<lparr>tr_next = 0, tr_fail = True\<rparr>;
          ((r, db), _) = create_with_test_rng A L fs path t (ascii ''state'') failing empty_state_db
      in and_then (assert_that (isl r)) (\<lambda>_.
         and_then (assert_that (application_id db = 0 \<and> user_version db = 0 \<and>
           length (schema_objects db) = 0)) (\<lambda>_.
         let good = \<lparr>tr_next = 1, tr_fail = False\<rparr> in
         created_then (fst (create_with_test_rng A L fs path t (ascii ''state'') good db)) (\<lambda>store _.
         and_then (store_state store) (\<lambda>state.
         assert_that (state = ascii ''state''))))))"

definition fresh_nonce_rng_failure_and_exact_size_bound ::
    "aead \<Rightarrow> catalog \<Rightarrow> file_system \<Rightarrow> string \<Rightarrow> (nat \<Rightarrow> nat \<Rightarrow> bytes) \<Rightarrow> unit result" where
  "fresh_nonce_rng_failure_and_exact_size_bound A L fs path draw =
     (let (run, rng) = create_with_test_rng A L fs path (test_protector_new 5 6) (ascii ''one'')
            \<lparr>tr_next = 1, tr_fail = False\<rparr> empty_state_db
      in created_then run (\<lambda>store db.
         and_then (slot_row db) (\<lambda>first.
         let (run, rng) = commit_with_test_rng A L (ascii ''two'') rng store db
         in committed_then run (\<lambda>store db.
         and_then (slot_row db) (\<lambda>second.
         and_then (assert_that (cr_nonce first \<noteq> cr_nonce second)) (\<lambda>_.
         let ((r, _, after), _) =
               commit_with_test_rng A L (ascii ''three'') \<lparr>tr_next = 0, tr_fail = True\<rparr> store db;
             maximum = replicate (MAX_CIPHERTEXT_BYTES - 16) 7;
             (r_max, _) = create_at A L fs path (test_protector_new 7 8) maximum
               (Some (draw 0 32)) (Some (draw 1 24)) empty_state_db;
             over = replicate (MAX_CIPHERTEXT_BYTES - 15) 7;
             (r_over, over_database) = create_at A L fs path (test_protector_new 9 10) over
               (Some (draw 2 32)) (Some (draw 3 24)) empty_state_db
         in assert_that (isl r \<and> after = db \<and> \<not> isl r_max \<and> isl r_over \<and>
              length (schema_objects over_database) = 0)))))))"

definition divergent_commit_after_authentic_rollback_uses_a_fresh_nonce ::
    "aead \<Rightarrow> catalog \<Rightarrow> file_system \<Rightarrow> string \<Rightarrow> unit result" where
  "divergent_commit_after_authentic_rollback_uses_a_fresh_nonce A L fs path =
     (let t = test_protector_new 25 26;
          (run, rng) = create_with_test_rng A L fs path t (ascii ''one'')
            \<lparr>tr_next = 1, tr_fail = False\<rparr> empty_state_db
      in created_then run (\<lambda>first snapshot.
         committed_then (fst (commit_with_test_rng A L (ascii ''first-generation-two'') rng first snapshot))
           (\<lambda>_ db.
         and_then (slot_row db) (\<lambda>first_row.
         and_then (open_image A L fs path t snapshot) (\<lambda>divergent.
         committed_then (fst (commit_with_test_rng A L (ascii ''divergent-generation-two'')
           \<lparr>tr_next = 201, tr_fail = False\<rparr> divergent snapshot)) (\<lambda>divergent db.
         and_then (slot_row db) (\<lambda>second_row.
         and_then (store_generation divergent) (\<lambda>generation.
         assert_that (generation = 2 \<and> cr_nonce first_row \<noteq> cr_nonce second_row)))))))))"

text \<open>The loop over the generations 2 to 128: \<open>seen\<close> are the nonces so far.\<close>

fun commit_corpus ::
    "aead \<Rightarrow> catalog \<Rightarrow> (nat \<Rightarrow> nat \<Rightarrow> bytes) \<Rightarrow> nat list \<Rightarrow> bytes list \<Rightarrow> state_handle \<Rightarrow> state_db \<Rightarrow>
     (state_handle \<Rightarrow> unit result) \<Rightarrow> unit result" where
  "commit_corpus A L draw [] seen store db finish = finish store"
| "commit_corpus A L draw (generation # generations) seen store db finish =
     committed_then (commit_at A L (u64_to_be_bytes (word_of_nat generation)) (Some (draw generation 24)) store db)
       (\<lambda>store db.
     and_then (assert_that (sh_nonce store \<notin> set seen)) (\<lambda>_.
     commit_corpus A L draw generations (sh_nonce store # seen) store db finish))"

definition committed_nonce_corpus_is_unique ::
    "aead \<Rightarrow> catalog \<Rightarrow> file_system \<Rightarrow> string \<Rightarrow> (nat \<Rightarrow> nat \<Rightarrow> bytes) \<Rightarrow> unit result" where
  "committed_nonce_corpus_is_unique A L fs path draw =
     created_then (create_at A L fs path (test_protector_new 33 34) (ascii ''zero'')
       (Some (draw 0 32)) (Some (draw 1 24)) empty_state_db) (\<lambda>store db.
     commit_corpus A L draw [2..<129] [sh_nonce store] store db (\<lambda>store.
     and_then (store_generation store) (\<lambda>generation.
     assert_that (generation = 128))))"

section \<open>Substituted rows\<close>

definition wrapped_key_substitution_cannot_be_committed_over ::
    "aead \<Rightarrow> catalog \<Rightarrow> file_system \<Rightarrow> string \<Rightarrow> (nat \<Rightarrow> nat \<Rightarrow> bytes) \<Rightarrow> unit result" where
  "wrapped_key_substitution_cannot_be_committed_over A L fs path draw =
     created_then (create_at A L fs path (test_protector_new 23 24) (ascii ''old'')
       (Some (draw 0 32)) (Some (draw 1 24)) empty_state_db) (\<lambda>store db.
     and_then (slot_row db) (\<lambda>row.
     and_then (attacker_update (\<lambda>r. r\<lparr>cr_wrapped_dek := replicate (length (cr_wrapped_dek row)) 0\<rparr>) db) (\<lambda>db.
     and_then (raw_snapshot db) (\<lambda>before.
     let (r, store, db) = commit_at A L (ascii ''new'') (Some (draw 2 24)) store db
     in and_then (assert_that (isl r \<and> isl (store_state store))) (\<lambda>_.
        and_then (raw_snapshot db) (\<lambda>after.
        assert_that (after = before)))))))"

text \<open>\<^verbatim>\<open>*first ^= 1\<close>, an error on an empty value.\<close>

fun flip_first :: "bytes \<Rightarrow> bytes result" where
  "flip_first [] = Inl Storage"
| "flip_first (b # bs) = Inr ((b XOR 1) # bs)"

fun substitute_field ::
    "aead \<Rightarrow> catalog \<Rightarrow> file_system \<Rightarrow> string \<Rightarrow> (nat \<Rightarrow> nat \<Rightarrow> bytes) \<Rightarrow> bool list \<Rightarrow> unit result" where
  "substitute_field A L fs path draw [] = Inr ()"
| "substitute_field A L fs path draw (tamper_nonce # rest) =
     created_then (create_at A L fs path (test_protector_new 27 28) (ascii ''old'')
       (Some (draw 0 32)) (Some (draw 1 24)) empty_state_db) (\<lambda>store db.
     and_then (slot_row db) (\<lambda>row.
     and_then (flip_first (if tamper_nonce then cr_nonce row else cr_ciphertext row)) (\<lambda>value.
     and_then (attacker_update (\<lambda>r. if tamper_nonce then r\<lparr>cr_nonce := value\<rparr> else r\<lparr>cr_ciphertext := value\<rparr>) db)
       (\<lambda>db.
     and_then (raw_snapshot db) (\<lambda>before.
     let (r, store, db) = commit_at A L (ascii ''new'') (Some (draw 2 24)) store db
     in and_then (assert_that (isl r \<and> isl (store_state store))) (\<lambda>_.
        and_then (raw_snapshot db) (\<lambda>after.
        and_then (assert_that (after = before)) (\<lambda>_.
        substitute_field A L fs path (\<lambda>i. draw (i + 3)) rest))))))))"

definition nonce_or_ciphertext_substitution_cannot_be_committed_over ::
    "aead \<Rightarrow> catalog \<Rightarrow> file_system \<Rightarrow> string \<Rightarrow> (nat \<Rightarrow> nat \<Rightarrow> bytes) \<Rightarrow> unit result" where
  "nonce_or_ciphertext_substitution_cannot_be_committed_over A L fs path draw =
     substitute_field A L fs path draw [True, False]"

text \<open>With \<^verbatim>\<open>ignore_check_constraints\<close> the update is not checked.\<close>

fun oversized_field ::
    "aead \<Rightarrow> catalog \<Rightarrow> file_system \<Rightarrow> string \<Rightarrow> (nat \<Rightarrow> nat \<Rightarrow> bytes) \<Rightarrow> bool list \<Rightarrow> unit result" where
  "oversized_field A L fs path draw [] = Inr ()"
| "oversized_field A L fs path draw (oversized_wrapper # rest) =
     created_then (create_at A L fs path (test_protector_new 29 30) (ascii ''state'')
       (Some (draw 0 32)) (Some (draw 1 24)) empty_state_db) (\<lambda>store db.
     and_then (store_binding store) (\<lambda>binding.
     let db = db\<lparr>client_state := map (\<lambda>r. if cr_slot r \<noteq> 1 then r
           else if oversized_wrapper then r\<lparr>cr_wrapped_dek := replicate (WRAPPED_DEK_MAX_BYTES + 1) 0\<rparr>
           else r\<lparr>cr_ciphertext := replicate (MAX_CIPHERTEXT_BYTES + 1) 0\<rparr>) (client_state db)\<rparr>
     in and_then (assert_that (fst (read_row binding (connect db)) = Inl Storage)) (\<lambda>_.
        oversized_field A L fs path (\<lambda>i. draw (i + 2)) rest)))"

definition oversized_blobs_are_refused_by_length_before_materialization ::
    "aead \<Rightarrow> catalog \<Rightarrow> file_system \<Rightarrow> string \<Rightarrow> (nat \<Rightarrow> nat \<Rightarrow> bytes) \<Rightarrow> unit result" where
  "oversized_blobs_are_refused_by_length_before_materialization A L fs path draw =
     oversized_field A L fs path draw [True, False]"

section \<open>Hostile schemas\<close>

text \<open>An object that is added to the schema; every name that the tests use sorts after
  \<open>client_state\<close>. \<^verbatim>\<open>writable_schema\<close> bypasses the parser, so the row is taken as it is. The
  schema cookie that \<^verbatim>\<open>bump_schema_version\<close> increments is not part of the image.\<close>

definition add_object ::
    "string \<times> string \<times> string \<times> string option \<Rightarrow> state_db \<Rightarrow> state_db" where
  "add_object x db = db\<lparr>schema_objects := schema_objects db @ [x]\<rparr>"

definition inject_hostile_schema_row :: "string \<Rightarrow> string \<Rightarrow> string \<Rightarrow> string \<Rightarrow> state_db \<Rightarrow> state_db" where
  "inject_hostile_schema_row kind name tbl_name sql = add_object (kind, name, tbl_name, Some sql)"

definition assert_open_rejects_and_row_is_intact ::
    "aead \<Rightarrow> catalog \<Rightarrow> file_system \<Rightarrow> string \<Rightarrow> test_protector \<Rightarrow> client_row \<Rightarrow> state_db \<Rightarrow> unit result" where
  "assert_open_rejects_and_row_is_intact A L fs path t before db =
     (let (r, c) = open_store A L fs path (state_key_protector t) (connect db) in
      and_then (assert_that (r = Inl Storage)) (\<lambda>_.
      and_then (full_row (durable c)) (\<lambda>after.
      assert_that (after = before \<and> length (client_state (durable c)) = 1))))"

definition exact_schema_rejects_extra_objects ::
    "aead \<Rightarrow> catalog \<Rightarrow> file_system \<Rightarrow> string \<Rightarrow> (nat \<Rightarrow> nat \<Rightarrow> bytes) \<Rightarrow> unit result" where
  "exact_schema_rejects_extra_objects A L fs path draw =
     (let t = test_protector_new 13 14 in
      created_then (create_at A L fs path t (ascii ''state'') (Some (draw 0 32)) (Some (draw 1 24)) empty_state_db)
        (\<lambda>_ db.
      let db = add_object (''table'', ''extra_state'', ''extra_state'',
            Some ''CREATE TABLE extra_state(value INTEGER) STRICT'') db
      in assert_that (isl (open_image A L fs path t db))))"

definition hostile_sqlite_prefixed_delete_trigger_fails_closed_without_data_loss ::
    "aead \<Rightarrow> catalog \<Rightarrow> file_system \<Rightarrow> string \<Rightarrow> (nat \<Rightarrow> nat \<Rightarrow> bytes) \<Rightarrow> unit result" where
  "hostile_sqlite_prefixed_delete_trigger_fails_closed_without_data_loss A L fs path draw =
     (let t = test_protector_new 41 42 in
      created_then (create_at A L fs path t (ascii ''guarded'') (Some (draw 0 32)) (Some (draw 1 24)) empty_state_db)
        (\<lambda>store db.
      and_then (full_row db) (\<lambda>before.
      let db = inject_hostile_schema_row ''trigger'' ''sqlite_evil'' ''client_state''
           (''CREATE TRIGGER sqlite_evil AFTER UPDATE ON client_state '' @
            ''BEGIN DELETE FROM client_state; END'') db
      in and_then (assert_open_rejects_and_row_is_intact A L fs path t before db) (\<lambda>_.
         let (r, _, db) = commit_at A L (ascii ''post-injection'') (Some (draw 2 24)) store db
         in and_then (assert_that (isl r)) (\<lambda>_.
            and_then (full_row db) (\<lambda>after.
            assert_that (after = before)))))))"

definition hostile_sqlite_prefixed_raise_ignore_trigger_fails_closed ::
    "aead \<Rightarrow> catalog \<Rightarrow> file_system \<Rightarrow> string \<Rightarrow> (nat \<Rightarrow> nat \<Rightarrow> bytes) \<Rightarrow> unit result" where
  "hostile_sqlite_prefixed_raise_ignore_trigger_fails_closed A L fs path draw =
     (let t = test_protector_new 43 44 in
      created_then (create_at A L fs path t (ascii ''guarded'') (Some (draw 0 32)) (Some (draw 1 24)) empty_state_db)
        (\<lambda>_ db.
      and_then (full_row db) (\<lambda>before.
      assert_open_rejects_and_row_is_intact A L fs path t before
        (inject_hostile_schema_row ''trigger'' ''sqlite_evil'' ''client_state''
          (''CREATE TRIGGER sqlite_evil BEFORE UPDATE ON client_state '' @
           ''BEGIN SELECT RAISE(IGNORE); END'') db))))"

definition hostile_sqlite_prefixed_view_fails_closed ::
    "aead \<Rightarrow> catalog \<Rightarrow> file_system \<Rightarrow> string \<Rightarrow> (nat \<Rightarrow> nat \<Rightarrow> bytes) \<Rightarrow> unit result" where
  "hostile_sqlite_prefixed_view_fails_closed A L fs path draw =
     (let t = test_protector_new 45 46 in
      created_then (create_at A L fs path t (ascii ''guarded'') (Some (draw 0 32)) (Some (draw 1 24)) empty_state_db)
        (\<lambda>_ db.
      and_then (full_row db) (\<lambda>before.
      assert_open_rejects_and_row_is_intact A L fs path t before
        (inject_hostile_schema_row ''view'' ''sqlite_evil_view'' ''sqlite_evil_view''
          ''CREATE VIEW sqlite_evil_view AS SELECT slot FROM client_state'' db))))"

text \<open>The schema entry of an ordinary table is renamed.\<close>

definition rename_placeholder ::
    "string \<times> string \<times> string \<times> string option \<Rightarrow> string \<times> string \<times> string \<times> string option" where
  "rename_placeholder x =
     (if fst (snd x) = ''hostile_placeholder''
      then (fst x, ''sqlite_evil_table'', ''sqlite_evil_table'',
        Some ''CREATE TABLE sqlite_evil_table(payload INTEGER)'')
      else x)"

definition hostile_sqlite_prefixed_table_with_valid_root_page_fails_closed ::
    "aead \<Rightarrow> catalog \<Rightarrow> file_system \<Rightarrow> string \<Rightarrow> (nat \<Rightarrow> nat \<Rightarrow> bytes) \<Rightarrow> unit result" where
  "hostile_sqlite_prefixed_table_with_valid_root_page_fails_closed A L fs path draw =
     (let t = test_protector_new 47 48 in
      created_then (create_at A L fs path t (ascii ''guarded'') (Some (draw 0 32)) (Some (draw 1 24)) empty_state_db)
        (\<lambda>_ db.
      and_then (full_row db) (\<lambda>before.
      let db = add_object (''table'', ''hostile_placeholder'', ''hostile_placeholder'',
            Some ''CREATE TABLE hostile_placeholder(payload INTEGER)'') db;
          db = db\<lparr>schema_objects := map rename_placeholder (schema_objects db)\<rparr>
      in assert_open_rejects_and_row_is_intact A L fs path t before db)))"

section \<open>Forced death\<close>

text \<open>\<^verbatim>\<open>test_abort_at\<close> kills the process at a named point. The model names a point by the number of
  its database calls that have been answered there. A creation opens and sets up the connection (2), checks that
  the database is empty (4), applies its settings (1), begins (1), checks again (4) and creates the schema (13
  by then), inserts (14), validates the schema (9) and commits (24). A commit begins and validates the schema
  after sealing (0 by then, 10 afterwards), updates (11) and commits (12).\<close>

datatype failpoint = Create_after_schema | Create_after_insert | Create_after_commit
  | Commit_after_seal | Commit_after_update | Commit_after_commit

fun calls_before :: "failpoint \<Rightarrow> nat" where
  "calls_before Create_after_schema = 13"
| "calls_before Create_after_insert = 14"
| "calls_before Create_after_commit = 24"
| "calls_before Commit_after_seal = 0"
| "calls_before Commit_after_update = 11"
| "calls_before Commit_after_commit = 12"

definition child_create ::
    "aead \<Rightarrow> catalog \<Rightarrow> file_system \<Rightarrow> string \<Rightarrow> bytes \<Rightarrow> bytes \<Rightarrow> failpoint \<Rightarrow> state_db \<Rightarrow> state_db" where
  "child_create A L fs path dek nonce p db =
     dies_after (calls_before p) (create_with_rng A L fs path (state_key_protector (test_protector_new 31 32))
       (ascii ''created'') (Some dek) (Some nonce)) (connect db)"

definition child_commit ::
    "aead \<Rightarrow> catalog \<Rightarrow> file_system \<Rightarrow> string \<Rightarrow> bytes \<Rightarrow> failpoint \<Rightarrow> state_db \<Rightarrow> state_db result" where
  "child_commit A L fs path nonce p db =
     and_then (open_image A L fs path (test_protector_new 31 32) db) (\<lambda>store.
     Inr (dies_after (calls_before p) (commit_with_rng A L (ascii ''committed'') (Some nonce))
       \<lparr>durable = db, working = db, calls = [], handle = store\<rparr>))"

fun creation_deaths ::
    "aead \<Rightarrow> catalog \<Rightarrow> file_system \<Rightarrow> string \<Rightarrow> (nat \<Rightarrow> nat \<Rightarrow> bytes) \<Rightarrow> failpoint list \<Rightarrow> unit result" where
  "creation_deaths A L fs path draw [] = Inr ()"
| "creation_deaths A L fs path draw (p # ps) =
     (let t = test_protector_new 31 32;
          db = child_create A L fs path (draw 0 32) (draw 1 24) p empty_state_db
      in and_then
        (if p = Create_after_commit
         then and_then (open_image A L fs path t db) (\<lambda>store.
              and_then (store_state store) (\<lambda>state.
              assert_that (state = ascii ''created'')))
         else and_then (assert_that (isl (open_image A L fs path t db))) (\<lambda>_.
              created_then (create_at A L fs path t (ascii ''retried'') (Some (draw 2 32)) (Some (draw 3 24)) db)
                (\<lambda>store _.
              and_then (store_state store) (\<lambda>state.
              assert_that (state = ascii ''retried'')))))
        (\<lambda>_. creation_deaths A L fs path (\<lambda>i. draw (i + 4)) ps))"

definition forced_death_during_creation_reveals_no_half_profile ::
    "aead \<Rightarrow> catalog \<Rightarrow> file_system \<Rightarrow> string \<Rightarrow> (nat \<Rightarrow> nat \<Rightarrow> bytes) \<Rightarrow> unit result" where
  "forced_death_during_creation_reveals_no_half_profile A L fs path draw =
     creation_deaths A L fs path draw [Create_after_schema, Create_after_insert, Create_after_commit]"

fun commit_deaths ::
    "aead \<Rightarrow> catalog \<Rightarrow> file_system \<Rightarrow> string \<Rightarrow> (nat \<Rightarrow> nat \<Rightarrow> bytes) \<Rightarrow> (failpoint \<times> string) list \<Rightarrow>
     unit result" where
  "commit_deaths A L fs path draw [] = Inr ()"
| "commit_deaths A L fs path draw ((p, expected) # ps) =
     created_then (create_at A L fs path (test_protector_new 31 32) (ascii ''old'')
       (Some (draw 0 32)) (Some (draw 1 24)) empty_state_db) (\<lambda>_ db.
     and_then (child_commit A L fs path (draw 2 24) p db) (\<lambda>db.
     and_then (open_image A L fs path (test_protector_new 31 32) db) (\<lambda>store.
     and_then (store_state store) (\<lambda>state.
     and_then (assert_that (state = ascii expected)) (\<lambda>_.
     commit_deaths A L fs path (\<lambda>i. draw (i + 3)) ps)))))"

definition forced_death_during_commit_reveals_complete_old_or_new_state ::
    "aead \<Rightarrow> catalog \<Rightarrow> file_system \<Rightarrow> string \<Rightarrow> (nat \<Rightarrow> nat \<Rightarrow> bytes) \<Rightarrow> unit result" where
  "forced_death_during_commit_reveals_complete_old_or_new_state A L fs path draw =
     commit_deaths A L fs path draw [(Commit_after_seal, ''old''), (Commit_after_update, ''old''),
       (Commit_after_commit, ''committed'')]"

end
