(* ===== verification/State_Tests_Pass.thy ===== *)
theory State_Tests_Pass
  imports State_Tests State_Properties
begin

text \<open>
  The unit tests of \<^verbatim>\<open>persistence/sqlite.rs\<close> pass for every lawful cipher and catalog, and what the
  forced-death tests sample holds in general: a process that dies at any point of a creation or a
  commit leaves either the old or the complete new image. The lemmas follow the order of the tests;
  each is a walk along the runs that \<open>State_Testbed\<close> describes.
\<close>

unbundle bit_operations_syntax

section \<open>Steps of a test\<close>

lemmas test_steps = assert_that_def created_then_def committed_then_def and_then_def ensure_def

lemma accessors [simp]:
  "\<not> sh_poisoned h \<Longrightarrow> store_state h = Inr (sh_state h)"
  "\<not> sh_poisoned h \<Longrightarrow> store_generation h = Inr (sh_generation h)"
  "\<not> sh_poisoned h \<Longrightarrow> store_binding h = Inr (sh_binding h)"
  "sh_poisoned h \<Longrightarrow> store_state h = Inl Storage"
  "sh_poisoned h \<Longrightarrow> store_generation h = Inl Storage"
  "sh_poisoned h \<Longrightarrow> store_binding h = Inl Storage"
  by (simp_all add: store_state_def store_generation_def store_binding_def ensure_usable_def and_then_def)

lemma createdD:
  assumes "created A t state dek nonce h db"
  shows "healthy A t h db" "\<not> sh_poisoned h" "sh_state h = state" "sh_generation h = 1" "sh_nonce h = nonce"
    "sh_binding h = tp_binding t" "uint (sh_generation h) + 1 < 2 ^ 63" "store_image db (handle_image h)"
  using assms unfolding created_def healthy_def by (blast | simp)+

lemma next_versionD:
  assumes "next_version h state h'"
  shows "sh_state h' = state" "sh_generation h' = sh_generation h + 1"
  using assms by (simp_all add: next_version_def)

lemma healthyD:
  assumes "healthy A t h db"
  shows "\<not> sh_poisoned h" "store_image db (handle_image h)" "handle_ok A (state_key_protector t) h"
  using assms by (simp_all add: healthy_def)

lemma create_small:
  assumes "testbed A L fs path" and "length dek = 32" and "length nonce = 24" and "length state \<le> 64"
  obtains h db where
    "create_at A L fs path (test_protector_new p k) state (Some dek) (Some nonce) empty_state_db = (Inr h, db)"
    "created A (test_protector_new p k) state dek nonce h db"
proof -
  have "length state \<le> MAX_PLAINTEXT_BYTES"
    using assms(4) by (simp add: state_limits)
  from create_at_succeeds [OF assms(1) test_protectors_ok(1) assms(2,3) this] that show thesis
    by metis
qed

lemma commit_small:
  assumes "testbed A L fs path" and "healthy A t h db" and "uint (sh_generation h) + 1 < 2 ^ 63"
    and "length nonce = 24" and "length state \<le> 64"
  obtains h' db' where "commit_at A L state (Some nonce) h db = (Inr (), h', db')" "healthy A t h' db'"
    "next_version h state h'" "sh_nonce h' = nonce"
proof -
  have "length state \<le> MAX_PLAINTEXT_BYTES"
    using assms(5) by (simp add: state_limits)
  from commit_at_succeeds [OF assms(1-4) this] that show thesis
    by metis
qed

lemma handle_image_sel [simp]:
  "cr_nonce (handle_row h g) = sh_nonce h" "cr_wrapped_dek (handle_row h g) = sh_wrapped_dek h"
  "cr_ciphertext (handle_row h g) = sh_ciphertext h" "cr_generation (handle_row h g) = g"
  "cr_slot (handle_row h g) = 1"
  by (simp_all add: handle_row_def state_row_def SLOT_def)

lemma slot_row_image:
  "store_image db r \<Longrightarrow> slot_row db = Inr r" "store_image db r \<Longrightarrow> full_row db = Inr r"
  by (auto simp: slot_row_def full_row_def store_image_def client_check_def ok_or_def)

lemma attacker_update_image:
  assumes "store_image db r" and "client_check (f r)"
  obtains db' where "attacker_update f db = Inr db'" "store_image db' (f r)"
proof -
  have "cr_slot r = 1" "client_state db = [r]"
    using assms(1) by (auto simp: store_image_def client_check_def)
  then have "attacker_update f db = Inr (db\<lparr>client_state := [f r]\<rparr>)"
    using assms(2) by (simp add: attacker_update_def)
  then show thesis
    using that assms by (simp add: store_image_def)
qed

lemma next_version_image:
  assumes "next_version h state h'"
  shows "handle_image h' \<noteq> handle_image h"
proof
  assume "handle_image h' = handle_image h"
  then have "cr_generation (handle_image h') = cr_generation (handle_image h)"
    by (rule arg_cong)
  then have "sh_generation h + 1 = sh_generation h"
    using next_versionD(2) [OF assms] by (simp only: handle_image_sel word_uint_eqI)
  then show False by simp
qed

section \<open>Handles that go stale\<close>

lemma cas_conflict_passes:
  assumes bed: "testbed A L fs path" and draws: "\<And>i n. length (draw i n) = n"
  shows "cas_conflict_poisons_the_stale_handle A L fs path draw = Inr ()"
proof -
  obtain h db where 1: "create_at A L fs path (test_protector_new 11 12) (ascii ''one'') (Some (draw 0 32))
      (Some (draw 1 24)) empty_state_db = (Inr h, db)"
    "created A (test_protector_new 11 12) (ascii ''one'') (draw 0 32) (draw 1 24) h db"
    by (rule create_small [OF bed, of "draw 0 32" "draw 1 24" "ascii ''one''"]) (simp_all add: draws)
  note h = createdD [OF 1(2)]
  obtain h1 db1 where 2: "commit_at A L (ascii ''two'') (Some (draw 2 24)) h db = (Inr (), h1, db1)"
      "healthy A (test_protector_new 11 12) h1 db1" "next_version h (ascii ''two'') h1"
    by (rule commit_small [OF bed h(1,7), of "draw 2 24" "ascii ''two''"]) (simp_all add: draws)
  note h1 = healthyD [OF 2(2)] next_versionD [OF 2(3)]
  obtain e where 3: "commit_at A L (ascii ''three'') (Some (draw 3 24)) h db1 =
      (Inl e, h\<lparr>sh_poisoned := True\<rparr>, db1)"
    using commit_at_stale [OF h1(2) next_version_image [OF 2(3)]] by blast
  show ?thesis
    using 1(1) 2(1) 3 open_image_healthy [OF bed h(1)] open_image_healthy [OF bed 2(2)] h1(1,4)
    by (simp add: cas_conflict_poisons_the_stale_handle_def test_steps commit_at_poisoned)
qed

lemma clean_store_passes:
  assumes bed: "testbed A L fs path" and draws: "\<And>i n. length (draw i n) = n"
  shows "strict_whole_schema_validation_accepts_the_clean_store A L fs path draw = Inr ()"
proof -
  obtain h db where 1: "create_at A L fs path (test_protector_new 49 50) (ascii ''first'') (Some (draw 0 32))
      (Some (draw 1 24)) empty_state_db = (Inr h, db)"
    "created A (test_protector_new 49 50) (ascii ''first'') (draw 0 32) (draw 1 24) h db"
    by (rule create_small [OF bed, of "draw 0 32" "draw 1 24" "ascii ''first''"]) (simp_all add: draws)
  note h = createdD [OF 1(2)]
  obtain h1 db1 where 2: "commit_at A L (ascii ''second'') (Some (draw 2 24)) h db = (Inr (), h1, db1)"
      "healthy A (test_protector_new 49 50) h1 db1" "next_version h (ascii ''second'') h1"
    by (rule commit_small [OF bed h(1,7), of "draw 2 24" "ascii ''second''"]) (simp_all add: draws)
  show ?thesis
    using 1(1) 2(1) h(4) open_image_healthy [OF bed h(1)] open_image_healthy [OF bed 2(2)]
      healthyD [OF 2(2)] next_versionD [OF 2(3)]
    by (simp add: strict_whole_schema_validation_accepts_the_clean_store_def test_steps)
qed

section \<open>Random sources\<close>

lemma try_fill_bytes_eval:
  "try_fill_bytes n \<lparr>tr_next = b, tr_fail = False\<rparr> =
     (Some (fst (count_from n b)), \<lparr>tr_next = b + word_of_nat n, tr_fail = False\<rparr>)"
  "try_fill_bytes n \<lparr>tr_next = b, tr_fail = True\<rparr> = (None, \<lparr>tr_next = b, tr_fail = True\<rparr>)"
  by (simp_all add: try_fill_bytes_def case_prod_beta count_from_shape)

lemma counted_draws_differ: "n \<noteq> 0 \<Longrightarrow> a \<noteq> b \<Longrightarrow> fst (count_from n a) \<noteq> fst (count_from n b)"
  using count_from_hd by metis

lemma create_without_key_refused:
  obtains e where "create_at A L fs path t state None n db = (Inl e, db)"
proof (rule create_at_refused)
  show "create_with_rng A L fs path (state_key_protector t) state None n (connect db) \<noteq> (Inr h, c')" for h c'
    by (auto simp: create_with_rng_def fill_def connect_def state_key_protector_def ok_or_def sql_simps
        split: sum.split)
qed

lemma failed_creation_passes:
  assumes bed: "testbed A L fs path"
  shows "failed_creation_leaves_no_partial_profile_and_retry_succeeds A L fs path = Inr ()"
proof -
  let ?t = "test_protector_new 21 22"
  obtain e where 1: "create_at A L fs path ?t (ascii ''state'') None None empty_state_db = (Inl e, empty_state_db)"
    by (rule create_without_key_refused)
  obtain h db where 2: "create_at A L fs path ?t (ascii ''state'') (Some (fst (count_from 32 1)))
      (Some (fst (count_from 24 33))) empty_state_db = (Inr h, db)"
    "created A ?t (ascii ''state'') (fst (count_from 32 1)) (fst (count_from 24 33)) h db"
    by (rule create_small [OF bed, of "fst (count_from 32 1)" "fst (count_from 24 33)" "ascii ''state''"])
      (simp_all only: count_from_shape length_ascii, simp)
  show ?thesis
    using 1 2(1) createdD [OF 2(2)]
    by (simp add: failed_creation_leaves_no_partial_profile_and_retry_succeeds_def create_with_test_rng_def
        try_fill_bytes_eval DEK_BYTES_def NONCE_BYTES_def test_steps empty_state_db_def)
qed


lemma create_counted_draws:
  assumes "testbed A L fs path" and "length state \<le> 64"
  obtains h db where "create_with_test_rng A L fs path (test_protector_new p k) state
      \<lparr>tr_next = 1, tr_fail = False\<rparr> empty_state_db = ((Inr h, db), \<lparr>tr_next = 57, tr_fail = False\<rparr>)"
    "created A (test_protector_new p k) state (fst (count_from 32 1)) (fst (count_from 24 33)) h db"
proof -
  obtain h db where "create_at A L fs path (test_protector_new p k) state (Some (fst (count_from 32 1)))
      (Some (fst (count_from 24 33))) empty_state_db = (Inr h, db)"
    "created A (test_protector_new p k) state (fst (count_from 32 1)) (fst (count_from 24 33)) h db"
    by (rule create_small [OF assms(1) count_from_shape(1) count_from_shape(1) assms(2)])
  then show thesis
    using that by (simp add: create_with_test_rng_def try_fill_bytes_eval DEK_BYTES_def NONCE_BYTES_def)
qed

lemma commit_counted_draws:
  assumes "testbed A L fs path" and "healthy A t h db" and "uint (sh_generation h) + 1 < 2 ^ 63"
    and "length state \<le> 64"
  obtains h' db' where "commit_with_test_rng A L state \<lparr>tr_next = b, tr_fail = False\<rparr> h db =
      ((Inr (), h', db'), \<lparr>tr_next = b + 24, tr_fail = False\<rparr>)" "healthy A t h' db'"
    "next_version h state h'" "sh_nonce h' = fst (count_from 24 b)"
proof -
  obtain h' db' where "commit_at A L state (Some (fst (count_from 24 b))) h db = (Inr (), h', db')"
      "healthy A t h' db'" "next_version h state h'" "sh_nonce h' = fst (count_from 24 b)"
    by (rule commit_small [OF assms(1-3) count_from_shape(1) assms(4)])
  then show thesis
    using that by (simp add: commit_with_test_rng_def try_fill_bytes_eval NONCE_BYTES_def)
qed

lemma commit_without_nonce_refused:
  obtains e where "commit_at A L state None h db = (Inl e, h\<lparr>sh_poisoned := True\<rparr>, db)"
proof (rule commit_at_refused)
  show "commit_with_rng A L state None \<lparr>durable = db, working = db, calls = [], handle = h\<rparr> \<noteq> (Inr (), s')" for s'
    using commit_inner_success unfolding commit_with_rng_Inr by blast
qed

lemma create_oversized_refused:
  assumes "MAX_PLAINTEXT_BYTES < length state"
  obtains e where "create_at A L fs path t state d n db = (Inl e, db)"
proof (rule create_at_refused)
  have "state_seal A b g w dek nonce state \<noteq> Inr ct" for b g w dek nonce ct
    using assms by (auto simp: state_seal_Inr_iff validate_header_def split: if_splits)
  then show "create_with_rng A L fs path (state_key_protector t) state d n (connect db) \<noteq> (Inr h, c')" for h c'
    by (auto simp: create_with_rng_def fill_def connect_def state_key_protector_def ok_or_def sql_simps
        split: sum.split option.split)
qed

lemma fresh_nonce_passes:
  assumes bed: "testbed A L fs path" and draws: "\<And>i n. length (draw i n) = n"
  shows "fresh_nonce_rng_failure_and_exact_size_bound A L fs path draw = Inr ()"
proof -
  obtain h db where 1: "create_with_test_rng A L fs path (test_protector_new 5 6) (ascii ''one'')
      \<lparr>tr_next = 1, tr_fail = False\<rparr> empty_state_db = ((Inr h, db), \<lparr>tr_next = 57, tr_fail = False\<rparr>)"
    and c: "created A (test_protector_new 5 6) (ascii ''one'') (fst (count_from 32 1)) (fst (count_from 24 33)) h db"
    by (rule create_counted_draws [OF bed, of "ascii ''one''" 5 6]) simp_all
  note h = createdD [OF c]
  obtain h1 db1 where 2: "commit_with_test_rng A L (ascii ''two'') \<lparr>tr_next = 57, tr_fail = False\<rparr> h db =
      ((Inr (), h1, db1), \<lparr>tr_next = 57 + 24, tr_fail = False\<rparr>)" "healthy A (test_protector_new 5 6) h1 db1"
      "sh_nonce h1 = fst (count_from 24 57)"
    by (rule commit_counted_draws [OF bed h(1,7), of "ascii ''two''" 57]) simp_all
  obtain e where 3: "commit_at A L (ascii ''three'') None h1 db1 = (Inl e, h1\<lparr>sh_poisoned := True\<rparr>, db1)"
    by (rule commit_without_nonce_refused)
  obtain hm dbm where 4: "create_at A L fs path (test_protector_new 7 8) (replicate (MAX_CIPHERTEXT_BYTES - 16) 7)
      (Some (draw 0 32)) (Some (draw 1 24)) empty_state_db = (Inr hm, dbm)"
    by (rule create_at_succeeds [OF bed, of "test_protector_new 7 8" "draw 0 32" "draw 1 24"
          "replicate (MAX_CIPHERTEXT_BYTES - 16) 7"]) (simp_all add: draws MAX_PLAINTEXT_BYTES_def)
  obtain eo where 5: "create_at A L fs path (test_protector_new 9 10) (replicate (MAX_CIPHERTEXT_BYTES - 15) 7)
      (Some (draw 2 32)) (Some (draw 3 24)) empty_state_db = (Inl eo, empty_state_db)"
    by (rule create_oversized_refused [of "replicate (MAX_CIPHERTEXT_BYTES - 15) 7"])
      (simp_all only: length_replicate state_limits, simp_all)
  have "fst (count_from 24 33) \<noteq> fst (count_from 24 57)"
    by (rule counted_draws_differ) simp_all
  then show ?thesis
    using 1 2(1,3) 3 4 5 h(5) slot_row_image(1) [OF h(8)] slot_row_image(1) [OF healthyD(2) [OF 2(2)]]
    by (simp add: fresh_nonce_rng_failure_and_exact_size_bound_def commit_with_test_rng_def [of A L "ascii ''three''"]
        try_fill_bytes_eval(2) test_steps empty_state_db_def [symmetric] del: replicate.simps)
      (simp add: empty_state_db_def)
qed

lemma divergent_commit_passes:
  assumes bed: "testbed A L fs path"
  shows "divergent_commit_after_authentic_rollback_uses_a_fresh_nonce A L fs path = Inr ()"
proof -
  let ?t = "test_protector_new 25 26"
  obtain h db where 1: "create_with_test_rng A L fs path ?t (ascii ''one'')
      \<lparr>tr_next = 1, tr_fail = False\<rparr> empty_state_db = ((Inr h, db), \<lparr>tr_next = 57, tr_fail = False\<rparr>)"
    and c: "created A ?t (ascii ''one'') (fst (count_from 32 1)) (fst (count_from 24 33)) h db"
    by (rule create_counted_draws [OF bed, of "ascii ''one''" 25 26]) simp_all
  note h = createdD [OF c]
  obtain h1 db1 where 2: "commit_with_test_rng A L (ascii ''first-generation-two'')
      \<lparr>tr_next = 57, tr_fail = False\<rparr> h db = ((Inr (), h1, db1), \<lparr>tr_next = 57 + 24, tr_fail = False\<rparr>)"
      "healthy A ?t h1 db1" "sh_nonce h1 = fst (count_from 24 57)"
    by (rule commit_counted_draws [OF bed h(1,7), of "ascii ''first-generation-two''" 57]) simp_all
  obtain h2 db2 where 3: "commit_with_test_rng A L (ascii ''divergent-generation-two'')
      \<lparr>tr_next = 201, tr_fail = False\<rparr> h db = ((Inr (), h2, db2), \<lparr>tr_next = 201 + 24, tr_fail = False\<rparr>)"
      "healthy A ?t h2 db2" "next_version h (ascii ''divergent-generation-two'') h2"
      "sh_nonce h2 = fst (count_from 24 201)"
    by (rule commit_counted_draws [OF bed h(1,7), of "ascii ''divergent-generation-two''" 201]) simp_all
  have "fst (count_from 24 57) \<noteq> fst (count_from 24 201)"
    by (rule counted_draws_differ) simp_all
  then show ?thesis
    using 1 2(1,3) 3(1,4) h(4) next_versionD(2) [OF 3(3)] healthyD(1) [OF 3(2)] open_image_healthy [OF bed h(1)]
      slot_row_image(1) [OF healthyD(2) [OF 2(2)]] slot_row_image(1) [OF healthyD(2) [OF 3(2)]]
    by (simp add: divergent_commit_after_authentic_rollback_uses_a_fresh_nonce_def test_steps)
qed


text \<open>The loop of commits, from a healthy handle on: it passes when the drawn nonces are new.\<close>

lemma commit_corpus_passes:
  assumes bed: "testbed A L fs path" and draws: "\<And>i n. length (draw i n) = n"
    and finish: "\<And>h. \<not> sh_poisoned h \<Longrightarrow> uint (sh_generation h) = g + int (length gens) \<Longrightarrow> finish h = Inr ()"
  shows "healthy A t h db \<Longrightarrow> uint (sh_generation h) = g \<Longrightarrow> g + int (length gens) < 2 ^ 63 \<Longrightarrow>
    distinct (map (\<lambda>i. draw i 24) gens) \<Longrightarrow> set seen \<inter> (\<lambda>i. draw i 24) ` set gens = {} \<Longrightarrow>
    commit_corpus A L draw gens seen h db finish = Inr ()"
  using finish
proof (induction gens arbitrary: seen h db g)
  case Nil
  then show ?case
    using healthyD(1) by fastforce
next
  case (Cons i gens)
  have "uint (sh_generation h) + 1 < 2 ^ 63"
    using Cons.prems(2,3) by simp
  moreover have "length (u64_to_be_bytes (word_of_nat i)) \<le> 64"
    by simp
  ultimately obtain h1 db1 where 1: "commit_at A L (u64_to_be_bytes (word_of_nat i)) (Some (draw i 24)) h db =
      (Inr (), h1, db1)" "healthy A t h1 db1" "next_version h (u64_to_be_bytes (word_of_nat i)) h1"
      "sh_nonce h1 = draw i 24"
    by (rule commit_small [OF bed Cons.prems(1) _ draws])
  have "uint (sh_generation h1) = g + 1"
    using next_versionD(2) [OF 1(3)] Cons.prems(2,3) by (simp add: uint_plus_if_size word_size)
  then have "commit_corpus A L draw gens (sh_nonce h1 # seen) h1 db1 finish = Inr ()"
    using Cons.prems(3-6) 1(2,4) by (intro Cons.IH [of h1 db1 "g + 1"]) auto
  moreover have "sh_nonce h1 \<notin> set seen"
    using Cons.prems(5) 1(4) by auto
  ultimately show ?case
    using 1(1) by (simp add: test_steps)
qed

lemma nonce_corpus_passes:
  assumes bed: "testbed A L fs path" and draws: "\<And>i n. length (draw i n) = n"
    and "inj_on (\<lambda>i. draw i 24) {1..128}"
  shows "committed_nonce_corpus_is_unique A L fs path draw = Inr ()"
proof -
  obtain h db where 1: "create_at A L fs path (test_protector_new 33 34) (ascii ''zero'') (Some (draw 0 32))
      (Some (draw 1 24)) empty_state_db = (Inr h, db)"
    "created A (test_protector_new 33 34) (ascii ''zero'') (draw 0 32) (draw 1 24) h db"
    by (rule create_small [OF bed, of "draw 0 32" "draw 1 24" "ascii ''zero''"]) (simp_all add: draws)
  note h = createdD [OF 1(2)]
  have inj: "inj_on (\<lambda>i. draw i 24) (set (1 # [2..<129]))"
    using assms(3) by (rule inj_on_subset) auto
  have "commit_corpus A L draw [2..<129] [sh_nonce h] h db
      (\<lambda>store. and_then (store_generation store) (\<lambda>generation. assert_that (generation = 128))) = Inr ()"
  proof (rule commit_corpus_passes [OF bed draws _ h(1), where g = 1])
    show "and_then (store_generation k) (\<lambda>generation. assert_that (generation = 128)) = Inr ()"
      if "\<not> sh_poisoned k" "uint (sh_generation k) = 1 + int (length [2..<129])" for k
    proof -
      have "uint (sh_generation k) = uint (128 :: u64)"
        using that(2) by simp
      then have "sh_generation k = 128"
        by (rule word_uint_eqI)
      then show ?thesis
        using that(1) by (simp add: test_steps)
    qed
    show "distinct (map (\<lambda>i. draw i 24) [2..<129])"
      using inj by (simp add: distinct_map inj_on_insert del: upt_rec_numeral)
    show "set [sh_nonce h] \<inter> (\<lambda>i. draw i 24) ` set [2..<129] = {}"
      using inj h(5) by (simp add: inj_on_insert del: upt_rec_numeral)
  qed (use h(4) in simp_all)
  then show ?thesis
    using 1(1) by (simp add: committed_nonce_corpus_is_unique_def created_then_def and_then_def del: upt_rec_numeral)
qed

section \<open>Substituted rows\<close>

lemma raw_snapshot_image:
  "store_image db r \<Longrightarrow>
   raw_snapshot db = Inr (cr_generation r, cr_wrapped_dek r, cr_nonce r, cr_ciphertext r)"
  by (simp add: raw_snapshot_def slot_row_image and_then_def)

lemma created_row_check:
  assumes "created A t state dek nonce h db"
  shows "client_check (handle_image h)"
  using createdD(8) [OF assms] by (simp add: store_image_def)

lemma wrapped_key_starts:
  assumes "test_wrap_dek t dek = Inr w"
  shows "take 1 w = [0x73]"
proof -
  have "w = ascii ''state-wrap/v1'' @ pb_profile_id (tp_binding t) @ pb_key_ref (tp_binding t) @
      xor_mask dek (tp_mask t)"
    using assms unfolding test_wrap_dek_def WRAP_PREFIX_def by simp
  then show ?thesis
    by (simp add: ascii_def)
qed

lemma wrapped_key_substitution_passes:
  assumes bed: "testbed A L fs path" and draws: "\<And>i n. length (draw i n) = n"
  shows "wrapped_key_substitution_cannot_be_committed_over A L fs path draw = Inr ()"
proof -
  obtain h db where 1: "create_at A L fs path (test_protector_new 23 24) (ascii ''old'') (Some (draw 0 32))
      (Some (draw 1 24)) empty_state_db = (Inr h, db)"
    "created A (test_protector_new 23 24) (ascii ''old'') (draw 0 32) (draw 1 24) h db"
    by (rule create_small [OF bed, of "draw 0 32" "draw 1 24" "ascii ''old''"]) (simp_all add: draws)
  note h = createdD [OF 1(2)]
  let ?f = "\<lambda>r. r\<lparr>cr_wrapped_dek := replicate (length (sh_wrapped_dek h)) (0 :: byte)\<rparr>"
  have "client_check (?f (handle_image h))"
    using created_row_check [OF 1(2)] by (simp add: client_check_def)
  from attacker_update_image [of db "handle_image h" ?f, OF h(8) this]
  obtain db' where 2: "attacker_update ?f db = Inr db'" "store_image db' (?f (handle_image h))"
    by blast
  have "test_wrap_dek (test_protector_new 23 24) (draw 0 32) = Inr (sh_wrapped_dek h)"
    using 1(2) unfolding created_def by blast
  then have "take 1 (sh_wrapped_dek h) = [0x73]"
    by (rule wrapped_key_starts)
  then have "cr_wrapped_dek (?f (handle_image h)) \<noteq> sh_wrapped_dek h"
    by (cases "sh_wrapped_dek h") auto
  then have "?f (handle_image h) \<noteq> handle_image h"
    by (auto simp: handle_row_def state_row_def)
  then obtain e where 3: "commit_at A L (ascii ''new'') (Some (draw 2 24)) h db' =
      (Inl e, h\<lparr>sh_poisoned := True\<rparr>, db')"
    using commit_at_stale [OF 2(2)] by blast
  show ?thesis
    using 1(1) 2(1) 3 slot_row_image(1) [OF h(8)] raw_snapshot_image [OF 2(2)]
    by (simp add: wrapped_key_substitution_cannot_be_committed_over_def test_steps)
qed

lemma flip_first_changes:
  assumes "v \<noteq> []"
  obtains v' where "flip_first v = Inr v'" "length v' = length v" "v' \<noteq> v"
proof -
  have "b XOR 1 \<noteq> b" for b :: byte
  proof
    assume "b XOR 1 = b"
    then have "(b XOR b) XOR 1 = b XOR b"
      by (metis xor.assoc)
    then show False by simp
  qed
  then show thesis
    using that assms by (cases v) auto
qed

lemma substitute_field_passes:
  assumes bed: "testbed A L fs path"
  shows "(\<And>i n. length (draw i n) = n) \<Longrightarrow> substitute_field A L fs path draw ts = Inr ()"
proof (induction ts arbitrary: draw)
  case (Cons tamper_nonce ts)
  note draws = Cons.prems
  obtain h db where 1: "create_at A L fs path (test_protector_new 27 28) (ascii ''old'') (Some (draw 0 32))
      (Some (draw 1 24)) empty_state_db = (Inr h, db)"
    "created A (test_protector_new 27 28) (ascii ''old'') (draw 0 32) (draw 1 24) h db"
    by (rule create_small [OF bed, of "draw 0 32" "draw 1 24" "ascii ''old''"]) (simp_all add: draws)
  note h = createdD [OF 1(2)]
  let ?v = "if tamper_nonce then sh_nonce h else sh_ciphertext h"
  have check: "client_check (handle_image h)"
    using created_row_check [OF 1(2)] .
  then have "?v \<noteq> []"
    by (auto simp: client_check_def)
  then obtain v where v: "flip_first ?v = Inr v" "length v = length ?v" "v \<noteq> ?v"
    by (rule flip_first_changes)
  let ?f = "\<lambda>r. if tamper_nonce then r\<lparr>cr_nonce := v\<rparr> else r\<lparr>cr_ciphertext := v\<rparr>"
  have "client_check (?f (handle_image h))"
    using check v(2) by (auto simp: client_check_def)
  from attacker_update_image [of db "handle_image h" ?f, OF h(8) this]
  obtain db' where 2: "attacker_update ?f db = Inr db'" "store_image db' (?f (handle_image h))"
    by blast
  have "?f (handle_image h) \<noteq> handle_image h"
    using v(3) by (auto simp: handle_row_def state_row_def)
  then obtain e where 3: "commit_at A L (ascii ''new'') (Some (draw 2 24)) h db' =
      (Inl e, h\<lparr>sh_poisoned := True\<rparr>, db')"
    using commit_at_stale [OF 2(2)] by blast
  have "substitute_field A L fs path (\<lambda>i. draw (i + 3)) ts = Inr ()"
    using draws by (intro Cons.IH)
  then show ?case
    using 1(1) 2(1) 3 slot_row_image(1) [OF h(8)] raw_snapshot_image [OF 2(2)] v(1)
    by (cases tamper_nonce) (simp_all add: test_steps)
qed simp

lemma oversized_row_refused:
  assumes "cr_slot r = 1" and "\<not> lengths_ok r"
  shows "fst (read_row b (connect (db\<lparr>client_state := [r]\<rparr>))) = Inl Storage"
  using assms by (simp add: read_row_def connect_def sql_simps ok_or_def SLOT_def)

lemma oversized_lengths:
  "\<not> lengths_ok (r\<lparr>cr_wrapped_dek := replicate (WRAPPED_DEK_MAX_BYTES + 1) 0\<rparr>)"
  "\<not> lengths_ok (r\<lparr>cr_ciphertext := replicate (MAX_CIPHERTEXT_BYTES + 1) 0\<rparr>)"
  by (simp_all add: lengths_ok_def del: replicate.simps)

lemma oversized_field_passes:
  assumes bed: "testbed A L fs path"
  shows "(\<And>i n. length (draw i n) = n) \<Longrightarrow> oversized_field A L fs path draw ts = Inr ()"
proof (induction ts arbitrary: draw)
  case (Cons oversized_wrapper ts)
  note draws = Cons.prems
  obtain h db where 1: "create_at A L fs path (test_protector_new 29 30) (ascii ''state'') (Some (draw 0 32))
      (Some (draw 1 24)) empty_state_db = (Inr h, db)"
    "created A (test_protector_new 29 30) (ascii ''state'') (draw 0 32) (draw 1 24) h db"
    by (rule create_small [OF bed, of "draw 0 32" "draw 1 24" "ascii ''state''"]) (simp_all add: draws)
  note h = createdD [OF 1(2)]
  have row: "client_state db = [handle_image h]"
    using h(8) by (simp add: store_image_def)
  have refused: "fst (read_row b (connect (db\<lparr>client_state := [r]\<rparr>))) = Inl Storage"
    if "r = (handle_image h)\<lparr>cr_wrapped_dek := replicate (WRAPPED_DEK_MAX_BYTES + 1) 0\<rparr> \<or>
        r = (handle_image h)\<lparr>cr_ciphertext := replicate (MAX_CIPHERTEXT_BYTES + 1) 0\<rparr>" for r b
    using that oversized_lengths [of "handle_image h"] by (intro oversized_row_refused) auto
  have rest: "oversized_field A L fs path (\<lambda>i. draw (i + 2)) ts = Inr ()"
    using draws by (intro Cons.IH)
  show ?case
    unfolding oversized_field.simps
    using 1(1) h(2) rest by (simp add: test_steps row Let_def refused del: replicate.simps)
qed simp

section \<open>Hostile schemas\<close>

lemma full_row_created:
  assumes "created A t state dek nonce h db"
  shows "full_row (add_object x db) = Inr (handle_image h)" "full_row db = Inr (handle_image h)"
    "length (client_state (add_object x db)) = 1"
  using createdD(8) [OF assms]
  by (auto simp: store_image_def full_row_def slot_row_def add_object_def ok_or_def and_then_def)

lemma extended_schema_invalid:
  assumes "created A t state dek nonce h db"
  shows "\<not> schema_valid L (db\<lparr>schema_objects := map f (schema_objects db) @ [x]\<rparr>)"
proof -
  have "length (schema_objects db) = length expected_objects"
    using createdD(8) [OF assms] by (simp add: store_image_def)
  then have "map f (schema_objects db) @ [x] \<noteq> expected_objects"
    by (auto dest: arg_cong [of _ _ length])
  then show ?thesis
    by (simp add: schema_valid_def)
qed

lemma add_object_invalid:
  assumes "created A t state dek nonce h db"
  shows "\<not> schema_valid L (add_object x db)"
  using extended_schema_invalid [OF assms, of L id x] by (simp add: add_object_def)

lemma open_rejects_and_row_is_intact:
  assumes bed: "testbed A L fs path" and made: "created A t state dek nonce h db"
    and rows: "client_state db' = client_state db" and invalid: "\<not> schema_valid L db'"
  shows "assert_open_rejects_and_row_is_intact A L fs path t (handle_image h) db' = Inr ()"
proof -
  obtain r c where run: "open_store A L fs path (state_key_protector t) (connect db') = (r, c)"
    by fastforce
  have "r = Inl Storage"
    using open_image_invalid [OF bed invalid, of t] run by (simp add: open_image_def)
  moreover have "durable c = db'"
    using quietD(1) [OF open_store_quiet [of A L fs path "state_key_protector t"], of "connect db'"] run
    by (simp add: same_store_def connect_def)
  moreover have "client_state db' = [handle_image h]"
    using createdD(8) [OF made] rows by (simp add: store_image_def)
  ultimately show ?thesis
    using run by (simp add: assert_open_rejects_and_row_is_intact_def full_row_def slot_row_def test_steps ok_or_def)
qed

lemma extra_objects_pass:
  assumes bed: "testbed A L fs path" and draws: "\<And>i n. length (draw i n) = n"
  shows "exact_schema_rejects_extra_objects A L fs path draw = Inr ()"
proof -
  obtain h db where 1: "create_at A L fs path (test_protector_new 13 14) (ascii ''state'') (Some (draw 0 32))
      (Some (draw 1 24)) empty_state_db = (Inr h, db)"
    "created A (test_protector_new 13 14) (ascii ''state'') (draw 0 32) (draw 1 24) h db"
    by (rule create_small [OF bed, of "draw 0 32" "draw 1 24" "ascii ''state''"]) (simp_all add: draws)
  show ?thesis
    using 1(1) open_image_invalid [OF bed add_object_invalid [OF 1(2)]]
    by (simp add: exact_schema_rejects_extra_objects_def test_steps)
qed

lemma delete_trigger_passes:
  assumes bed: "testbed A L fs path" and draws: "\<And>i n. length (draw i n) = n"
  shows "hostile_sqlite_prefixed_delete_trigger_fails_closed_without_data_loss A L fs path draw = Inr ()"
proof -
  obtain h db where 1: "create_at A L fs path (test_protector_new 41 42) (ascii ''guarded'') (Some (draw 0 32))
      (Some (draw 1 24)) empty_state_db = (Inr h, db)"
    "created A (test_protector_new 41 42) (ascii ''guarded'') (draw 0 32) (draw 1 24) h db"
    by (rule create_small [OF bed, of "draw 0 32" "draw 1 24" "ascii ''guarded''"]) (simp_all add: draws)
  have intact: "assert_open_rejects_and_row_is_intact A L fs path (test_protector_new 41 42) (handle_image h)
      (add_object x db) = Inr ()" for x
    using add_object_invalid [OF 1(2)]
    by (intro open_rejects_and_row_is_intact [OF bed 1(2)]) (simp_all add: add_object_def)
  have poisoned: "\<exists>e. commit_at A L (ascii ''post-injection'') (Some (draw 2 24)) h (add_object x db) =
      (Inl e, h\<lparr>sh_poisoned := True\<rparr>, add_object x db)" for x
    by (rule commit_at_invalid [OF add_object_invalid [OF 1(2)]]) blast
  let ?x = "(''trigger'', ''sqlite_evil'', ''client_state'',
      Some (''CREATE TRIGGER sqlite_evil AFTER UPDATE ON client_state '' @ ''BEGIN DELETE FROM client_state; END''))"
  obtain e where "commit_at A L (ascii ''post-injection'') (Some (draw 2 24)) h (add_object ?x db) =
      (Inl e, h\<lparr>sh_poisoned := True\<rparr>, add_object ?x db)"
    using poisoned by blast
  then show ?thesis
    unfolding hostile_sqlite_prefixed_delete_trigger_fails_closed_without_data_loss_def
      inject_hostile_schema_row_def Let_def
    using 1(1) intact full_row_created [OF 1(2)] by (simp add: test_steps)
qed

lemma hostile_rows_pass:
  assumes bed: "testbed A L fs path" and draws: "\<And>i n. length (draw i n) = n"
  shows "hostile_sqlite_prefixed_raise_ignore_trigger_fails_closed A L fs path draw = Inr ()"
    and "hostile_sqlite_prefixed_view_fails_closed A L fs path draw = Inr ()"
    and "hostile_sqlite_prefixed_table_with_valid_root_page_fails_closed A L fs path draw = Inr ()"
proof -
  have step: "\<exists>h db. create_at A L fs path (test_protector_new p k) (ascii ''guarded'') (Some (draw 0 32))
      (Some (draw 1 24)) empty_state_db = (Inr h, db) \<and> full_row db = Inr (handle_image h) \<and>
    (\<forall>f x. assert_open_rejects_and_row_is_intact A L fs path (test_protector_new p k) (handle_image h)
      (db\<lparr>schema_objects := map f (schema_objects db) @ [x]\<rparr>) = Inr ())" for p k
  proof -
    obtain h db where 1: "create_at A L fs path (test_protector_new p k) (ascii ''guarded'') (Some (draw 0 32))
        (Some (draw 1 24)) empty_state_db = (Inr h, db)"
      "created A (test_protector_new p k) (ascii ''guarded'') (draw 0 32) (draw 1 24) h db"
      by (rule create_small [OF bed, of "draw 0 32" "draw 1 24" "ascii ''guarded''"]) (simp_all add: draws)
    have "assert_open_rejects_and_row_is_intact A L fs path (test_protector_new p k) (handle_image h)
        (db\<lparr>schema_objects := map f (schema_objects db) @ [x]\<rparr>) = Inr ()" for f x
      using extended_schema_invalid [OF 1(2)] by (intro open_rejects_and_row_is_intact [OF bed 1(2)]) simp_all
    then show ?thesis
      using 1(1) full_row_created(2) [OF 1(2)] by blast
  qed
  have plain: "assert_open_rejects_and_row_is_intact A L fs path t r (add_object x db) = Inr ()"
    if "\<forall>f x. assert_open_rejects_and_row_is_intact A L fs path t r
      (db\<lparr>schema_objects := map f (schema_objects db) @ [x]\<rparr>) = Inr ()" for t r x db
    using that [rule_format, of id x] by (simp add: add_object_def)
  show "hostile_sqlite_prefixed_raise_ignore_trigger_fails_closed A L fs path draw = Inr ()"
    using step [of 43 44] unfolding hostile_sqlite_prefixed_raise_ignore_trigger_fails_closed_def
      inject_hostile_schema_row_def Let_def created_then_def and_then_def
    by (auto simp: plain)
  show "hostile_sqlite_prefixed_view_fails_closed A L fs path draw = Inr ()"
    using step [of 45 46] unfolding hostile_sqlite_prefixed_view_fails_closed_def
      inject_hostile_schema_row_def Let_def created_then_def and_then_def
    by (auto simp: plain)
  show "hostile_sqlite_prefixed_table_with_valid_root_page_fails_closed A L fs path draw = Inr ()"
    using step [of 47 48] unfolding hostile_sqlite_prefixed_table_with_valid_root_page_fails_closed_def
      add_object_def Let_def created_then_def and_then_def
    by (auto simp: rename_placeholder_def)
qed

section \<open>Forced death\<close>

lemma creation_death_image:
  assumes "create_at A L fs path t state d n db = (Inr h, db')"
  shows "dies_after k (create_with_rng A L fs path (state_key_protector t) state d n) (connect db) =
    (if k < 24 then db else db')"
  using create_death.death_boundary [of k False A L fs path "state_key_protector t" state d n "connect db"] assms
  by (auto simp: dies_after_def create_at_def connect_def split: prod.splits)

lemma commit_death_boundary:
  assumes run: "commit_with_rng A L state n s = (Inr (), s')" and quiet: "calls s = []"
  shows "dies_during k took_effect (commit_with_rng A L state n) s =
    (if k < 11 \<or> k = 11 \<and> \<not> took_effect then durable s else durable s')"
proof -
  have "s\<lparr>calls := []\<rparr> = s"
    using quiet by (cases s) simp
  then have usable: "\<not> sh_poisoned (handle s)" and inner: "commit_inner A L state n (s\<lparr>calls := []\<rparr>) = (Inr (), s')"
    using run by (simp_all add: commit_with_rng_Inr)
  have "durable (snd (commit_with_rng A L state n t)) = durable (snd (commit_inner A L state n t))"
    if "\<not> sh_poisoned (handle t)" for t
    using that by (simp add: commit_with_rng_def Let_def split: prod.split sum.split)
  then have "dies_during k took_effect (commit_with_rng A L state n) s =
      dies_during k took_effect (commit_inner A L state n) s"
    using usable by (simp add: dies_during_def)
  with commit_death.death_boundary [of k took_effect A L state n s] inner show ?thesis
    by simp
qed

lemma commit_death_image:
  assumes "commit_with_rng A L state n s = (Inr (), s')" and "calls s = []"
  shows "dies_after k (commit_with_rng A L state n) s = (if k < 12 then durable s else durable s')"
  using commit_death_boundary [OF assms, of k False] by (auto simp: dies_after_def)

lemma empty_image_invalid: "\<not> schema_valid L empty_state_db"
  by (simp add: schema_valid_def empty_state_db_def expected_objects_def)

lemma creation_deaths_pass:
  assumes bed: "testbed A L fs path"
  shows "(\<And>i n. length (draw i n) = n) \<Longrightarrow>
    set ps \<subseteq> {Create_after_schema, Create_after_insert, Create_after_commit} \<Longrightarrow>
    creation_deaths A L fs path draw ps = Inr ()"
proof (induction ps arbitrary: draw)
  case (Cons p ps)
  note draws = Cons.prems(1)
  obtain h db where 1: "create_at A L fs path (test_protector_new 31 32) (ascii ''created'') (Some (draw 0 32))
      (Some (draw 1 24)) empty_state_db = (Inr h, db)"
    "created A (test_protector_new 31 32) (ascii ''created'') (draw 0 32) (draw 1 24) h db"
    by (rule create_small [OF bed, of "draw 0 32" "draw 1 24" "ascii ''created''"]) (simp_all add: draws)
  obtain h' db' where 2: "create_at A L fs path (test_protector_new 31 32) (ascii ''retried'') (Some (draw 2 32))
      (Some (draw 3 24)) empty_state_db = (Inr h', db')"
    "created A (test_protector_new 31 32) (ascii ''retried'') (draw 2 32) (draw 3 24) h' db'"
    by (rule create_small [OF bed, of "draw 2 32" "draw 3 24" "ascii ''retried''"]) (simp_all add: draws)
  have image: "child_create A L fs path (draw 0 32) (draw 1 24) p empty_state_db =
      (if p = Create_after_commit then db else empty_state_db)"
    using creation_death_image [OF 1(1), of "calls_before p"] Cons.prems(2) by (auto simp: child_create_def)
  have rest: "creation_deaths A L fs path (\<lambda>i. draw (i + 4)) ps = Inr ()"
    using draws Cons.prems(2) by (intro Cons.IH) auto
  show ?case
    unfolding creation_deaths.simps Let_def image
    using 2(1) createdD(2,3) [OF 1(2)] createdD(2,3) [OF 2(2)] rest
      open_image_healthy [OF bed createdD(1) [OF 1(2)]] open_image_invalid [OF bed empty_image_invalid]
    by (simp add: test_steps)
qed simp

lemma commit_deaths_pass:
  assumes bed: "testbed A L fs path"
  shows "(\<And>i n. length (draw i n) = n) \<Longrightarrow>
    set ps \<subseteq> {(Commit_after_seal, ''old''), (Commit_after_update, ''old''), (Commit_after_commit, ''committed'')} \<Longrightarrow>
    commit_deaths A L fs path draw ps = Inr ()"
proof (induction ps arbitrary: draw)
  case (Cons x ps)
  obtain p expected where x: "x = (p, expected)" by fastforce
  note draws = Cons.prems(1)
  obtain h db where 1: "create_at A L fs path (test_protector_new 31 32) (ascii ''old'') (Some (draw 0 32))
      (Some (draw 1 24)) empty_state_db = (Inr h, db)"
    "created A (test_protector_new 31 32) (ascii ''old'') (draw 0 32) (draw 1 24) h db"
    by (rule create_small [OF bed, of "draw 0 32" "draw 1 24" "ascii ''old''"]) (simp_all add: draws)
  note h = createdD [OF 1(2)]
  obtain h' db' where 2: "commit_at A L (ascii ''committed'') (Some (draw 2 24)) h db = (Inr (), h', db')"
    "healthy A (test_protector_new 31 32) h' db'" "next_version h (ascii ''committed'') h'"
    by (rule commit_small [OF bed h(1,7), of "draw 2 24" "ascii ''committed''"]) (simp_all add: draws)
  have image: "child_commit A L fs path (draw 2 24) p db = Inr (if calls_before p < 12 then db else db')"
  proof -
    obtain s' where "commit_with_rng A L (ascii ''committed'') (Some (draw 2 24))
        \<lparr>durable = db, working = db, calls = [], handle = h\<rparr> = (Inr (), s')" "durable s' = db'"
      using 2(1) by (auto simp: commit_at_def split: prod.splits)
    then show ?thesis
      using open_image_healthy [OF bed h(1)] commit_death_image [where k = "calls_before p"]
      by (simp add: child_commit_def and_then_def)
  qed
  have "expected = (if calls_before p < 12 then ''old'' else ''committed'')"
    using Cons.prems(2) x by auto
  moreover have "commit_deaths A L fs path (\<lambda>i. draw (i + 3)) ps = Inr ()"
    using draws Cons.prems(2) by (intro Cons.IH) auto
  ultimately show ?case
    using 1(1) h(2,3) healthyD(1) [OF 2(2)] next_versionD(1) [OF 2(3)]
      open_image_healthy [OF bed h(1)] open_image_healthy [OF bed 2(2)]
    by (simp add: x image test_steps)
qed simp

section \<open>Properties\<close>

text \<open>C21. A process that dies while it creates a profile leaves no half profile. If the creation would
  succeed, then there is one call, its commit, that decides: death in an earlier call, whether that call was
  carried out or not, and death in the commit before it is carried out leave the file empty, so that
  opening is refused and creating is possible again; death in the commit after it was carried out,
  though its answer never arrived, and every later death leave a profile that opens with
  generation one and the state that was given.\<close>

theorem death_during_creation_leaves_no_half_profile:
  assumes "aead_laws A" and "catalog_laws L" and "protector_laws P"
    and "\<forall>nonce. n = Some nonce \<longrightarrow> length nonce = 24"
    and run: "create_with_rng A L fs path P state d n (connect empty_state_db) = (Inr h, c)"
  shows "\<exists>point. \<forall>k took_effect.
    let db = dies_during k took_effect (create_with_rng A L fs path P state d n) (connect empty_state_db) in
    (if k < point \<or> k = point \<and> \<not> took_effect
     then db = empty_state_db \<and> fst (open_store A L fs path P (connect db)) = Inl Storage
     else fst (open_store A L fs path P (connect db)) = Inr h \<and> sh_generation h = 1 \<and> sh_state h = state)"
proof -
  let ?c = "connect empty_state_db"
  have c: "?c\<lparr>calls := []\<rparr> = ?c" "calls ?c = []" "durable ?c = empty_state_db"
      "schema_objects (durable ?c) = [] \<longrightarrow> client_state (durable ?c) = []"
    by (simp_all add: connect_def empty_state_db_def)
  have image: "dies_during k took_effect (create_with_rng A L fs path P state d n) ?c =
      (if k < 23 \<or> k = 23 \<and> \<not> took_effect then empty_state_db else durable c)" for k took_effect
    using create_death.death_boundary [of k took_effect A L fs path P state d n ?c] run c(1,3) by simp
  have h: "expected_binding P = Inr (sh_binding h)" "reject_anomalous_wal fs path = Inr ()"
      "sh_generation h = 1" "sh_state h = state" "\<not> sh_poisoned h"
    using create_faultless [OF run c(2,4)] by blast+
  have "handle_ok A P h \<and> store_image (durable c) (handle_image h)"
    using create_synced [OF run c(4) assms(1,3,4)] .
  then have "fst (open_store A L fs path P (connect (durable c))) = Inr h"
    using open_store_of_image [OF assms(2) h(2), of "connect (durable c)" A P h] h(5) by (simp add: connect_def)
  moreover have "fst (open_store A L fs path P ?c) = Inl Storage"
    using h(1,2) empty_image_invalid [of L] by (simp add: open_store_def connect_def sql_simps)
  ultimately show ?thesis
    using h(3,4) image by (intro exI [of _ 23]) (simp add: Let_def)
qed

text \<open>C22. A process that dies while it commits leaves the complete old or the complete new state. If the
  commit of a current handle would succeed, then there is one call, the commit of its transaction, that
  decides: death in an earlier call, whether that call was carried out or not, and death in the
  deciding call before it is carried out leave a file that opens as the old handle; death in it after
  it was carried out, though its answer never arrived, and every later death leave a file that
  opens as the new handle, with the new state and the next generation.\<close>

theorem death_during_commit_leaves_old_or_new_state:
  assumes "aead_laws A" and "catalog_laws L" and "reject_anomalous_wal fs path = Inr ()"
    and "synced A P s" and "calls s = []" and "\<forall>nonce. n = Some nonce \<longrightarrow> length nonce = 24"
    and run: "commit_with_rng A L state n s = (Inr (), s')"
  shows "(\<exists>point. \<forall>k took_effect.
      fst (open_store A L fs path P (connect (dies_during k took_effect (commit_with_rng A L state n) s))) =
        Inr (if k < point \<or> k = point \<and> \<not> took_effect then handle s else handle s')) \<and>
    sh_state (handle s') = state \<and> uint (sh_generation (handle s')) = uint (sh_generation (handle s)) + 1"
proof -
  have old: "handle_ok A P (handle s)" "store_image (durable s) (handle_image (handle s))"
    using assms(4) by (simp_all add: synced_def)
  have new: "store_image (durable s') (handle_image (handle s'))" "\<not> sh_poisoned (handle s')"
      "sh_state (handle s') = state" "uint (sh_generation (handle s')) = uint (sh_generation (handle s)) + 1"
    using commit_success [OF run old(2)] by blast+
  have usable: "\<not> sh_poisoned (handle s)"
    using run by (simp add: commit_with_rng_Inr)
  have reopen: "fst (open_store A L fs path P (connect db)) = Inr h"
    if "handle_ok A P h" "store_image db (handle_image h)" "\<not> sh_poisoned h" for h db
    using open_store_of_image [OF assms(2,3), of "connect db" A P h] that by (simp add: connect_def)
  have "fst (open_store A L fs path P (connect (durable s))) = Inr (handle s)"
      "fst (open_store A L fs path P (connect (durable s'))) = Inr (handle s')"
    using reopen old usable new(1,2) commit_keeps_handle_ok [OF assms(1) run old(1) assms(6)] by blast+
  then show ?thesis
    using commit_death_boundary [OF run assms(5)] new(3,4) by (intro conjI exI [of _ 11]) simp_all
qed

text \<open>C23. The unit tests of the state store pass. They are run against the test's own protector and
  random generator, for every lawful cipher that encrypts, every lawful catalog and every path without an
  anomalous write-ahead log; the operating system's draws have the requested lengths, and the 128
  nonces of the nonce corpus are distinct.\<close>

theorem state_store_tests_pass:
  assumes "testbed A L fs path" and "\<forall>i n. length (draw i n) = n"
    and "inj_on (\<lambda>i. draw i 24) {1..128}"
  shows "list_all (\<lambda>test. test = Inr ())
    [cas_conflict_poisons_the_stale_handle A L fs path draw,
     strict_whole_schema_validation_accepts_the_clean_store A L fs path draw,
     failed_creation_leaves_no_partial_profile_and_retry_succeeds A L fs path,
     fresh_nonce_rng_failure_and_exact_size_bound A L fs path draw,
     divergent_commit_after_authentic_rollback_uses_a_fresh_nonce A L fs path,
     committed_nonce_corpus_is_unique A L fs path draw,
     wrapped_key_substitution_cannot_be_committed_over A L fs path draw,
     nonce_or_ciphertext_substitution_cannot_be_committed_over A L fs path draw,
     oversized_blobs_are_refused_by_length_before_materialization A L fs path draw,
     exact_schema_rejects_extra_objects A L fs path draw,
     hostile_sqlite_prefixed_delete_trigger_fails_closed_without_data_loss A L fs path draw,
     hostile_sqlite_prefixed_raise_ignore_trigger_fails_closed A L fs path draw,
     hostile_sqlite_prefixed_view_fails_closed A L fs path draw,
     hostile_sqlite_prefixed_table_with_valid_root_page_fails_closed A L fs path draw,
     forced_death_during_creation_reveals_no_half_profile A L fs path draw,
     forced_death_during_commit_reveals_complete_old_or_new_state A L fs path draw]"
proof -
  have draws: "length (draw i n) = n" for i n
    using assms(2) by blast
  note bed = assms(1)
  show ?thesis
    unfolding nonce_or_ciphertext_substitution_cannot_be_committed_over_def
      oversized_blobs_are_refused_by_length_before_materialization_def
      forced_death_during_creation_reveals_no_half_profile_def
      forced_death_during_commit_reveals_complete_old_or_new_state_def
    by (simp only: list.pred_inject cas_conflict_passes [OF bed draws] clean_store_passes [OF bed draws]
      failed_creation_passes [OF bed] fresh_nonce_passes [OF bed draws] divergent_commit_passes [OF bed]
      nonce_corpus_passes [OF bed draws assms(3)] wrapped_key_substitution_passes [OF bed draws]
      substitute_field_passes [OF bed draws] oversized_field_passes [OF bed draws]
      extra_objects_pass [OF bed draws] delete_trigger_passes [OF bed draws] hostile_rows_pass [OF bed draws]
      creation_deaths_pass [OF bed draws] commit_deaths_pass [OF bed draws] set_simps insert_subset
      empty_subsetI insert_iff simp_thms)
qed

section \<open>Witnesses\<close>

theorem death_during_creation_leaves_no_half_profile_witness:
  "\<exists>h point. let operation = create_with_rng example_aead example_catalog example_fs ''state.sqlite''
       example_protector [5, 6] (Some (replicate 32 3)) (Some (replicate 24 4)) in
     dies_during point False operation (connect empty_state_db) = empty_state_db \<and>
     fst (open_store example_aead example_catalog example_fs ''state.sqlite'' example_protector
       (connect (dies_during point True operation (connect empty_state_db)))) = Inr h \<and> sh_state h = [5, 6]"
proof -
  obtain h c where "example_create = (Inr h, c)"
    by (rule example_create_Inr)
  then have run: "create_with_rng example_aead example_catalog example_fs ''state.sqlite''
     example_protector [5, 6] (Some (replicate 32 3)) (Some (replicate 24 4)) (connect empty_state_db) = (Inr h, c)"
    by (simp add: example_create_def example_conn_def connect_def)
  have "\<forall>nonce. Some (replicate 24 4) = Some nonce \<longrightarrow> length (nonce :: bytes) = 24"
    by auto
  from death_during_creation_leaves_no_half_profile
    [OF example_aead_laws example_catalog_laws example_protector_laws this run]
  obtain point where boundary: "\<And>k took_effect. let db = dies_during k took_effect
      (create_with_rng example_aead example_catalog example_fs ''state.sqlite'' example_protector [5, 6]
        (Some (replicate 32 3)) (Some (replicate 24 4))) (connect empty_state_db) in
    (if k < point \<or> k = point \<and> \<not> took_effect
     then db = empty_state_db \<and> fst (open_store example_aead example_catalog example_fs ''state.sqlite''
       example_protector (connect db)) = Inl Storage
     else fst (open_store example_aead example_catalog example_fs ''state.sqlite'' example_protector
       (connect db)) = Inr h \<and> sh_generation h = 1 \<and> sh_state h = [5, 6])"
    by blast
  show ?thesis
    using boundary [of point False] boundary [of point True] unfolding Let_def by auto
qed

theorem death_during_commit_leaves_old_or_new_state_witness:
  "\<exists>s' point. commit_with_rng example_aead example_catalog [8, 8] (Some (replicate 24 9)) example_store = (Inr (), s') \<and>
     fst (open_store example_aead example_catalog example_fs ''state.sqlite'' example_protector
       (connect (dies_during point False (commit_with_rng example_aead example_catalog [8, 8]
          (Some (replicate 24 9))) example_store))) = Inr (handle example_store) \<and>
     fst (open_store example_aead example_catalog example_fs ''state.sqlite'' example_protector
       (connect (dies_during point True (commit_with_rng example_aead example_catalog [8, 8]
          (Some (replicate 24 9))) example_store))) = Inr (handle s')"
proof -
  obtain s' where run:
    "commit_with_rng example_aead example_catalog [8, 8] (Some (replicate 24 9)) example_store = (Inr (), s')"
    using example_commit [of "[8, 8]"] by (auto simp: state_limits)
  obtain h c where "example_create = (Inr h, c)"
    by (rule example_create_Inr)
  then have quiet: "calls example_store = []"
    using example_store_fields by blast
  have "\<forall>nonce. Some (replicate 24 9) = Some nonce \<longrightarrow> length (nonce :: bytes) = 24"
    by auto
  from death_during_commit_leaves_old_or_new_state [OF example_aead_laws example_catalog_laws
      example_guard [of "''state.sqlite''"] example_synced quiet this run]
  obtain point where boundary: "\<And>k took_effect. fst (open_store example_aead example_catalog example_fs
      ''state.sqlite'' example_protector (connect (dies_during k took_effect (commit_with_rng example_aead
        example_catalog [8, 8] (Some (replicate 24 9))) example_store))) =
      Inr (if k < point \<or> k = point \<and> \<not> took_effect then handle example_store else handle s')"
    by blast
  show ?thesis
    using run boundary [of point False] boundary [of point True] by simp blast
qed

lemma example_testbed: "testbed example_aead example_catalog example_fs path"
  using example_aead_laws example_catalog_laws example_guard by (simp add: testbed_def example_aead_def)

lemma example_draws_distinct: "inj_on (\<lambda>i. replicate 24 (word_of_nat i) :: bytes) {1..128}"
proof (rule inj_onI)
  fix i j :: nat
  assume "i \<in> {1..128}" "j \<in> {1..128}" "replicate 24 (word_of_nat i) = (replicate 24 (word_of_nat j) :: bytes)"
  then have "unat (word_of_nat i :: byte) = unat (word_of_nat j :: byte)" "i < 256" "j < 256"
    by auto
  then show "i = j"
    by (simp add: unat_of_nat)
qed

theorem state_store_tests_pass_witness:
  "(let draw = \<lambda>i n. replicate n (word_of_nat i) in
     cas_conflict_poisons_the_stale_handle example_aead example_catalog example_fs ''state.sqlite'' draw = Inr () \<and>
     committed_nonce_corpus_is_unique example_aead example_catalog example_fs ''state.sqlite'' draw = Inr ())"
  using state_store_tests_pass [of example_aead example_catalog example_fs "''state.sqlite''"
      "\<lambda>i n. replicate n (word_of_nat i)", OF example_testbed _ example_draws_distinct]
  by (simp add: Let_def)

end
