(* ===== verification/Spec2Isabelle.thy ===== *)
theory Spec2Isabelle
  imports Relay_Properties Relay_Honest Client_Properties State_Properties Relay_Open_Properties Demo_Properties
    Diagnostics State_Tests_Pass
begin

text \<open>
  A verification development of the secure-messenger laboratory: a store-and-forward relay, the
  endpoint client that seals and opens Olm messages, the encrypted client-state store, and the
  demonstration that runs them together. File and function names below are those under
  \<^verbatim>\<open>src/src\<close>.

  \<^bold>\<open>Parts and theories.\<close>
  \<^item> \<open>Lab_Prelude\<close> has the results \<open>lab_error + 'a\<close> with \<open>and_then\<close>, \<open>ensure\<close> and \<open>ok_or\<close> (Rust's \<^verbatim>\<open>?\<close>),
    64-bit words with saturating and checked addition and conversion to \<^verbatim>\<open>i64\<close>, and big-endian
    encodings; \<open>Lab_Types\<close> has \<^verbatim>\<open>error.rs\<close>, \<^verbatim>\<open>ids.rs\<close> and the message types of \<^verbatim>\<open>client.rs\<close>.
  \<^item> \<open>Framing\<close> is the interface \<open>length_prefix\<close> of a length-prefixed encoding; \<open>Capability\<close>
    (\<^verbatim>\<open>capability.rs\<close>) interprets it on \<open>append_part\<close>, and has the canonical encoding, the five
    signed requests, the capabilities and \<open>verify_envelope\<close>. Ed25519 and SHA-256 are the record
    \<open>crypto\<close>, and \<open>crypto_laws\<close> names what is relied on.
  \<^item> \<open>Sql_Transaction\<close> models a SQLite connection: a committed image, a working image and a list
    \<open>calls\<close> that says of every later call whether it is answered, fails, or is carried out with its
    answer lost. Programs are state-passing functions composed with \<open>attempt\<close>. The locale
    \<open>transactional\<close> says that an operation that returns an error leaves the committed image as it was or,
    when an answer was lost, as the run without faults leaves it, and that faults can only turn its result
    into \<open>Storage\<close>. \<open>dies_during\<close> is the image that a process leaves which dies in a call, carried out or
    not. \<open>Sql_Table\<close> has statements on lists of rows. \<open>Commit_Point\<close> is about operations that write in one
    call only; its locale \<open>committing\<close> says which image a death leaves, and is interpreted on the creation
    and the commit of the state store.
  \<^item> \<open>Relay\<close> (\<^verbatim>\<open>relay.rs\<close>) has the six tables and one definition per operation, in the order
    of the code; \<open>Relay_Invariant\<close> the data invariant; \<open>Relay_Spec\<close> what the relay promises,
    on mailboxes, live queues, tombstones and used nonces, and the abstraction \<open>view\<close>;
    \<open>Relay_Refinement\<close> that each operation is its specification through \<open>view\<close>;
    \<open>Relay_Contract\<close> the locale \<open>relay_operation\<close>, interpreted on the five request operations;
    \<open>Relay_History\<close> the step relation of a relay under arbitrary requests, sweeps and
    database faults, with a clock that does not run back; \<open>Relay_Honest\<close> the runs on honest requests.
  \<^item> \<open>Relay_Open\<close> and \<open>Relay_Open_Facts\<close> are the opening of a relay database: preflight, schema
    manifests, classification and migration. The answers of SQLite's catalogue and the image that its crash
    recovery makes of a file with a journal or a write-ahead log are the record \<open>sqlite\<close>;
    \<open>recovery_laws\<close> says that a file without them is left alone. \<open>Companion\<close> (\<^verbatim>\<open>companion.rs\<close>) is the
    guard against planted WAL files, over a record \<open>file_system\<close> of the calls it makes.
  \<^item> \<open>Client\<close> (\<^verbatim>\<open>client.rs\<close>) has contact bundles, sessions, sealing and the two staged openings,
    with the locale \<open>staged_opening\<close> interpreted on both. The ratchet and the JSON codec are the
    record \<open>olm\<close>; \<open>Client_Laws\<close> names what is relied on.
  \<^item> \<open>State_Envelope\<close> (\<^verbatim>\<open>persistence/envelope.rs\<close>) and \<open>State_Store\<close> (\<^verbatim>\<open>persistence/sqlite.rs\<close>,
    \<^verbatim>\<open>persistence/protector.rs\<close>) are the state store: validation, creation, opening and the
    compare-and-swap commit; \<open>State_Store_Facts\<close> and \<open>State_Store_History\<close> its transactional
    contract and the histories of several handles on one database. \<open>State_Testbed\<close> has the test doubles of
    \<^verbatim>\<open>persistence/sqlite.rs\<close>, \<open>State_Tests\<close> sixteen of its unit tests, and \<open>State_Tests_Pass\<close> that they pass.
  \<^item> \<open>Diagnostics\<close> has the hand-written \<^verbatim>\<open>Debug\<close> texts of identifiers, packets, envelopes, bindings and the
    store, and the \<^verbatim>\<open>Display\<close> texts of the errors.
  \<^item> \<open>Demo\<close> and \<open>Demo_Properties\<close> (\<^verbatim>\<open>main.rs\<close>) are the demonstration, from the first reading of the clock to
    what the process prints and returns, and the proof that it passes.

  \<^bold>\<open>What the theorems show.\<close> Signing bytes determine the command (\<open>Capability\<close>). Under every
  pattern of failing calls and lost answers a relay operation changes nothing or does all of its work,
  the data invariant holds in every history, requests are accepted at most once,
  acknowledged messages and deleted mailboxes do not come back, and every operation refines its
  specification (\<open>Relay_Properties\<close>, \<open>Relay_Honest\<close>). A refused packet leaves the client as
  it was and no message is displayed twice (\<open>Client_Properties\<close>). The store's commit is a
  compare-and-swap, a failed one poisons its handle, and reopening gives the last committed
  state (\<open>State_Properties\<close>). A process that dies anywhere in a creation or a commit, also inside the
  \<^verbatim>\<open>COMMIT\<close>, leaves the old image or the complete new one, and the unit tests of the store pass for every
  lawful cipher and catalogue (\<open>State_Tests_Pass\<close>). The texts that are logged reveal lengths, times and counters only
  (\<open>Diagnostics\<close>). Only known schemas are opened, and a refused file is kept except for what crash
  recovery writes into it (\<open>Relay_Open_Properties\<close>). The theorem of this theory runs through client, capability,
  relay and client.

  \<^bold>\<open>Bounds.\<close> No definition uses fuel: loops of the code are recursions over lists of rows or
  names. A query is one call, from its preparation to its last row, so that numbers of calls are the
  model's; only the failpoints of the forced-death tests are named by them. Integers are 64-bit words
  where the code has \<^verbatim>\<open>u64\<close>, and unbounded integers with the \<^verbatim>\<open>i64\<close> range written out where they are
  database values.

  \<^bold>\<open>Not modelled.\<close> The bytes of a database file, SQLite's journal and page formats, and
  locking between processes: a transaction acts on a whole image, and settings such as \<^verbatim>\<open>journal_mode\<close> are no
  part of it. The image of the state store is what SQLite reads after recovering from the store's own
  journal; a foreign journal planted beside it is a change of the file from outside. The cryptographic strength
  of the libraries: theorems that need it name an unforgeability hypothesis. Zeroisation of
  memory. Derived \<^verbatim>\<open>Debug\<close> texts and the alternate form \<^verbatim>\<open>{:#?}\<close>. Of the unit tests of the store, those
  that scan or plant file bytes (\<^verbatim>\<open>round_trip_restart_and_redaction\<close>, \<^verbatim>\<open>planted_wal_is_refused_...\<close>,
  \<^verbatim>\<open>wal_mode_state_store_with_live_wal_opens\<close>) and \<^verbatim>\<open>tamper_wrong_binding_...\<close>, which passes only if one
  particular forged ciphertext does not decrypt; for the same two reasons the unit tests of
  \<^verbatim>\<open>capability.rs\<close> and \<^verbatim>\<open>envelope.rs\<close>.
\<close>

section \<open>A closed run\<close>

definition example_packet :: encrypted_packet where
  "example_packet = EncryptedPacket (1 # the (example_plain_to_vec
     \<lparr>pm_version = PAYLOAD_VERSION, pm_conversation_id = example_conversation,
      pm_message_id = MessageId (replicate 16 4), pm_sent_at = 60, pm_body = ''reply''\<rparr>))"

definition example_sealed :: "byte send_request" where
  "example_sealed = authorize example_crypto (sender_capability example_owner)
     (MessageId (replicate 16 4)) example_packet 500"

lemma example_seal_run:
  "fst (seal example_olm (\<lambda>n. replicate n 4) ''reply'' 60 example_open) =
     Inr (MessageId (replicate 16 4), example_packet)"
  by (simp add: seal_def example_open_def example_fresh_def olm_client_new_def example_olm_def
      example_plain_to_vec_def example_olm_to_vec_def message_id_random_def example_packet_def Let_def)

lemma example_packet_size:
  "packet_bytes example_packet \<noteq> []" "length (packet_bytes example_packet) = 47"
  by (simp_all add: example_packet_def example_plain_to_vec_def example_conversation_def)

lemma example_sealed_sel [simp]:
  "snd_queue_id example_sealed = QueueId (replicate 32 1)"
  "snd_message_id example_sealed = MessageId (replicate 16 4)"
  "snd_packet example_sealed = example_packet" "snd_expires_at example_sealed = 500"
  by (simp_all add: example_sealed_def authorize_def sender_capability_def example_owner_def Let_def)

lemma example_sealed_signature:
  "verify example_crypto 5 (send_request_signing_bytes example_crypto example_sealed)
     (snd_signature example_sealed)"
  unfolding example_sealed_def authorize_signs
  by (simp add: example_crypto_def example_owner_def sender_capability_def)

lemma example_sealed_stored:
  "enqueue example_crypto example_sealed 50 (relay_of example_db) =
    (Inr Stored, (relay_of (example_db\<lparr>messages := [message_row_of example_crypto example_sealed 500]\<rparr>))
       \<lparr>audit_events := [''message_enqueued'']\<rparr>)"
  using example_sealed_signature example_packet_size by (simp add: enqueue_def example_eval)

lemma example_sealed_fetched:
  "\<exists>envs s3. fetch example_crypto example_fetch 60
     ((relay_of (example_db\<lparr>messages := [message_row_of example_crypto example_sealed 500]\<rparr>))
       \<lparr>audit_events := [''message_enqueued'']\<rparr>) = (Inr envs, s3)"
  using example_signatures(3) by (simp add: fetch_def example_eval)

section \<open>Through the relay from client to client\<close>

text \<open>C1. End to end: a body that one client seals on its session and the relay stores for a mailbox
  reaches the peer unchanged. In every later state of every history of the relay, under a
  clock that does not run back, a fetch with the mailbox's receive capability that succeeds
  before the expiry returns, unless the message has been acknowledged, an envelope that the
  receive capability verifies and that the peer's paired session opens to the same body, time
  and identifier, provided the peer has not displayed that identifier before.\<close>

theorem sealed_message_reaches_peer:
  assumes "crypto_laws C" and "codec_laws O'" and "pickle_laws O'"
    and "session alice = Some s" and "session bob = Some r" and "paired O' s r"
    and "conversation_id bob = conversation_id alice"
    and "length (conversation_id_bytes (conversation_id alice)) = 16"
    and "length (fill_bytes 16) = 16" and "length (fill_bytes' 16) = 16"
    and "fst (seal O' fill_bytes body sent_at alice) = Inr (mid, packet)"
    and "mid \<notin> displayed_messages bob"
    and "queue_id_ok (mo_queue_id owner)" and "relay_inv C (durable rs)"
    and "enqueue C (authorize C (sender_capability owner) mid packet expires_at) t rs = (Inr Stored, rs1)"
    and "reaches C (rs1, t) (rs2, t2)" and "t2 < expires_at"
    and "fetch C (authorize_fetch C fill_bytes' (receiver_capability C owner) valid_until) t2 rs2 =
      (Inr envs, rs3)"
    and "gone (view (uint t2) (durable rs2))
      (queue_id_bytes (mo_queue_id owner), message_id_bytes mid) = None"
  shows "\<exists>env\<in>set envs. \<exists>v om. verify_envelope C (receiver_capability C owner) env t2 = Inr v \<and>
    fst (open_message O' v t2 bob) = Inr om \<and> pm_body (om_message om) = body \<and>
    pm_sent_at (om_message om) = sent_at \<and> pm_message_id (om_message om) = mid"
proof -
  let ?r = "authorize C (sender_capability owner) mid packet expires_at"
  let ?f = "authorize_fetch C fill_bytes' (receiver_capability C owner) valid_until"
  have r: "snd_queue_id ?r = mo_queue_id owner" "snd_message_id ?r = mid" "snd_expires_at ?r = expires_at"
    by (simp_all add: authorize_def sender_capability_def Let_def)
  have f: "ftc_queue_id ?f = mo_queue_id owner" "nonce_ok (ftc_nonce ?f)"
    using assms(10) by (simp_all add: authorize_fetch_def receiver_capability_def nonce_random_def
        nonce_ok_def Let_def)
  have "message_id_ok mid"
    using assms(9) seal_success [of O' fill_bytes body sent_at alice mid packet]
      assms(11) by (metis message_id.sel message_id_ok_def message_id_random_def prod.collapse)
  then have "envelope_of_request ?r \<in> set envs"
    using stored_message_fetched [OF assms(1) _ _ assms(14,15,16) _ f(2) _ assms(18)] r f assms(13,17,19)
    by simp
  then show ?thesis
    using sealed_message_opens [OF assms(1-9,11,12,17), of owner] by blast
qed

theorem sealed_message_reaches_peer_witness:
  "\<exists>envs s3. fetch example_crypto example_fetch 60
     (snd (enqueue example_crypto example_sealed 50 (relay_of example_db))) = (Inr envs, s3) \<and>
   (\<exists>env\<in>set envs. \<exists>v om.
      verify_envelope example_crypto (receiver_capability example_crypto example_owner) env 60 = Inr v \<and>
      fst (open_message example_olm v 60 example_open) = Inr om \<and>
      pm_body (om_message om) = ''reply'' \<and> pm_sent_at (om_message om) = 60 \<and>
      pm_message_id (om_message om) = MessageId (replicate 16 4))"
proof -
  let ?s1 = "snd (enqueue example_crypto example_sealed 50 (relay_of example_db))"
  obtain envs s3 where f: "fetch example_crypto example_fetch 60 ?s1 = (Inr envs, s3)"
    using example_sealed_fetched by (auto simp: example_sealed_stored)
  have reach: "reaches example_crypto (?s1, 50) (?s1, 60)"
    using reaches.step [OF reaches.start [of example_crypto "(?s1, 50)"] _
        faults [of example_crypto ?s1 60 "calls ?s1"]] by simp
  have inv: "relay_inv example_crypto (durable (relay_of example_db))"
    by (simp add: relay_of_def example_inv)
  have enq: "enqueue example_crypto (authorize example_crypto (sender_capability example_owner)
      (MessageId (replicate 16 4)) example_packet 500) 50 (relay_of example_db) = (Inr Stored, ?s1)"
    unfolding example_sealed_def [symmetric] by (simp add: example_sealed_stored)
  have live: "gone (view (uint (60 :: u64)) (durable ?s1)) (queue_id_bytes (mo_queue_id example_owner),
      message_id_bytes (MessageId (replicate 16 4))) = None"
    by (simp add: example_sealed_stored)
      (simp add: relay_of_def view_def live_deadline_def example_db_def empty_relay_db_def)
  have "\<exists>env\<in>set envs. \<exists>v om.
      verify_envelope example_crypto (receiver_capability example_crypto example_owner) env 60 = Inr v \<and>
      fst (open_message example_olm v 60 example_open) = Inr om \<and>
      pm_body (om_message om) = ''reply'' \<and> pm_sent_at (om_message om) = 60 \<and>
      pm_message_id (om_message om) = MessageId (replicate 16 4)"
    by (rule sealed_message_reaches_peer [OF crypto_laws_example example_olm_laws(4,3) _ _
          example_olm_laws(5) _ _ _ _ example_seal_run _ _ inv enq reach _ f [unfolded example_fetch_def]
          live, where s = False and r = False])
      (simp_all add: example_open_def example_fresh_def olm_client_new_def example_conversation_def
        example_owner_def id_ok_defs)
  then show ?thesis
    using f by blast
qed

end
